(* ===== verification/Rust_Prelude.thy ===== *)
theory Rust_Prelude
  imports Main "HOL-Library.Word" "HOL-Library.Code_Target_Nat"
begin

text \<open>
  What the components share of Rust itself: the integer types, results and panics, big-endian
  byte encodings and the hash map of the standard library.

  \<^item> \<open>u8\<close>, \<open>u16\<close>, \<open>u32\<close> and \<open>u64\<close> are words of that width; \<open>usize\<close> values (lengths, counters,
    indices) are natural numbers.
  \<^item> \<open>Result<T, E>\<close> is the sum \<open>'e + 'a\<close>, with \<open>Err\<close> for \<open>Inl\<close> and \<open>Ok\<close> for \<open>Inr\<close>.
  \<^item> A call that can panic returns an \<open>outcome\<close>; \<open>Panics\<close> is the unwinding thread.
  \<^item> \<open>std::collections::HashMap\<close> is an association list with distinct keys. The iteration order of
    the real map is unspecified; an operation that iterates uses the list order as one such order,
    and no lemma depends on which order it is.
\<close>

section \<open>Integers, results and panics\<close>

type_synonym u8 = "8 word"
type_synonym u16 = "16 word"
type_synonym u32 = "32 word"
type_synonym u64 = "64 word"

type_synonym bytes = "u8 list"

abbreviation Err :: "'e \<Rightarrow> 'e + 'a" where
  "Err \<equiv> Inl"

abbreviation Ok :: "'a \<Rightarrow> 'e + 'a" where
  "Ok \<equiv> Inr"

datatype 'a outcome = Panics | Returns 'a

definition outcome_bind :: "'a outcome \<Rightarrow> ('a \<Rightarrow> 'b outcome) \<Rightarrow> 'b outcome" where
  "outcome_bind m f = (case m of Panics \<Rightarrow> Panics | Returns a \<Rightarrow> f a)"

lemma outcome_bind_simps [simp]:
  "outcome_bind Panics f = Panics"
  "outcome_bind (Returns a) f = f a"
  by (simp_all add: outcome_bind_def)

lemma outcome_bind_Returns_iff:
  "outcome_bind m f = Returns b \<longleftrightarrow> (\<exists>a. m = Returns a \<and> f a = Returns b)"
  by (cases m) auto

definition result_bind :: "'e + 'a \<Rightarrow> ('a \<Rightarrow> 'e + 'b) \<Rightarrow> 'e + 'b" where
  "result_bind m f = (case m of Inl e \<Rightarrow> Inl e | Inr a \<Rightarrow> f a)"

lemma result_bind_simps [simp]:
  "result_bind (Inl e) f = Inl e"
  "result_bind (Inr a) f = f a"
  by (simp_all add: result_bind_def)

lemma result_bind_Inr_iff:
  "result_bind m f = Inr b \<longleftrightarrow> (\<exists>a. m = Inr a \<and> f a = Inr b)"
  by (cases m) auto

text \<open>\<open>if let Some(x) = opt { state = f(x, state) }\<close>\<close>

definition apply_opt :: "('a \<Rightarrow> 'b \<Rightarrow> 'b) \<Rightarrow> 'a option \<Rightarrow> 'b \<Rightarrow> 'b" where
  "apply_opt f x b = (case x of Some a \<Rightarrow> f a b | None \<Rightarrow> b)"

lemma apply_opt_simps [simp]: "apply_opt f (Some a) b = f a b" "apply_opt f None b = b"
  by (simp_all add: apply_opt_def)

definition map_err :: "('e \<Rightarrow> 'f) \<Rightarrow> 'e + 'a \<Rightarrow> 'f + 'a" where
  "map_err g m = (case m of Inl e \<Rightarrow> Inl (g e) | Inr a \<Rightarrow> Inr a)"

lemma map_err_simps [simp]:
  "map_err g (Inl e) = Inl (g e)"
  "map_err g (Inr a) = Inr a"
  by (simp_all add: map_err_def)

lemma map_err_Inr_iff [simp]: "map_err g m = Inr a \<longleftrightarrow> m = Inr a"
  by (cases m) simp_all

section \<open>Big-endian encodings\<close>

definition u16_to_be_bytes :: "u16 \<Rightarrow> bytes" where
  "u16_to_be_bytes w = [ucast (drop_bit 8 w), ucast w]"

definition u16_from_be_bytes :: "u8 \<Rightarrow> u8 \<Rightarrow> u16" where
  "u16_from_be_bytes a b = of_nat (unat a * 256 + unat b)"

definition u32_to_be_bytes :: "u32 \<Rightarrow> bytes" where
  "u32_to_be_bytes w =
     [ucast (drop_bit 24 w), ucast (drop_bit 16 w), ucast (drop_bit 8 w), ucast w]"

definition u32_from_be_bytes :: "u8 \<Rightarrow> u8 \<Rightarrow> u8 \<Rightarrow> u8 \<Rightarrow> u32" where
  "u32_from_be_bytes a b c d =
     of_nat (((unat a * 256 + unat b) * 256 + unat c) * 256 + unat d)"

lemma length_to_be_bytes [simp]:
  "length (u16_to_be_bytes w) = 2"
  "length (u32_to_be_bytes v) = 4"
  by (simp_all add: u16_to_be_bytes_def u32_to_be_bytes_def)

lemma u8_of_u16_unat:
  "unat (ucast (w :: u16) :: u8) = unat w mod 256"
  by (simp add: unsigned_ucast_eq take_bit_eq_mod)

lemma u8_of_u32_unat:
  "unat (ucast (w :: u32) :: u8) = unat w mod 256"
  by (simp add: unsigned_ucast_eq take_bit_eq_mod)

lemma unat_drop_bit_div:
  "unat (drop_bit n (w :: 'a::len word)) = unat w div 2 ^ n"
  by (subst unat_drop_bit_eq) (rule drop_bit_eq_div)

lemma u16_be_bytes_roundtrip [simp]:
  "u16_from_be_bytes (ucast (drop_bit 8 w)) (ucast w) = w"
proof -
  have "unat w < 65536"
    using unsigned_less [of w, where ?'a = nat] by simp
  then have "unat w div 256 mod 256 = unat w div 256"
    by simp
  then have "unat w div 256 mod 256 * 256 + unat w mod 256 = unat w"
    by simp
  then show ?thesis
    by (simp add: u16_from_be_bytes_def u8_of_u16_unat unat_drop_bit_div)
qed

lemma u32_be_bytes_roundtrip [simp]:
  "u32_from_be_bytes (ucast (drop_bit 24 w)) (ucast (drop_bit 16 w))
     (ucast (drop_bit 8 w)) (ucast w) = w"
proof -
  have "unat w < 4294967296"
    using unsigned_less [of w, where ?'a = nat] by simp
  then have top: "unat w div 16777216 mod 256 = unat w div 16777216"
    by simp
  have "unat w div 16777216 * 256 + unat w div 65536 mod 256 = unat w div 65536"
    using div_mult_mod_eq [of "unat w div 65536" 256] by (simp add: div_mult2_eq [symmetric])
  moreover have "unat w div 65536 * 256 + unat w div 256 mod 256 = unat w div 256"
    using div_mult_mod_eq [of "unat w div 256" 256] by (simp add: div_mult2_eq [symmetric])
  ultimately have "((unat w div 16777216 * 256 + unat w div 65536 mod 256) * 256 +
      unat w div 256 mod 256) * 256 + unat w mod 256 = unat w"
    by simp
  then have "((unat (ucast (drop_bit 24 w) :: u8) * 256 + unat (ucast (drop_bit 16 w) :: u8)) * 256 +
      unat (ucast (drop_bit 8 w) :: u8)) * 256 + unat (ucast w :: u8) = unat w"
    by (simp add: u8_of_u32_unat unat_drop_bit_div top)
  then show ?thesis
    by (simp only: u32_from_be_bytes_def of_nat_unat ucast_id)
qed

lemma unat_of_nat_u32: "n < 2 ^ 32 \<Longrightarrow> unat (of_nat n :: u32) = n"
  by (simp add: unat_of_nat)

lemma unat_of_nat_u16: "n < 2 ^ 16 \<Longrightarrow> unat (of_nat n :: u16) = n"
  by (simp add: unat_of_nat)

section \<open>Hash maps\<close>

type_synonym ('k, 'v) hashmap = "('k \<times> 'v) list"

definition hm_empty :: "('k, 'v) hashmap" where
  "hm_empty = []"

definition hm_get :: "('k, 'v) hashmap \<Rightarrow> 'k \<Rightarrow> 'v option" where
  "hm_get m k = map_of m k"

definition hm_remove :: "'k \<Rightarrow> ('k, 'v) hashmap \<Rightarrow> ('k, 'v) hashmap" where
  "hm_remove k m = filter (\<lambda>e. fst e \<noteq> k) m"

definition hm_insert :: "'k \<Rightarrow> 'v \<Rightarrow> ('k, 'v) hashmap \<Rightarrow> ('k, 'v) hashmap" where
  "hm_insert k v m = (k, v) # hm_remove k m"

definition hm_contains_key :: "('k, 'v) hashmap \<Rightarrow> 'k \<Rightarrow> bool" where
  "hm_contains_key m k \<longleftrightarrow> hm_get m k \<noteq> None"

definition hm_len :: "('k, 'v) hashmap \<Rightarrow> nat" where
  "hm_len m = length m"

definition hm_keys :: "('k, 'v) hashmap \<Rightarrow> 'k list" where
  "hm_keys m = map fst m"

definition hm_values :: "('k, 'v) hashmap \<Rightarrow> 'v list" where
  "hm_values m = map snd m"

definition hm_wf :: "('k, 'v) hashmap \<Rightarrow> bool" where
  "hm_wf m \<longleftrightarrow> distinct (map fst m)"

text \<open>\<open>collect()\<close> into a map: later pairs win.\<close>

definition hm_collect :: "('k \<times> 'v) list \<Rightarrow> ('k, 'v) hashmap" where
  "hm_collect kvs = fold (\<lambda>(k, v) m. hm_insert k v m) kvs hm_empty"

text \<open>
  The contract a component relies on when it keeps its state in a map: what a lookup returns after
  each operation, what the operations keep of well-formedness, and how the number of entries
  changes.
\<close>

locale map_store =
  fixes emp :: "'m"
    and get :: "'m \<Rightarrow> 'k \<Rightarrow> 'v option"
    and ins :: "'k \<Rightarrow> 'v \<Rightarrow> 'm \<Rightarrow> 'm"
    and rem :: "'k \<Rightarrow> 'm \<Rightarrow> 'm"
    and len :: "'m \<Rightarrow> nat"
    and wf :: "'m \<Rightarrow> bool"
  assumes get_emp: "get emp k = None"
    and get_ins: "get (ins k v m) k' = (if k' = k then Some v else get m k')"
    and get_rem: "get (rem k m) k' = (if k' = k then None else get m k')"
    and wf_emp: "wf emp"
    and wf_ins: "wf m \<Longrightarrow> wf (ins k v m)"
    and wf_rem: "wf m \<Longrightarrow> wf (rem k m)"
    and finite_dom: "finite (dom (get m))"
    and len_card: "wf m \<Longrightarrow> len m = card (dom (get m))"
begin

lemma dom_ins: "dom (get (ins k v m)) = insert k (dom (get m))"
  by (auto simp: get_ins dom_def)

lemma dom_rem: "dom (get (rem k m)) = dom (get m) - {k}"
  by (auto simp: get_rem dom_def)

lemma len_emp: "len emp = 0"
proof -
  have "dom (get emp) = {}"
    by (simp add: dom_def get_emp)
  then show ?thesis
    by (simp add: len_card wf_emp)
qed

lemma len_ins:
  assumes "wf m"
  shows "len (ins k v m) = (if get m k = None then Suc (len m) else len m)"
  using assms by (auto simp: len_card wf_ins dom_ins finite_dom insert_absorb domIff)

lemma len_rem:
  assumes "wf m"
  shows "len (rem k m) = (if get m k = None then len m else len m - 1)"
  using assms by (auto simp: len_card wf_rem dom_rem finite_dom card_Diff_singleton domIff)

lemma len_eq_0: "wf m \<Longrightarrow> len m = 0 \<longleftrightarrow> (\<forall>k. get m k = None)"
  using finite_dom [of m] by (auto simp: len_card card_eq_0_iff dom_def)

lemma len_pos: "wf m \<Longrightarrow> get m k = Some v \<Longrightarrow> 0 < len m"
  by (metis gr0I len_eq_0 option.distinct(1))

lemma get_fold_rem:
  "get (fold rem ks m) k = (if k \<in> set ks then None else get m k)"
  by (induction ks arbitrary: m) (auto simp: get_rem)

lemma wf_fold_rem: "wf m \<Longrightarrow> wf (fold rem ks m)"
  by (induction ks arbitrary: m) (auto simp: wf_rem)

lemma len_fold_rem:
  assumes "wf m" "distinct ks" "set ks \<subseteq> dom (get m)"
  shows "len (fold rem ks m) + length ks = len m"
proof -
  have "dom (get (fold rem ks m)) = dom (get m) - set ks"
    by (auto simp: dom_def get_fold_rem)
  then have "len (fold rem ks m) = len m - length ks"
    using assms by (simp add: len_card wf_fold_rem card_Diff_subset distinct_card)
  moreover have "length ks \<le> len m"
    using assms card_mono [OF finite_dom assms(3)] by (simp add: len_card distinct_card)
  ultimately show ?thesis
    by simp
qed

end

lemma map_of_filter_fst:
  "map_of (filter (\<lambda>e. fst e \<noteq> k) m) k' = (if k' = k then None else map_of m k')"
  by (induction m) auto

lemma hm_wf_remove: "hm_wf m \<Longrightarrow> hm_wf (hm_remove k m)"
  by (simp add: hm_wf_def hm_remove_def distinct_map_filter)

lemma hm_wf_insert: "hm_wf m \<Longrightarrow> hm_wf (hm_insert k v m)"
  by (auto simp: hm_wf_def hm_insert_def hm_remove_def distinct_map_filter)

interpretation hm: map_store hm_empty hm_get hm_insert hm_remove hm_len hm_wf
proof unfold_locales
  show "hm_get hm_empty k = None" for k :: 'k
    by (simp add: hm_get_def hm_empty_def)
  show "hm_get (hm_insert k v m) k' = (if k' = k then Some v else hm_get m k')"
    for k k' :: 'k and v :: 'v and m
    by (simp add: hm_get_def hm_insert_def hm_remove_def map_of_filter_fst)
  show "hm_get (hm_remove k m) k' = (if k' = k then None else hm_get m k')"
    for k k' :: 'k and m :: "('k, 'v) hashmap"
    by (simp add: hm_get_def hm_remove_def map_of_filter_fst)
  show "hm_wf hm_empty"
    by (simp add: hm_wf_def hm_empty_def)
  show "finite (dom (hm_get m))" for m :: "('k, 'v) hashmap"
    by (simp add: hm_get_def [abs_def] finite_dom_map_of)
  show "hm_len m = card (dom (hm_get m))" if "hm_wf m" for m :: "('k, 'v) hashmap"
    using that distinct_card [of "map fst m"]
    by (simp add: hm_get_def [abs_def] hm_len_def hm_wf_def dom_map_of_conv_image_fst)
qed (auto intro: hm_wf_insert hm_wf_remove)

lemma hm_get_empty [simp]: "hm_get hm_empty k = None"
  by (rule hm.get_emp)

lemma hm_get_insert [simp]: "hm_get (hm_insert k v m) k' = (if k' = k then Some v else hm_get m k')"
  by (rule hm.get_ins)

lemma hm_get_remove [simp]: "hm_get (hm_remove k m) k' = (if k' = k then None else hm_get m k')"
  by (rule hm.get_rem)

lemma hm_wf_empty [simp]: "hm_wf hm_empty"
  by (rule hm.wf_emp)

lemma hm_keys_iff: "k \<in> set (hm_keys m) \<longleftrightarrow> hm_get m k \<noteq> None"
  by (auto simp: hm_keys_def hm_get_def map_of_eq_None_iff)

lemma hm_in_set: "hm_wf m \<Longrightarrow> (k, v) \<in> set m \<longleftrightarrow> hm_get m k = Some v"
  by (simp add: hm_wf_def hm_get_def)

lemma hm_wf_fold_insert: "hm_wf m \<Longrightarrow> hm_wf (fold (\<lambda>(k, v) m. hm_insert k v m) kvs m)"
  by (induction kvs arbitrary: m) (auto simp: hm_wf_insert split: prod.split)

lemma hm_wf_collect [simp]: "hm_wf (hm_collect kvs)"
  by (simp add: hm_collect_def hm_wf_fold_insert)

lemma hm_get_fold_insert:
  "hm_get (fold (\<lambda>(k, v) m. hm_insert k v m) kvs m) k =
     (case map_of (rev kvs) k of Some v \<Rightarrow> Some v | None \<Rightarrow> hm_get m k)"
  by (induction kvs arbitrary: m) (auto simp: map_add_Some_iff map_add_def split: option.split)

lemma hm_get_collect: "hm_get (hm_collect kvs) k = map_of (rev kvs) k"
  by (simp add: hm_collect_def hm_get_fold_insert split: option.split)

lemma hm_contains_key_collect: "hm_contains_key (hm_collect kvs) k \<longleftrightarrow> k \<in> fst ` set kvs"
  by (simp add: hm_contains_key_def hm_get_collect map_of_eq_None_iff)

end
