(* ===== verification/Rust_Str.thy ===== *)
theory Rust_Str
  imports Rust_Prelude
begin

text \<open>
  The string functions of the standard library that the program calls. A \<open>str\<close> is its UTF-8 bytes,
  as a HOL \<open>string\<close>, whose characters are bytes; every pattern the program searches for is ASCII, so
  searching bytes and searching characters agree. The theory also has integer parsing
  (\<open>str::parse\<close> at an unsigned type) and printing (\<open>Display\<close>), with the round trip between them.
\<close>

section \<open>Bytes and characters\<close>

definition byte_of :: "char \<Rightarrow> u8" where
  "byte_of c = of_nat (of_char c)"

definition as_bytes :: "string \<Rightarrow> bytes" where
  "as_bytes s = map byte_of s"

definition of_bytes :: "bytes \<Rightarrow> string" where
  "of_bytes bs = map (\<lambda>b. char_of (unat b)) bs"

lemma byte_of_char_of [simp]: "byte_of (char_of (unat (b :: u8))) = b"
proof -
  have "unat b < 256"
    using unsigned_less [of b, where ?'a = nat] by simp
  then have "of_char (char_of (unat b) :: char) = unat b"
    by (simp only: of_char_of mod_less)
  then show ?thesis
    by (simp add: byte_of_def)
qed

lemma unat_byte_of [simp]: "unat (byte_of c) = of_char c"
proof -
  have "of_char c < (256 :: nat)"
    by (rule nat_of_char_less_256)
  then show ?thesis
    by (simp add: byte_of_def unat_of_nat)
qed

lemma as_bytes_of_bytes [simp]: "as_bytes (of_bytes bs) = bs"
  by (simp add: as_bytes_def of_bytes_def o_def)

lemma of_bytes_as_bytes [simp]: "of_bytes (as_bytes s) = s"
  by (induction s) (simp_all add: as_bytes_def of_bytes_def)

lemma length_as_bytes [simp]: "length (as_bytes s) = length s"
  by (simp add: as_bytes_def)

lemma length_of_bytes [simp]: "length (of_bytes bs) = length bs"
  by (simp add: of_bytes_def)

section \<open>Searching and splitting\<close>

definition starts_with :: "string \<Rightarrow> string \<Rightarrow> bool" where
  "starts_with s p \<longleftrightarrow> take (length p) s = p"

definition ends_with :: "string \<Rightarrow> string \<Rightarrow> bool" where
  "ends_with s p \<longleftrightarrow> length p \<le> length s \<and> drop (length s - length p) s = p"

definition strip_prefix :: "string \<Rightarrow> string \<Rightarrow> string option" where
  "strip_prefix s p = (if starts_with s p then Some (drop (length p) s) else None)"

fun str_contains :: "string \<Rightarrow> string \<Rightarrow> bool" where
  "str_contains [] p \<longleftrightarrow> p = []"
| "str_contains (c # s) p \<longleftrightarrow> starts_with (c # s) p \<or> str_contains s p"

fun str_find :: "string \<Rightarrow> char \<Rightarrow> nat option" where
  "str_find [] c = None"
| "str_find (x # s) c = (if x = c then Some 0 else map_option Suc (str_find s c))"

fun str_rfind :: "string \<Rightarrow> char \<Rightarrow> nat option" where
  "str_rfind [] c = None"
| "str_rfind (x # s) c =
     (case str_rfind s c of Some i \<Rightarrow> Some (Suc i) | None \<Rightarrow> if x = c then Some 0 else None)"

fun str_split :: "string \<Rightarrow> char \<Rightarrow> string list" where
  "str_split [] c = [[]]"
| "str_split (x # s) c =
     (if x = c then [] # str_split s c
      else case str_split s c of [] \<Rightarrow> [[x]] | p # ps \<Rightarrow> (x # p) # ps)"

fun str_splitn :: "nat \<Rightarrow> string \<Rightarrow> char \<Rightarrow> string list" where
  "str_splitn 0 s c = []"
| "str_splitn (Suc 0) s c = [s]"
| "str_splitn (Suc (Suc n)) s c =
     (case str_find s c of None \<Rightarrow> [s]
      | Some i \<Rightarrow> take i s # str_splitn (Suc n) (drop (Suc i) s) c)"

definition trim_start_matches :: "string \<Rightarrow> char \<Rightarrow> string" where
  "trim_start_matches s c = dropWhile (\<lambda>x. x = c) s"

definition trim_end_matches :: "string \<Rightarrow> char \<Rightarrow> string" where
  "trim_end_matches s c = rev (dropWhile (\<lambda>x. x = c) (rev s))"

definition to_lowercase :: "string \<Rightarrow> string" where
  "to_lowercase s = map (\<lambda>c. if 65 \<le> (of_char c :: nat) \<and> of_char c \<le> (90 :: nat)
     then char_of (of_char c + 32 :: nat) else c) s"

text \<open>
  \<open>to_lowercase\<close> maps the ASCII letters only. The real function also maps non-ASCII capitals, but the
  single one whose image is an ASCII string is the Kelvin sign, mapped to \<open>k\<close>; the program compares
  lower-cased strings with names that have no \<open>k\<close>, so the comparisons agree.
\<close>

lemma starts_with_iff: "starts_with s p \<longleftrightarrow> (\<exists>t. s = p @ t)"
  unfolding starts_with_def by (metis append_eq_conv_conj append_take_drop_id)

lemma ends_with_iff: "ends_with s p \<longleftrightarrow> (\<exists>t. s = t @ p)"
proof
  assume "ends_with s p"
  then have "s = take (length s - length p) s @ p"
    unfolding ends_with_def by (metis append_take_drop_id)
  then show "\<exists>t. s = t @ p" ..
qed (auto simp: ends_with_def)

lemma starts_with_append [simp]: "starts_with (p @ t) p"
  by (auto simp: starts_with_iff)

lemma strip_prefix_Some_iff: "strip_prefix s p = Some t \<longleftrightarrow> s = p @ t"
  by (auto simp: strip_prefix_def starts_with_iff)

lemma str_find_None_iff: "str_find s c = None \<longleftrightarrow> c \<notin> set s"
  by (induction s) auto

lemma str_find_Some_iff:
  "str_find s c = Some i \<longleftrightarrow> i < length s \<and> s ! i = c \<and> c \<notin> set (take i s)"
proof (induction s arbitrary: i)
  case (Cons x s)
  then show ?case
    by (cases i) auto
qed simp

lemma str_find_split:
  assumes "str_find s c = Some i"
  shows "s = take i s @ c # drop (Suc i) s"
  using assms by (metis id_take_nth_drop str_find_Some_iff)

lemma str_find_append: "c \<notin> set p \<Longrightarrow> str_find (p @ c # t) c = Some (length p)"
  by (induction p) auto

lemma str_rfind_None_iff: "str_rfind s c = None \<longleftrightarrow> c \<notin> set s"
  by (induction s) (auto split: option.splits)

lemma str_rfind_append: "c \<notin> set t \<Longrightarrow> str_rfind (p @ c # t) c = Some (length p)"
proof (induction p)
  case Nil
  then have "str_rfind t c = None"
    by (simp add: str_rfind_None_iff)
  then show ?case
    by simp
qed simp

lemma str_split_not_Nil [simp]: "str_split s c \<noteq> []"
  by (induction s) (auto split: list.splits)

lemma str_split_no_sep: "c \<notin> set s \<Longrightarrow> str_split s c = [s]"
  by (induction s) auto

lemma str_split_append:
  "c \<notin> set p \<Longrightarrow> str_split (p @ c # t) c = p # str_split t c"
  by (induction p) auto

lemma str_split_parts_no_sep: "q \<in> set (str_split s c) \<Longrightarrow> c \<notin> set q"
proof (induction s arbitrary: q)
  case (Cons x s)
  then show ?case
    by (cases "str_split s c") (auto split: if_splits)
qed simp

fun str_join :: "char \<Rightarrow> string list \<Rightarrow> string" where
  "str_join c [] = []"
| "str_join c [p] = p"
| "str_join c (p # q # ps) = p @ c # str_join c (q # ps)"

lemma str_join_Cons: "ps \<noteq> [] \<Longrightarrow> str_join c (p # ps) = p @ c # str_join c ps"
  by (cases ps) auto

lemma str_join_split: "str_join c (str_split s c) = s"
proof (induction s)
  case (Cons x s)
  show ?case
  proof (cases "str_split s c")
    case Nil
    then show ?thesis by simp
  next
    case (Cons p ps)
    then show ?thesis
      using Cons.IH by (cases ps) auto
  qed
qed simp

lemma str_split_join:
  assumes "ps \<noteq> []" "\<forall>p \<in> set ps. c \<notin> set p"
  shows "str_split (str_join c ps) c = ps"
  using assms
proof (induction c ps rule: str_join.induct)
  case (3 c p q ps)
  then show ?case
    by (simp add: str_split_append)
qed (simp_all add: str_split_no_sep)

section \<open>White space and lines\<close>

text \<open>
  \<open>str::trim\<close> removes the characters with the Unicode property White Space, here by their UTF-8
  bytes, from both ends.
\<close>

definition byte_val :: "char \<Rightarrow> nat" where
  "byte_val c = of_char c"

fun strip_ws1 :: "nat list \<Rightarrow> nat option" where
  "strip_ws1 (a # bs) =
     (if (9 \<le> a \<and> a \<le> 13) \<or> a = 32 then Some 1
      else case bs of [] \<Rightarrow> None
      | b # cs \<Rightarrow>
          if a = 194 \<and> (b = 133 \<or> b = 160) then Some 2
          else case cs of [] \<Rightarrow> None
          | c # _ \<Rightarrow>
              if (a = 225 \<and> b = 154 \<and> c = 128) \<or>
                 (a = 226 \<and> b = 128 \<and> (128 \<le> c \<and> c \<le> 138 \<or> c = 168 \<or> c = 169 \<or> c = 175)) \<or>
                 (a = 226 \<and> b = 129 \<and> c = 159) \<or> (a = 227 \<and> b = 128 \<and> c = 128)
              then Some 3 else None)"
| "strip_ws1 [] = None"

lemma strip_ws1_bounds: "strip_ws1 bs = Some n \<Longrightarrow> 0 < n \<and> n \<le> length bs"
  by (cases bs) (auto split: if_splits list.splits)

function trim_start :: "string \<Rightarrow> string" where
  "trim_start s = (case strip_ws1 (map byte_val (take 3 s)) of None \<Rightarrow> s | Some n \<Rightarrow> trim_start (drop n s))"
  by auto
termination
  by (relation "measure length") (auto dest!: strip_ws1_bounds)

declare trim_start.simps [simp del]

text \<open>From the end: the last character is white space if one of the last one, two or three bytes is
  its encoding.\<close>

definition strip_ws1_end :: "string \<Rightarrow> nat option" where
  "strip_ws1_end s =
     (if s \<noteq> [] \<and> strip_ws1 (map byte_val (drop (length s - 1) s)) = Some 1 then Some 1
      else if 2 \<le> length s \<and> strip_ws1 (map byte_val (drop (length s - 2) s)) = Some 2 then Some 2
      else if 3 \<le> length s \<and> strip_ws1 (map byte_val (drop (length s - 3) s)) = Some 3 then Some 3
      else None)"

lemma strip_ws1_end_bounds: "strip_ws1_end s = Some n \<Longrightarrow> 0 < n \<and> n \<le> length s"
  by (cases s) (auto simp: strip_ws1_end_def split: if_splits)

function trim_end :: "string \<Rightarrow> string" where
  "trim_end s = (case strip_ws1_end s of None \<Rightarrow> s | Some n \<Rightarrow> trim_end (take (length s - n) s))"
  by auto
termination
  by (relation "measure length") (auto dest!: strip_ws1_end_bounds)

declare trim_end.simps [simp del]

definition str_trim :: "string \<Rightarrow> string" where
  "str_trim s = trim_end (trim_start s)"

text \<open>\<open>str::lines\<close>: the pieces end at a line feed, a carriage return before it goes too, and there is
  no empty last line.\<close>

definition strip_cr :: "string \<Rightarrow> string" where
  "strip_cr s = (if s \<noteq> [] \<and> last s = CHR 13 then butlast s else s)"

definition str_lines :: "string \<Rightarrow> string list" where
  "str_lines s =
     (let ps = str_split s (CHR 10) in
      map strip_cr (butlast ps) @ (if last ps = [] then [] else [last ps]))"

section \<open>Unsigned integers as text\<close>

datatype parse_int_error = IntEmpty | InvalidDigit | PosOverflow

definition to_digit :: "nat \<Rightarrow> char \<Rightarrow> nat option" where
  "to_digit radix c =
     (let n = byte_val c;
          d = (if 48 \<le> n \<and> n \<le> 57 then n - 48
               else if 97 \<le> n \<and> n \<le> 122 then n - 87
               else if 65 \<le> n \<and> n \<le> 90 then n - 55
               else radix) in
      if d < radix then Some d else None)"

definition from_digit :: "nat \<Rightarrow> char" where
  "from_digit d = char_of (if d < 10 then d + 48 else d + 87)"

fun parse_digits :: "nat \<Rightarrow> nat \<Rightarrow> nat \<Rightarrow> string \<Rightarrow> parse_int_error + nat" where
  "parse_digits radix max_val acc [] = Ok acc"
| "parse_digits radix max_val acc (c # s) =
     (case to_digit radix c of None \<Rightarrow> Err InvalidDigit
      | Some d \<Rightarrow>
          if max_val < acc * radix + d then Err PosOverflow
          else parse_digits radix max_val (acc * radix + d) s)"

text \<open>\<open><uN as FromStr>::from_str\<close>, with \<open>max_val\<close> the largest value of the type.\<close>

definition parse_uint :: "nat \<Rightarrow> string \<Rightarrow> parse_int_error + nat" where
  "parse_uint max_val s =
     (case s of [] \<Rightarrow> Err IntEmpty
      | c # r \<Rightarrow>
          if c = CHR ''+'' then (if r = [] then Err InvalidDigit else parse_digits 10 max_val 0 r)
          else parse_digits 10 max_val 0 s)"

definition parse_u16 :: "string \<Rightarrow> parse_int_error + u16" where
  "parse_u16 s = (case parse_uint 65535 s of Err e \<Rightarrow> Err e | Ok n \<Rightarrow> Ok (of_nat n))"

definition parse_u32 :: "string \<Rightarrow> parse_int_error + u32" where
  "parse_u32 s = (case parse_uint 4294967295 s of Err e \<Rightarrow> Err e | Ok n \<Rightarrow> Ok (of_nat n))"

fun digits_rev :: "nat \<Rightarrow> nat \<Rightarrow> nat list" where
  "digits_rev radix n =
     (if radix < 2 \<or> n < radix then [n] else (n mod radix) # digits_rev radix (n div radix))"

declare digits_rev.simps [simp del]

definition show_nat_radix :: "nat \<Rightarrow> nat \<Rightarrow> string" where
  "show_nat_radix radix n = map from_digit (rev (digits_rev radix n))"

abbreviation show_nat :: "nat \<Rightarrow> string" where
  "show_nat \<equiv> show_nat_radix 10"

lemma digits_rev_bound: "2 \<le> radix \<Longrightarrow> d \<in> set (digits_rev radix n) \<Longrightarrow> d < radix"
proof (induction radix n rule: digits_rev.induct)
  case (1 radix n)
  then show ?case
    by (subst (asm) digits_rev.simps) (auto split: if_splits)
qed

lemma to_digit_from_digit: "d < radix \<Longrightarrow> radix \<le> 36 \<Longrightarrow> to_digit radix (from_digit d) = Some d"
  by (auto simp: to_digit_def from_digit_def byte_val_def)

lemma parse_digits_append:
  "parse_digits radix m acc (s @ t) =
     result_bind (parse_digits radix m acc s) (\<lambda>a. parse_digits radix m a t)"
  by (induction s arbitrary: acc) (auto split: option.split)

lemma parse_digits_show_gen:
  assumes "2 \<le> radix" "radix \<le> 36" "n \<le> m"
  shows "parse_digits radix m 0 (map from_digit (rev (digits_rev radix n))) = Ok n"
  using assms
proof (induction radix n rule: digits_rev.induct)
  case (1 radix n)
  show ?case
  proof (cases "n < radix")
    case True
    then show ?thesis
      using 1 by (simp add: digits_rev.simps [of radix n] to_digit_from_digit)
  next
    case False
    moreover have "n div radix \<le> m"
      using 1 by (meson div_le_dividend order_trans)
    moreover have "n div radix * radix + n mod radix = n"
      by (rule div_mult_mod_eq)
    ultimately show ?thesis
      using 1 by (simp add: digits_rev.simps [of radix n] parse_digits_append to_digit_from_digit)
  qed
qed

lemma digits_rev_not_Nil [simp]: "digits_rev radix n \<noteq> []"
  by (subst digits_rev.simps) simp

lemma from_digit_neq: "d < 10 \<Longrightarrow> c \<notin> from_digit ` {0..<10} \<Longrightarrow> from_digit d \<noteq> c"
  by auto

lemma set_show_nat: "set (show_nat n) \<subseteq> set ''0123456789''"
proof
  fix c assume "c \<in> set (show_nat n)"
  then obtain d where d: "d < 10" "c = from_digit d"
    using digits_rev_bound [of 10 _ n] by (auto simp: show_nat_radix_def)
  have "\<forall>d \<in> set [0..<10]. from_digit d \<in> set ''0123456789''"
    by code_simp
  then show "c \<in> set ''0123456789''"
    using d by (metis atLeastLessThan_iff set_upt zero_le)
qed

lemma show_nat_not_Nil [simp]: "show_nat n \<noteq> []"
  by (simp add: show_nat_radix_def)

lemma show_nat_no_char: "c \<notin> set ''0123456789'' \<Longrightarrow> c \<notin> set (show_nat n)"
  using set_show_nat [of n] by blast

lemma parse_uint_show_nat: "n \<le> m \<Longrightarrow> parse_uint m (show_nat n) = Ok n"
proof -
  assume "n \<le> m"
  then have "parse_digits 10 m 0 (show_nat n) = Ok n"
    by (simp add: show_nat_radix_def parse_digits_show_gen)
  moreover have "CHR ''+'' \<notin> set (show_nat n)"
    by (rule show_nat_no_char) simp
  ultimately show ?thesis
    by (cases "show_nat n") (auto simp: parse_uint_def)
qed

lemma parse_u16_show: "parse_u16 (show_nat (unat p)) = Ok p"
proof -
  have "unat p \<le> 65535"
    using unsigned_less [of p, where ?'a = nat] by simp
  then show ?thesis
    by (simp add: parse_u16_def parse_uint_show_nat)
qed

lemma parse_u32_show: "parse_u32 (show_nat (unat p)) = Ok p"
proof -
  have "unat p \<le> 4294967295"
    using unsigned_less [of p, where ?'a = nat] by simp
  then show ?thesis
    by (simp add: parse_u32_def parse_uint_show_nat)
qed

lemma parse_digits_le: "parse_digits radix m acc s = Ok n \<Longrightarrow> acc \<le> m \<Longrightarrow> n \<le> m"
  by (induction s arbitrary: acc) (auto split: option.splits if_splits)

lemma parse_uint_le: "parse_uint m s = Ok n \<Longrightarrow> n \<le> m"
  by (auto simp: parse_uint_def simp del: parse_digits.simps dest: parse_digits_le
      split: list.splits if_splits)

end
