(* ===== verification/Call_Envelope.thy ===== *)
theory Call_Envelope
  imports Rust_Str
begin

text \<open>
  \<open>call/envelope.rs\<close>, \<open>call/events.rs\<close> and \<open>call/response.rs\<close>: the messages of the call protocol.
  \<open>json\<close> is \<open>serde_json::Value\<close> with its three kinds of numbers; an object is the list of its entries.
\<close>

datatype json_number = PosInt u64 | NegInt u64 | Float u64

datatype json =
  JNull
| JBool bool
| JNumber json_number
| JString string
| JArray "json list"
| JObject "(string \<times> json) list"

fun as_str :: "json \<Rightarrow> string option" where
  "as_str (JString s) = Some s"
| "as_str _ = None"

fun json_get :: "json \<Rightarrow> string \<Rightarrow> json option" where
  "json_get (JObject kvs) k = map_of kvs k"
| "json_get _ k = None"

section \<open>Events\<close>

definition CALL_REQUESTED :: string where "CALL_REQUESTED = ''call.requested''"
definition CALL_RESPONDED :: string where "CALL_RESPONDED = ''call.responded''"
definition CALL_COMPLETED :: string where "CALL_COMPLETED = ''call.completed''"
definition CALL_ABORTED :: string where "CALL_ABORTED = ''call.aborted''"
definition CALL_ERROR :: string where "CALL_ERROR = ''call.error''"
definition SERVICE_LIST :: string where "SERVICE_LIST = ''/services/list''"
definition SERVICE_SCHEMA :: string where "SERVICE_SCHEMA = ''/services/schema''"

section \<open>Envelopes\<close>

record event_envelope =
  env_type :: string
  env_id :: string
  payload :: json

definition event_envelope_new :: "string \<Rightarrow> string \<Rightarrow> json \<Rightarrow> event_envelope" where
  "event_envelope_new event_type i p = \<lparr>env_type = event_type, env_id = i, payload = p\<rparr>"

definition call_requested :: "string \<Rightarrow> json \<Rightarrow> event_envelope" where
  "call_requested i p = event_envelope_new CALL_REQUESTED i p"

definition call_responded :: "string \<Rightarrow> json \<Rightarrow> event_envelope" where
  "call_responded i p = event_envelope_new CALL_RESPONDED i p"

definition call_completed :: "string \<Rightarrow> json \<Rightarrow> event_envelope" where
  "call_completed i p = event_envelope_new CALL_COMPLETED i p"

definition call_aborted :: "string \<Rightarrow> json \<Rightarrow> event_envelope" where
  "call_aborted i p = event_envelope_new CALL_ABORTED i p"

definition call_error_event :: "string \<Rightarrow> string \<Rightarrow> string \<Rightarrow> bool \<Rightarrow> event_envelope" where
  "call_error_event i code message retryable =
     event_envelope_new CALL_ERROR i
       (JObject [(''code'', JString code), (''message'', JString message),
                 (''retryable'', JBool retryable)])"

section \<open>Responses\<close>

record call_error =
  err_code :: string
  err_message :: string
  err_retryable :: bool

record response_envelope =
  resp_request_id :: string
  resp_result :: "call_error + json"

definition call_error_new :: "string \<Rightarrow> string \<Rightarrow> bool \<Rightarrow> call_error" where
  "call_error_new code message retryable =
     \<lparr>err_code = code, err_message = message, err_retryable = retryable\<rparr>"

definition response_ok :: "string \<Rightarrow> json \<Rightarrow> response_envelope" where
  "response_ok i v = \<lparr>resp_request_id = i, resp_result = Ok v\<rparr>"

definition response_err :: "string \<Rightarrow> string \<Rightarrow> string \<Rightarrow> bool \<Rightarrow> response_envelope" where
  "response_err i code message retryable =
     \<lparr>resp_request_id = i, resp_result = Err (call_error_new code message retryable)\<rparr>"

end
