(* ===== verification/Call_Pending.thy ===== *)
theory Call_Pending
  imports Call_Envelope
begin

text \<open>
  \<open>call/pending.rs\<close>: requests that wait for their answers. The channels to the waiting tasks are
  those of \<open>tokio\<close>: a sender is a value \<open>'tx\<close>, an operation that uses one returns what it sent, and
  \<open>try_send_ok\<close> says whether a bounded channel takes another value now. \<open>Instant\<close> is a natural number.
\<close>

datatype 'tx pending_entry =
  Call (entry_tx: 'tx) (call_timeout: nat)
| Subscribe (entry_tx: 'tx) (subscribe_timeout: "nat option")

record 'tx pending_request_map =
  pending :: "(string, 'tx pending_entry) hashmap"

type_synonym call_result = "call_error + json"

definition pending_new :: "'tx pending_request_map" where
  "pending_new = \<lparr>pending = hm_empty\<rparr>"

definition insert_call :: "string \<Rightarrow> 'tx \<Rightarrow> nat \<Rightarrow> 'tx pending_request_map \<Rightarrow> 'tx pending_request_map" where
  "insert_call i t timeout m = m\<lparr>pending := hm_insert i (Call t timeout) (pending m)\<rparr>"

definition insert_subscribe ::
  "string \<Rightarrow> 'tx \<Rightarrow> nat option \<Rightarrow> 'tx pending_request_map \<Rightarrow> 'tx pending_request_map" where
  "insert_subscribe i t timeout m = m\<lparr>pending := hm_insert i (Subscribe t timeout) (pending m)\<rparr>"

text \<open>\<open>HashMap::remove\<close> in the condition removes the entry whatever its kind.\<close>

definition resolve_call ::
  "string \<Rightarrow> call_result \<Rightarrow> 'tx pending_request_map \<Rightarrow>
   bool \<times> ('tx \<times> call_result) list \<times> 'tx pending_request_map" where
  "resolve_call i v m =
     (let m' = m\<lparr>pending := hm_remove i (pending m)\<rparr> in
      case hm_get (pending m) i of
        Some (Call t _) \<Rightarrow> (True, [(t, v)], m')
      | _ \<Rightarrow> (False, [], m'))"

definition push_subscribe ::
  "('tx \<Rightarrow> bool) \<Rightarrow> string \<Rightarrow> call_result \<Rightarrow> 'tx pending_request_map \<Rightarrow>
   bool \<times> ('tx \<times> call_result) list \<times> 'tx pending_request_map" where
  "push_subscribe try_send_ok i v m =
     (case hm_get (pending m) i of
        Some (Subscribe t _) \<Rightarrow> if try_send_ok t then (True, [(t, v)], m) else (False, [], m)
      | _ \<Rightarrow> (False, [], m))"

definition complete_subscribe :: "string \<Rightarrow> 'tx pending_request_map \<Rightarrow> bool \<times> 'tx pending_request_map" where
  "complete_subscribe i m =
     (hm_get (pending m) i \<noteq> None, m\<lparr>pending := hm_remove i (pending m)\<rparr>)"

definition abort_request :: "string \<Rightarrow> 'tx pending_request_map \<Rightarrow> bool \<times> 'tx pending_request_map" where
  "abort_request i m =
     (hm_get (pending m) i \<noteq> None, m\<lparr>pending := hm_remove i (pending m)\<rparr>)"

definition pending_contains :: "'tx pending_request_map \<Rightarrow> string \<Rightarrow> bool" where
  "pending_contains m i \<longleftrightarrow> hm_contains_key (pending m) i"

definition pending_len :: "'tx pending_request_map \<Rightarrow> nat" where
  "pending_len m = hm_len (pending m)"

fun entry_expired :: "nat \<Rightarrow> 'tx pending_entry \<Rightarrow> bool" where
  "entry_expired now (Call _ timeout) \<longleftrightarrow> timeout \<le> now"
| "entry_expired now (Subscribe _ timeout) \<longleftrightarrow> (case timeout of Some t \<Rightarrow> t \<le> now | None \<Rightarrow> False)"

definition sweep_expired :: "nat \<Rightarrow> 'tx pending_request_map \<Rightarrow> nat \<times> 'tx pending_request_map" where
  "sweep_expired now m =
     (let expired = map fst (filter (\<lambda>(_, e). entry_expired now e) (pending m)) in
      (length expired, m\<lparr>pending := fold hm_remove expired (pending m)\<rparr>))"

definition pending_wf :: "'tx pending_request_map \<Rightarrow> bool" where
  "pending_wf m \<longleftrightarrow> hm_wf (pending m)"

section \<open>Well-formedness\<close>

lemma pending_wf_new: "pending_wf pending_new"
  by (simp add: pending_wf_def pending_new_def)

lemma pending_wf_ops:
  assumes "pending_wf m"
  shows "pending_wf (insert_call i t n m)" "pending_wf (insert_subscribe i t to m)"
    "pending_wf (snd (snd (resolve_call i v m)))" "pending_wf (snd (snd (push_subscribe ok i v m)))"
    "pending_wf (snd (complete_subscribe i m))" "pending_wf (snd (abort_request i m))"
    "pending_wf (snd (sweep_expired now m))"
  using assms
  by (auto simp: pending_wf_def insert_call_def insert_subscribe_def resolve_call_def
      push_subscribe_def complete_subscribe_def abort_request_def sweep_expired_def Let_def
      hm_wf_insert hm_wf_remove hm.wf_fold_rem split: option.splits pending_entry.splits)

section \<open>Sweeping\<close>

lemma expired_keys:
  assumes "hm_wf (h :: (string, 'tx pending_entry) hashmap)"
  shows "k \<in> set (map fst (filter (\<lambda>(_, e). entry_expired now e) h)) \<longleftrightarrow>
    (\<exists>e. hm_get h k = Some e \<and> entry_expired now e)"
  using assms by (auto simp: image_iff hm_in_set [symmetric] split: prod.split)

lemma distinct_expired:
  "hm_wf h \<Longrightarrow> distinct (map fst (filter (\<lambda>(_, e). entry_expired now e) h))"
  by (simp add: hm_wf_def distinct_map_filter)

lemma sweep_get:
  assumes "pending_wf m"
  shows "hm_get (pending (snd (sweep_expired now m))) i =
    (case hm_get (pending m) i of Some e \<Rightarrow> if entry_expired now e then None else Some e | None \<Rightarrow> None)"
  using assms expired_keys [of "pending m" i now]
  by (auto simp: sweep_expired_def Let_def pending_wf_def hm.get_fold_rem split: option.split)

lemma sweep_count:
  assumes "pending_wf m"
  shows "fst (sweep_expired now m) + pending_len (snd (sweep_expired now m)) = pending_len m"
proof -
  let ?ks = "map fst (filter (\<lambda>(_, e). entry_expired now e) (pending m))"
  have "set ?ks \<subseteq> dom (hm_get (pending m))"
    using assms expired_keys [of "pending m" _ now] by (auto simp: pending_wf_def simp del: set_map)
  then have "hm_len (fold hm_remove ?ks (pending m)) + length ?ks = hm_len (pending m)"
    using assms by (intro hm.len_fold_rem) (auto simp: pending_wf_def intro: distinct_expired)
  then show ?thesis
    by (simp add: sweep_expired_def pending_len_def Let_def)
qed

section \<open>Properties\<close>

text \<open>A call is answered once: after a call was registered, the first resolution of its id delivers
  the value to its sender and reports success, a second one delivers nothing and reports failure, and
  no other request is touched.\<close>

theorem call_resolves_exactly_once:
  "\<exists>m1. resolve_call i v (insert_call i t timeout m) = (True, [(t, v)], m1) \<and>
     (\<exists>m2. resolve_call i w m1 = (False, [], m2)) \<and> \<not> pending_contains m1 i \<and>
     (\<forall>j. j = i \<or> hm_get (pending m1) j = hm_get (pending m) j)"
  by (simp add: resolve_call_def insert_call_def pending_contains_def hm_contains_key_def Let_def)

text \<open>Sweeping removes exactly the expired requests: afterwards a request is pending if it was and
  its deadline, if it has one, is still ahead, unchanged, and the number reported is the number of
  requests that disappeared.\<close>

theorem sweep_removes_exactly_expired:
  assumes "pending_wf m" "sweep_expired now m = (n, m')"
  shows "hm_get (pending m') i =
      (case hm_get (pending m) i of Some e \<Rightarrow> if entry_expired now e then None else Some e | None \<Rightarrow> None) \<and>
    n + pending_len m' = pending_len m \<and> pending_wf m'"
  using sweep_get [OF assms(1), of now i] sweep_count [OF assms(1), of now] pending_wf_ops(7) [OF assms(1), of now]
    assms(2) by simp

theorem sweep_removes_exactly_expired_witness:
  "hm_get (pending \<lparr>pending = [(''b'', Subscribe (2 :: nat) None)]\<rparr>) ''a'' = None"
proof -
  have "pending_wf \<lparr>pending = [(''a'', Call (1 :: nat) 5), (''b'', Subscribe 2 None)]\<rparr>"
    by (simp add: pending_wf_def hm_wf_def)
  moreover have "sweep_expired 7 \<lparr>pending = [(''a'', Call (1 :: nat) 5), (''b'', Subscribe 2 None)]\<rparr> =
      (1, \<lparr>pending = [(''b'', Subscribe 2 None)]\<rparr>)"
    by code_simp
  ultimately have "hm_get (pending \<lparr>pending = [(''b'', Subscribe (2 :: nat) None)]\<rparr>) ''a'' =
      (case hm_get (pending \<lparr>pending = [(''a'', Call (1 :: nat) 5), (''b'', Subscribe 2 None)]\<rparr>) ''a'' of
         Some e \<Rightarrow> if entry_expired 7 e then None else Some e | None \<Rightarrow> None)"
    using sweep_removes_exactly_expired by blast
  then show ?thesis
    by (simp add: hm_get_def)
qed

text \<open>A response to a subscription destroys it: resolving the id of a subscription as a call reports
  failure and delivers nothing, and yet removes the subscription, so that later values for it are
  refused.\<close>

theorem resolve_call_drops_subscription:
  assumes "hm_get (pending m) i = Some (Subscribe t timeout)"
  shows "\<exists>m'. resolve_call i v m = (False, [], m') \<and> \<not> pending_contains m' i \<and>
    push_subscribe ok i w m' = (False, [], m')"
  using assms
  by (simp add: resolve_call_def push_subscribe_def pending_contains_def hm_contains_key_def Let_def)

theorem resolve_call_drops_subscription_witness:
  "\<exists>m'. resolve_call ''s'' (Ok JNull) (insert_subscribe ''s'' (1 :: nat) None pending_new) = (False, [], m') \<and>
     \<not> pending_contains m' ''s'' \<and> push_subscribe (\<lambda>_. True) ''s'' (Ok JNull) m' = (False, [], m')"
  by (rule resolve_call_drops_subscription [where t = 1 and timeout = None])
     (simp add: insert_subscribe_def)

end
