(* ===== verification/Rust_Io.thy ===== *)
theory Rust_Io
  imports Rust_Str
begin

text \<open>
  Byte streams as the program sees them through \<open>tokio::io\<close>. What the peer does is a script: the list
  of events that successive reads meet and the list of outcomes that successive writes meet. A read
  of an empty chunk, or past the end of the script, is the end of the stream. The script is an
  argument of the theorems, so they hold for every way the peer can split, delay or cut its data.
\<close>

datatype io_error_kind =
  UnexpectedEof | InvalidData | ConnectionRefused | ConnectionReset | TimedOut | PermissionDenied
| NotConnected | AddrInUse | AddrNotAvailable | HostUnreachable | NetworkUnreachable | OtherKind

datatype io_error = IoError (io_kind: io_error_kind) (io_message: string)

datatype read_event = Chunk bytes | ReadErr io_error

record stream =
  rx :: "read_event list"
  tx :: bytes
  wr :: "(nat \<times> io_error) option list"
  shut :: bool

definition unexpected_eof :: io_error where
  "unexpected_eof = IoError UnexpectedEof ''early eof''"

section \<open>Reading\<close>

text \<open>\<open>read\<close> into a buffer of \<open>n\<close> bytes: at most \<open>n\<close> bytes of the next chunk.\<close>

fun read_some :: "nat \<Rightarrow> read_event list \<Rightarrow> (io_error + bytes) \<times> read_event list" where
  "read_some n [] = (Ok [], [])"
| "read_some n (ReadErr e # evs) = (Err e, evs)"
| "read_some n (Chunk bs # evs) =
     (Ok (take n bs), if length bs \<le> n then evs else Chunk (drop n bs) # evs)"

text \<open>\<open>read_exact\<close>: loops until the buffer is full; the end of the stream before that is an error.\<close>

fun read_exact :: "nat \<Rightarrow> read_event list \<Rightarrow> (io_error + bytes) \<times> read_event list" where
  "read_exact n [] = (if n = 0 then (Ok [], []) else (Err unexpected_eof, []))"
| "read_exact n (ReadErr e # evs) = (if n = 0 then (Ok [], ReadErr e # evs) else (Err e, evs))"
| "read_exact n (Chunk bs # evs) =
     (if n = 0 then (Ok [], Chunk bs # evs)
      else if bs = [] then (Err unexpected_eof, evs)
      else if n < length bs then (Ok (take n bs), Chunk (drop n bs) # evs)
      else case read_exact (n - length bs) evs of
             (Ok r, evs') \<Rightarrow> (Ok (bs @ r), evs')
           | (Err e, evs') \<Rightarrow> (Err e, evs'))"

fun chunk_bytes :: "read_event list \<Rightarrow> bytes" where
  "chunk_bytes [] = []"
| "chunk_bytes (Chunk bs # evs) = bs @ chunk_bytes evs"
| "chunk_bytes (ReadErr e # evs) = []"

definition all_chunks :: "read_event list \<Rightarrow> bool" where
  "all_chunks evs \<longleftrightarrow> list_all (\<lambda>ev. case ev of Chunk bs \<Rightarrow> bs \<noteq> [] | ReadErr _ \<Rightarrow> False) evs"

definition script_size :: "read_event list \<Rightarrow> nat" where
  "script_size evs = sum_list (map (\<lambda>ev. case ev of Chunk bs \<Rightarrow> Suc (length bs) | ReadErr _ \<Rightarrow> 1) evs)"

lemma script_size_simps [simp]:
  "script_size [] = 0"
  "script_size (Chunk bs # evs) = Suc (length bs) + script_size evs"
  "script_size (ReadErr e # evs) = Suc (script_size evs)"
  by (simp_all add: script_size_def)

lemma all_chunks_simps [simp]:
  "all_chunks []"
  "all_chunks (Chunk bs # evs) \<longleftrightarrow> bs \<noteq> [] \<and> all_chunks evs"
  "\<not> all_chunks (ReadErr e # evs)"
  by (simp_all add: all_chunks_def)

lemma read_some_script_size:
  "read_some n evs = (Ok bs, evs') \<Longrightarrow> 0 < n \<Longrightarrow> bs \<noteq> [] \<Longrightarrow> script_size evs' < script_size evs"
  by (cases "(n, evs)" rule: read_some.cases) (auto split: if_splits)

lemma read_some_all_chunks:
  assumes "all_chunks evs" "evs \<noteq> []" "0 < n"
  shows "\<exists>bs evs'. read_some n evs = (Ok bs, evs') \<and> bs \<noteq> [] \<and> all_chunks evs' \<and>
    chunk_bytes evs = bs @ chunk_bytes evs'"
  using assms by (cases "(n, evs)" rule: read_some.cases) auto

text \<open>Data that arrives before any error is read exactly as sent, whatever its chunks.\<close>

lemma read_exact_all_chunks:
  assumes "all_chunks evs" "n \<le> length (chunk_bytes evs)"
  shows "\<exists>evs'. read_exact n evs = (Ok (take n (chunk_bytes evs)), evs') \<and> all_chunks evs' \<and>
    chunk_bytes evs' = drop n (chunk_bytes evs)"
  using assms
proof (induction n evs rule: read_exact.induct)
  case (3 n bs evs)
  consider "n = 0" | "0 < n" "n < length bs" | "0 < n" "length bs \<le> n"
    by linarith
  then show ?case
  proof cases
    case 3
    then obtain evs' where "read_exact (n - length bs) evs =
        (Ok (take (n - length bs) (chunk_bytes evs)), evs')" "all_chunks evs'"
      "chunk_bytes evs' = drop (n - length bs) (chunk_bytes evs)"
      using "3.IH" "3.prems" by fastforce
    then show ?thesis
      using 3 "3.prems" by auto
  qed (use "3.prems" in auto)
qed auto

text \<open>Too little data before the end of the stream is an error.\<close>

lemma read_exact_eof:
  assumes "all_chunks evs" "length (chunk_bytes evs) < n"
  shows "read_exact n evs = (Err unexpected_eof, [])"
  using assms by (induction n evs rule: read_exact.induct) auto

lemma read_exact_length:
  "read_exact n evs = (Ok bs, evs') \<Longrightarrow> length bs = n"
proof (induction n evs arbitrary: bs evs' rule: read_exact.induct)
  case (3 n c evs)
  show ?case
  proof (cases "n = 0 \<or> c = [] \<or> n < length c")
    case False
    then obtain r where "read_exact (n - length c) evs = (Ok r, evs')" "bs = c @ r"
      using "3.prems" by (auto split: prod.splits sum.splits)
    with False "3.IH" show ?thesis
      by fastforce
  qed (use "3.prems" in \<open>auto split: if_splits\<close>)
qed (auto split: if_splits)

section \<open>Stream operations\<close>

definition st_read :: "nat \<Rightarrow> stream \<Rightarrow> (io_error + bytes) \<times> stream" where
  "st_read n s = (let (r, evs) = read_some n (rx s) in (r, s\<lparr>rx := evs\<rparr>))"

definition st_read_exact :: "nat \<Rightarrow> stream \<Rightarrow> (io_error + bytes) \<times> stream" where
  "st_read_exact n s = (let (r, evs) = read_exact n (rx s) in (r, s\<lparr>rx := evs\<rparr>))"

definition st_read_u8 :: "stream \<Rightarrow> (io_error + u8) \<times> stream" where
  "st_read_u8 s = (case st_read_exact 1 s of (Ok bs, s') \<Rightarrow> (Ok (bs ! 0), s') | (Err e, s') \<Rightarrow> (Err e, s'))"

definition st_read_u16 :: "stream \<Rightarrow> (io_error + u16) \<times> stream" where
  "st_read_u16 s =
     (case st_read_exact 2 s of
        (Ok bs, s') \<Rightarrow> (Ok (u16_from_be_bytes (bs ! 0) (bs ! 1)), s')
      | (Err e, s') \<Rightarrow> (Err e, s'))"

text \<open>\<open>write_all\<close>: the next outcome of the script, by default success; a failing write may have sent a
  part of the data.\<close>

definition st_write_all :: "bytes \<Rightarrow> stream \<Rightarrow> (io_error + unit) \<times> stream" where
  "st_write_all bs s =
     (case wr s of
        [] \<Rightarrow> (Ok (), s\<lparr>tx := tx s @ bs\<rparr>)
      | None # os \<Rightarrow> (Ok (), s\<lparr>tx := tx s @ bs, wr := os\<rparr>)
      | Some (k, e) # os \<Rightarrow> (Err e, s\<lparr>tx := tx s @ take k bs, wr := os\<rparr>))"

text \<open>\<open>flush\<close> and \<open>shutdown\<close> meet an outcome of the same script; \<open>st_shutdown\<close> is a shutdown whose outcome is
  ignored.\<close>

definition st_flush :: "stream \<Rightarrow> (io_error + unit) \<times> stream" where
  "st_flush s = st_write_all [] s"

definition st_shutdown :: "stream \<Rightarrow> stream" where
  "st_shutdown s = s\<lparr>shut := True\<rparr>"

definition st_close :: "stream \<Rightarrow> (io_error + unit) \<times> stream" where
  "st_close s = apsnd st_shutdown (st_flush s)"

text \<open>Sequencing of stream operations that stops at the first error, as the operator \<open>?\<close> does.\<close>

definition io_bind ::
  "('s \<Rightarrow> ('e + 'a) \<times> 's) \<Rightarrow> ('a \<Rightarrow> 's \<Rightarrow> ('e + 'b) \<times> 's) \<Rightarrow> 's \<Rightarrow> ('e + 'b) \<times> 's" where
  "io_bind m f s = (case m s of (Err e, s') \<Rightarrow> (Err e, s') | (Ok a, s') \<Rightarrow> f a s')"

definition io_return :: "'a \<Rightarrow> 's \<Rightarrow> ('e + 'a) \<times> 's" where
  "io_return a s = (Ok a, s)"

definition io_fail :: "'e \<Rightarrow> 's \<Rightarrow> ('e + 'a) \<times> 's" where
  "io_fail e s = (Err e, s)"

definition io_map_err :: "('e \<Rightarrow> 'f) \<Rightarrow> ('s \<Rightarrow> ('e + 'a) \<times> 's) \<Rightarrow> 's \<Rightarrow> ('f + 'a) \<times> 's" where
  "io_map_err g m s = (case m s of (Err e, s') \<Rightarrow> (Err (g e), s') | (Ok a, s') \<Rightarrow> (Ok a, s'))"

lemma io_bind_Ok_iff:
  "io_bind m f s = (Ok b, s') \<longleftrightarrow> (\<exists>a s1. m s = (Ok a, s1) \<and> f a s1 = (Ok b, s'))"
  by (auto simp: io_bind_def split: prod.splits sum.splits)

lemma io_simps [simp]:
  "m s = (Ok a, s1) \<Longrightarrow> io_bind m f s = f a s1"
  "m s = (Err e, s1) \<Longrightarrow> io_bind m f s = (Err e, s1)"
  "io_return b s = (Ok b, s)"
  "io_fail e' s = (Err e', s)"
  by (simp_all add: io_bind_def io_return_def io_fail_def)

lemma st_write_all_ok [simp]:
  "wr s = [] \<Longrightarrow> st_write_all bs s = (Ok (), s\<lparr>tx := tx s @ bs\<rparr>)"
  by (simp add: st_write_all_def)

lemma st_flush_ok [simp]: "wr s = [] \<Longrightarrow> st_flush s = (Ok (), s)"
  by (simp add: st_flush_def)

lemma st_close_ok [simp]: "wr s = [] \<Longrightarrow> st_close s = (Ok (), s\<lparr>shut := True\<rparr>)"
  by (simp add: st_close_def st_shutdown_def)

definition st_write_flush :: "bytes \<Rightarrow> stream \<Rightarrow> (io_error + unit) \<times> stream" where
  "st_write_flush bs = io_bind (st_write_all bs) (\<lambda>_. st_flush)"

lemma st_write_flush_ok [simp]:
  "wr s = [] \<Longrightarrow> st_write_flush bs s = (Ok (), s\<lparr>tx := tx s @ bs\<rparr>)"
  by (simp add: st_write_flush_def)

text \<open>
  \<open>feeds s bs\<close>: the stream delivers the bytes \<open>bs\<close>, in chunks of any sizes, and then ends. Exact reads
  of such a stream depend on the bytes only.
\<close>

definition feeds :: "stream \<Rightarrow> bytes \<Rightarrow> bool" where
  "feeds s bs \<longleftrightarrow> all_chunks (rx s) \<and> chunk_bytes (rx s) = bs"

lemma feeds_tx_wr [simp]:
  "feeds (s\<lparr>tx := t\<rparr>) bs \<longleftrightarrow> feeds s bs"
  "feeds (s\<lparr>shut := b\<rparr>) bs \<longleftrightarrow> feeds s bs"
  by (simp_all add: feeds_def)

lemma stream_tx_rx: "s\<lparr>tx := t, rx := e\<rparr> = s\<lparr>rx := e, tx := t\<rparr>"
  by simp

lemma st_read_exact_feeds:
  assumes "feeds s (bs @ r)"
  shows "\<exists>evs. st_read_exact (length bs) s = (Ok bs, s\<lparr>rx := evs\<rparr>) \<and> feeds (s\<lparr>rx := evs\<rparr>) r"
proof -
  obtain evs where "read_exact (length bs) (rx s) = (Ok bs, evs)" "all_chunks evs" "chunk_bytes evs = r"
    using read_exact_all_chunks [of "rx s" "length bs"] assms by (auto simp: feeds_def)
  then show ?thesis
    by (auto simp: st_read_exact_def feeds_def)
qed

lemma st_read_u8_feeds:
  assumes "feeds s (b # r)"
  shows "\<exists>evs. st_read_u8 s = (Ok b, s\<lparr>rx := evs\<rparr>) \<and> feeds (s\<lparr>rx := evs\<rparr>) r"
  using st_read_exact_feeds [of s "[b]" r] assms by (auto simp: st_read_u8_def)

lemma st_read_u16_feeds:
  assumes "feeds s (u16_to_be_bytes p @ r)"
  shows "\<exists>evs. st_read_u16 s = (Ok p, s\<lparr>rx := evs\<rparr>) \<and> feeds (s\<lparr>rx := evs\<rparr>) r"
  using st_read_exact_feeds [of s "u16_to_be_bytes p" r] assms
  by (auto simp: st_read_u16_def u16_to_be_bytes_def numeral_2_eq_2)

text \<open>Exact reads change nothing but the position in the script.\<close>

lemma st_read_exact_frame:
  "st_read_exact n s = (r, s') \<Longrightarrow> tx s' = tx s \<and> wr s' = wr s \<and> shut s' = shut s"
  by (auto simp: st_read_exact_def split: prod.splits)

lemma st_read_u8_frame:
  "st_read_u8 s = (r, s') \<Longrightarrow> tx s' = tx s \<and> wr s' = wr s \<and> shut s' = shut s"
  by (auto simp: st_read_u8_def split: prod.splits sum.splits dest: st_read_exact_frame)

lemma st_read_u16_frame:
  "st_read_u16 s = (r, s') \<Longrightarrow> tx s' = tx s \<and> wr s' = wr s \<and> shut s' = shut s"
  by (auto simp: st_read_u16_def split: prod.splits sum.splits dest: st_read_exact_frame)

end
