(* ===== verification/Errors.thy ===== *)
theory Errors
  imports Rust_Io
begin

text \<open>\<open>error.rs\<close>: the error types of the core crate, with the source's constructors.\<close>

datatype transport_error =
  ConnectionFailed
| HandshakeFailed io_error
| TransportTimeout
| ProxyFailed io_error

datatype auth_error =
  KeyRejected
| CertInvalid
| CertExpired
| CertPrincipalMismatch
| NoMatchingKey

datatype channel_error =
  TargetUnreachable
| ProxyConnectFailed io_error
| ChannelClosed

datatype config_error =
  InvalidFlag string
| KeyFileNotFound string
| BindFailed io_error
| IncompatibleOptions
| ProxyConfigInvalid string

datatype forward_error =
  InvalidSpec string
| ForwardBindFailed io_error
| ChannelOpenFailed string
| LocalConnectFailed io_error

text \<open>The messages of the errors that are shown to a user.\<close>

fun show_config_error :: "config_error \<Rightarrow> string" where
  "show_config_error (InvalidFlag name) = ''invalid flag: '' @ name"
| "show_config_error (KeyFileNotFound path) = ''key file not found: '' @ path"
| "show_config_error (BindFailed source) = ''bind failed''"
| "show_config_error IncompatibleOptions = ''incompatible options''"
| "show_config_error (ProxyConfigInvalid message) = ''invalid proxy config: '' @ message"

end
