(* ===== verification/Rust_Utf8.thy ===== *)
theory Rust_Utf8
  imports Rust_Str
begin

text \<open>
  UTF-8 as the standard library handles it: \<open>String::from_utf8_lossy\<close>, which replaces each maximal
  ill-formed part by the replacement character, and slicing of a \<open>str\<close>, which panics when the index
  is not a character boundary.
\<close>

definition is_cont :: "nat \<Rightarrow> bool" where
  "is_cont b \<longleftrightarrow> 128 \<le> b \<and> b \<le> 191"

text \<open>
  One step over the bytes: the length of the well-formed character at the front, or the length of
  the ill-formed part there. Reading past the end gives the byte 0, as \<open>safe_get\<close> does.
\<close>

datatype utf8_piece = Valid nat | Invalid nat

definition byte_at :: "nat list \<Rightarrow> nat \<Rightarrow> nat" where
  "byte_at bs i = (if i < length bs then bs ! i else 0)"

definition second_ok :: "nat \<Rightarrow> nat \<Rightarrow> bool" where
  "second_ok a b \<longleftrightarrow>
     (if a = 224 then 160 \<le> b \<and> b \<le> 191
      else if a = 237 then 128 \<le> b \<and> b \<le> 159
      else if a = 240 then 144 \<le> b \<and> b \<le> 191
      else if a = 244 then 128 \<le> b \<and> b \<le> 143
      else is_cont b)"

definition utf8_piece :: "nat list \<Rightarrow> utf8_piece" where
  "utf8_piece bs =
     (let a = byte_at bs 0; b = byte_at bs 1; c = byte_at bs 2; d = byte_at bs 3 in
      if a < 128 then Valid 1
      else if 194 \<le> a \<and> a \<le> 223 then (if is_cont b then Valid 2 else Invalid 1)
      else if 224 \<le> a \<and> a \<le> 239 then
        (if \<not> second_ok a b then Invalid 1 else if \<not> is_cont c then Invalid 2 else Valid 3)
      else if 240 \<le> a \<and> a \<le> 244 then
        (if \<not> second_ok a b then Invalid 1 else if \<not> is_cont c then Invalid 2
         else if \<not> is_cont d then Invalid 3 else Valid 4)
      else Invalid 1)"

definition piece_len :: "utf8_piece \<Rightarrow> nat" where
  "piece_len p = (case p of Valid n \<Rightarrow> n | Invalid n \<Rightarrow> n)"

lemma piece_len_pos [simp]: "0 < piece_len (utf8_piece bs)"
  by (simp add: utf8_piece_def piece_len_def Let_def)

definition replacement :: string where
  "replacement = [CHR 0xEF, CHR 0xBF, CHR 0xBD]"

function utf8_lossy :: "string \<Rightarrow> string" where
  "utf8_lossy s =
     (if s = [] then []
      else let p = utf8_piece (map byte_val s); n = piece_len p in
        (case p of Valid _ \<Rightarrow> take n s | Invalid _ \<Rightarrow> replacement) @ utf8_lossy (drop n s))"
  by auto
termination
  by (relation "measure length") auto

declare utf8_lossy.simps [simp del]

function utf8_valid :: "string \<Rightarrow> bool" where
  "utf8_valid s =
     (if s = [] then True
      else let p = utf8_piece (map byte_val s) in
        (case p of Valid n \<Rightarrow> utf8_valid (drop n s) | Invalid _ \<Rightarrow> False))"
  by auto
termination
proof (relation "measure length", goal_cases)
  case (2 s p n)
  then have "0 < n"
    using piece_len_pos [of "map byte_val s"] by (metis piece_len_def utf8_piece.case(1))
  with 2 show ?case
    by simp
qed simp

declare utf8_valid.simps [simp del]

text \<open>\<open>from_utf8_lossy\<close> on bytes.\<close>

definition from_utf8_lossy :: "bytes \<Rightarrow> string" where
  "from_utf8_lossy bs = utf8_lossy (of_bytes bs)"

lemma utf8_lossy_valid: "utf8_valid s \<Longrightarrow> utf8_lossy s = s"
proof (induction s rule: utf8_lossy.induct)
  case (1 s)
  show ?case
  proof (cases "s = []")
    case False
    with 1 obtain n where n: "utf8_piece (map byte_val s) = Valid n" "utf8_valid (drop n s)"
      by (subst (asm) (2) utf8_valid.simps) (auto simp: Let_def split: utf8_piece.splits)
    then have "utf8_lossy (drop n s) = drop n s"
      using 1(1) [OF False refl] by (simp add: piece_len_def)
    then show ?thesis
      using False n by (subst utf8_lossy.simps) (simp add: piece_len_def)
  qed (simp add: utf8_lossy.simps)
qed

lemma utf8_valid_ascii_Cons: "byte_val c < 128 \<Longrightarrow> utf8_valid (c # s) = utf8_valid s"
  by (subst utf8_valid.simps) (simp add: utf8_piece_def byte_at_def Let_def)

lemma utf8_valid_ascii: "list_all (\<lambda>c. byte_val c < 128) s \<Longrightarrow> utf8_valid s"
proof (induction s)
  case Nil
  show ?case
    by (simp add: utf8_valid.simps)
qed (simp add: utf8_valid_ascii_Cons)

lemma from_utf8_lossy_as_bytes: "utf8_valid s \<Longrightarrow> from_utf8_lossy (as_bytes s) = s"
  by (simp add: from_utf8_lossy_def utf8_lossy_valid)

section \<open>Slicing\<close>

definition is_char_boundary :: "string \<Rightarrow> nat \<Rightarrow> bool" where
  "is_char_boundary s i \<longleftrightarrow> i = 0 \<or> i = length s \<or> (i < length s \<and> \<not> is_cont (byte_val (s ! i)))"

text \<open>\<open>&s[..n]\<close>\<close>

definition slice_to :: "string \<Rightarrow> nat \<Rightarrow> string outcome" where
  "slice_to s n = (if is_char_boundary s n then Returns (take n s) else Panics)"

text \<open>\<open>&s[n..]\<close>\<close>

definition slice_from :: "string \<Rightarrow> nat \<Rightarrow> string outcome" where
  "slice_from s n = (if is_char_boundary s n then Returns (drop n s) else Panics)"

lemma slice_to_ascii:
  assumes "list_all (\<lambda>c. byte_val c < 128) s" "n \<le> length s"
  shows "slice_to s n = Returns (take n s)"
proof (cases "n < length s")
  case True
  then have "byte_val (s ! n) < 128"
    using assms by (simp add: list_all_length)
  then show ?thesis
    using True by (simp add: slice_to_def is_char_boundary_def is_cont_def)
qed (use assms in \<open>simp add: slice_to_def is_char_boundary_def\<close>)

end
