(* ===== verification/Rust_Net.thy ===== *)
theory Rust_Net
  imports Rust_Str
begin

text \<open>
  \<open>std::net\<close>: the address types, their \<open>FromStr\<close> parsers and their \<open>Display\<close>. A parser takes the
  remaining input and returns the value with the input after it, or \<open>None\<close>, in which case nothing
  was consumed; the functions have the names of the ones in \<open>core::net::parser\<close>.
\<close>

datatype ip_addr = V4 u8 u8 u8 u8 | V6 u16 u16 u16 u16 u16 u16 u16 u16

datatype socket_addr = SocketAddr (sa_ip: ip_addr) (sa_port: u16)

type_synonym 'a net_parser = "string \<Rightarrow> ('a \<times> string) option"

definition read_given_char :: "char \<Rightarrow> unit net_parser" where
  "read_given_char c s = (case s of [] \<Rightarrow> None | x # r \<Rightarrow> if x = c then Some ((), r) else None)"

text \<open>The digits at the front of the input, as digit values.\<close>

fun read_digits :: "nat \<Rightarrow> string \<Rightarrow> nat list \<times> string" where
  "read_digits radix [] = ([], [])"
| "read_digits radix (c # s) =
     (case to_digit radix c of None \<Rightarrow> ([], c # s)
      | Some d \<Rightarrow> let (ds, r) = read_digits radix s in (d # ds, r))"

definition digits_val :: "nat \<Rightarrow> nat list \<Rightarrow> nat" where
  "digits_val radix ds = foldl (\<lambda>acc d. acc * radix + d) 0 ds"

text \<open>
  \<open>read_number\<close>: at most \<open>max_digits\<close> digits when that is given, a leading zero only if allowed or
  alone, and a value of the type (at most \<open>max_val\<close>).
\<close>

definition read_number :: "nat \<Rightarrow> nat option \<Rightarrow> bool \<Rightarrow> nat \<Rightarrow> nat net_parser" where
  "read_number radix max_digits allow_zero_prefix max_val s =
     (let (ds, r) = read_digits radix s in
      if (case max_digits of Some m \<Rightarrow> m < length ds | None \<Rightarrow> False) then None
      else if ds = [] then None
      else if \<not> allow_zero_prefix \<and> hd ds = 0 \<and> 1 < length ds then None
      else if max_val < digits_val radix ds then None
      else Some (digits_val radix ds, r))"

definition read_octet :: "nat net_parser" where
  "read_octet = read_number 10 (Some 3) False 255"

definition read_ipv4_addr :: "(u8 \<times> u8 \<times> u8 \<times> u8) net_parser" where
  "read_ipv4_addr s =
     Option.bind (read_octet s) (\<lambda>(a, s).
     Option.bind (read_given_char CHR ''.'' s) (\<lambda>(_, s).
     Option.bind (read_octet s) (\<lambda>(b, s).
     Option.bind (read_given_char CHR ''.'' s) (\<lambda>(_, s).
     Option.bind (read_octet s) (\<lambda>(c, s).
     Option.bind (read_given_char CHR ''.'' s) (\<lambda>(_, s).
     Option.bind (read_octet s) (\<lambda>(d, s).
     Some ((of_nat a, of_nat b, of_nat c, of_nat d), s))))))))"

text \<open>
  \<open>read_groups\<close> reads up to \<open>limit\<close> groups, \<open>i\<close> of them read so far (in \<open>acc\<close>); the flag says that
  the last two came from an embedded IPv4 address.
\<close>

definition read_separator :: "nat \<Rightarrow> unit net_parser" where
  "read_separator i s = (if 0 < i then read_given_char CHR '':'' s else Some ((), s))"

function read_groups :: "nat \<Rightarrow> nat \<Rightarrow> u16 list \<Rightarrow> string \<Rightarrow> u16 list \<times> bool \<times> string" where
  "read_groups limit i acc s =
     (if limit \<le> i then (acc, False, s)
      else case (if i + 1 < limit
                 then Option.bind (read_separator i s) (\<lambda>(_, s1). read_ipv4_addr s1) else None) of
        Some ((a, b, c, d), r) \<Rightarrow> (acc @ [u16_from_be_bytes a b, u16_from_be_bytes c d], True, r)
      | None \<Rightarrow>
          case Option.bind (read_separator i s) (\<lambda>(_, s1). read_number 16 (Some 4) True 65535 s1) of
            Some (g, r) \<Rightarrow> read_groups limit (i + 1) (acc @ [of_nat g]) r
          | None \<Rightarrow> (acc, False, s))"
  by auto
termination
  by (relation "measure (\<lambda>(limit, i, _, _). limit - i)") auto

declare read_groups.simps [simp del]

definition ipv6_of_groups :: "u16 list \<Rightarrow> ip_addr" where
  "ipv6_of_groups gs = V6 (gs ! 0) (gs ! 1) (gs ! 2) (gs ! 3) (gs ! 4) (gs ! 5) (gs ! 6) (gs ! 7)"

definition read_ipv6_addr :: "ip_addr net_parser" where
  "read_ipv6_addr s =
     (let (head, head_ipv4, s1) = read_groups 8 0 [] s in
      if length head = 8 then Some (ipv6_of_groups head, s1)
      else if head_ipv4 then None
      else
        Option.bind (read_given_char CHR '':'' s1) (\<lambda>(_, s2).
        Option.bind (read_given_char CHR '':'' s2) (\<lambda>(_, s3).
        let (tail, _, s4) = read_groups (8 - (length head + 1)) 0 [] s3 in
        Some (ipv6_of_groups (head @ replicate (8 - length head - length tail) 0 @ tail), s4))))"

definition read_ip_addr :: "ip_addr net_parser" where
  "read_ip_addr s =
     (case read_ipv4_addr s of Some ((a, b, c, d), r) \<Rightarrow> Some (V4 a b c d, r)
      | None \<Rightarrow> read_ipv6_addr s)"

definition read_port :: "nat net_parser" where
  "read_port s =
     Option.bind (read_given_char CHR '':'' s) (\<lambda>(_, s). read_number 10 None True 65535 s)"

definition read_scope_id :: "nat net_parser" where
  "read_scope_id s =
     Option.bind (read_given_char CHR ''%'' s) (\<lambda>(_, s). read_number 10 None True 4294967295 s)"

definition read_socket_addr_v4 :: "socket_addr net_parser" where
  "read_socket_addr_v4 s =
     Option.bind (read_ipv4_addr s) (\<lambda>((a, b, c, d), s).
     Option.bind (read_port s) (\<lambda>(p, s).
     Some (SocketAddr (V4 a b c d) (of_nat p), s)))"

text \<open>The scope of an IPv6 socket address is read and dropped: nothing in the program looks at it.\<close>

definition read_socket_addr_v6 :: "socket_addr net_parser" where
  "read_socket_addr_v6 s =
     Option.bind (read_given_char CHR ''['' s) (\<lambda>(_, s).
     Option.bind (read_ipv6_addr s) (\<lambda>(ip, s).
     let s = (case read_scope_id s of Some (_, r) \<Rightarrow> r | None \<Rightarrow> s) in
     Option.bind (read_given_char CHR '']'' s) (\<lambda>(_, s).
     Option.bind (read_port s) (\<lambda>(p, s).
     Some (SocketAddr ip (of_nat p), s)))))"

definition read_socket_addr :: "socket_addr net_parser" where
  "read_socket_addr s =
     (case read_socket_addr_v4 s of Some x \<Rightarrow> Some x | None \<Rightarrow> read_socket_addr_v6 s)"

text \<open>\<open>parse_with\<close>: the whole input is consumed.\<close>

definition parse_with :: "'a net_parser \<Rightarrow> string \<Rightarrow> 'a option" where
  "parse_with p s = (case p s of Some (a, []) \<Rightarrow> Some a | _ \<Rightarrow> None)"

definition parse_ip_addr :: "string \<Rightarrow> ip_addr option" where
  "parse_ip_addr = parse_with read_ip_addr"

definition parse_socket_addr :: "string \<Rightarrow> socket_addr option" where
  "parse_socket_addr = parse_with read_socket_addr"

section \<open>Printing\<close>

definition show_ipv4 :: "u8 \<Rightarrow> u8 \<Rightarrow> u8 \<Rightarrow> u8 \<Rightarrow> string" where
  "show_ipv4 a b c d =
     show_nat (unat a) @ ''.'' @ show_nat (unat b) @ ''.'' @ show_nat (unat c) @ ''.'' @
     show_nat (unat d)"

text \<open>The first longest run of zero groups: position and length.\<close>

fun zero_span :: "nat \<Rightarrow> nat \<times> nat \<Rightarrow> nat \<times> nat \<Rightarrow> u16 list \<Rightarrow> nat \<times> nat" where
  "zero_span i cur longest [] = longest"
| "zero_span i (cstart, clen) (lstart, llen) (g # gs) =
     (if g = 0 then
        let start = (if clen = 0 then i else cstart); cur = (start, clen + 1) in
        zero_span (i + 1) cur (if llen < clen + 1 then cur else (lstart, llen)) gs
      else zero_span (i + 1) (0, 0) (lstart, llen) gs)"

fun fmt_subslice :: "u16 list \<Rightarrow> string" where
  "fmt_subslice [] = []"
| "fmt_subslice [g] = show_nat_radix 16 (unat g)"
| "fmt_subslice (g # h # gs) = show_nat_radix 16 (unat g) @ '':'' @ fmt_subslice (h # gs)"

definition show_ipv6 :: "u16 list \<Rightarrow> string" where
  "show_ipv6 gs =
     (if take 5 gs = replicate 5 0 \<and> gs ! 5 = 65535 then
        ''::ffff:'' @ show_ipv4 (ucast (drop_bit 8 (gs ! 6))) (ucast (gs ! 6))
          (ucast (drop_bit 8 (gs ! 7))) (ucast (gs ! 7))
      else
        let (start, len) = zero_span 0 (0, 0) (0, 0) gs in
        if 1 < len then fmt_subslice (take start gs) @ ''::'' @ fmt_subslice (drop (start + len) gs)
        else fmt_subslice gs)"

fun show_ip_addr :: "ip_addr \<Rightarrow> string" where
  "show_ip_addr (V4 a b c d) = show_ipv4 a b c d"
| "show_ip_addr (V6 a b c d e f g h) = show_ipv6 [a, b, c, d, e, f, g, h]"

definition show_socket_addr :: "socket_addr \<Rightarrow> string" where
  "show_socket_addr s =
     (case sa_ip s of
        V4 _ _ _ _ \<Rightarrow> show_ip_addr (sa_ip s)
      | V6 _ _ _ _ _ _ _ _ \<Rightarrow> ''['' @ show_ip_addr (sa_ip s) @ '']'') @ '':'' @ show_nat (unat (sa_port s))"

section \<open>Round trip for IPv4\<close>

lemma read_digits_append:
  assumes "\<forall>d \<in> set ds. d < radix" "radix \<le> 36"
    and "\<And>c r. t = c # r \<Longrightarrow> to_digit radix c = None"
  shows "read_digits radix (map from_digit ds @ t) = (ds, t)"
  using assms
proof (induction ds)
  case Nil
  then show ?case
    by (cases t) auto
next
  case (Cons d ds)
  then show ?case
    by (simp add: to_digit_from_digit)
qed

lemma digits_val_snoc: "digits_val radix (ds @ [d]) = digits_val radix ds * radix + d"
  by (simp add: digits_val_def)

lemma digits_val_rev: "2 \<le> radix \<Longrightarrow> digits_val radix (rev (digits_rev radix n)) = n"
proof (induction radix n rule: digits_rev.induct)
  case (1 radix n)
  show ?case
  proof (cases "n < radix")
    case True
    then show ?thesis
      by (simp add: digits_rev.simps [of radix n] digits_val_def)
  next
    case False
    then show ?thesis
      using 1 by (simp add: digits_rev.simps [of radix n] digits_val_snoc)
  qed
qed

lemma hd_rev_digits_rev_pos:
  "2 \<le> radix \<Longrightarrow> radix \<le> n \<Longrightarrow> 0 < hd (rev (digits_rev radix n))"
proof (induction radix n rule: digits_rev.induct)
  case (1 radix n)
  show ?case
  proof (cases "n div radix < radix")
    case True
    with 1 show ?thesis
      by (simp add: digits_rev.simps [of radix n] digits_rev.simps [of radix "n div radix"]
          div_greater_zero_iff)
  next
    case False
    with 1 have "0 < hd (rev (digits_rev radix (n div radix)))"
      by auto
    with 1 show ?thesis
      by (simp add: digits_rev.simps [of radix n] hd_append)
  qed
qed

lemma length_digits_rev_small: "2 \<le> radix \<Longrightarrow> n < radix \<Longrightarrow> length (digits_rev radix n) = 1"
  by (simp add: digits_rev.simps)

lemma length_digits_rev:
  "2 \<le> radix \<Longrightarrow> n < radix ^ k \<Longrightarrow> 0 < k \<Longrightarrow> length (digits_rev radix n) \<le> k"
proof (induction radix n arbitrary: k rule: digits_rev.induct)
  case (1 radix n)
  show ?case
  proof (cases "n < radix")
    case True
    then show ?thesis
      using 1 by (simp add: digits_rev.simps [of radix n])
  next
    case False
    then obtain k' where k: "k = Suc k'" "0 < k'"
      using 1 by (metis Suc_pred not_gr0 power_0 power_Suc0_right power_one_right less_one
          gr0_conv_Suc power_Suc mult.right_neutral)
    have "n div radix < radix ^ k'"
      using 1 k by (simp add: less_mult_imp_div_less mult.commute)
    then have "length (digits_rev radix (n div radix)) \<le> k'"
      using 1 False k by simp
    then show ?thesis
      using False 1 k by (simp add: digits_rev.simps [of radix n])
  qed
qed

lemma read_number_show:
  assumes "2 \<le> radix" "radix \<le> 36" "n \<le> max_val" "n < radix ^ k" "0 < k"
    and "\<And>c r. t = c # r \<Longrightarrow> to_digit radix c = None"
  shows "read_number radix (Some k) z max_val (show_nat_radix radix n @ t) = Some (n, t)"
proof -
  let ?ds = "rev (digits_rev radix n)"
  have "read_digits radix (show_nat_radix radix n @ t) = (?ds, t)"
    unfolding show_nat_radix_def
    by (rule read_digits_append) (use assms digits_rev_bound in auto)
  moreover have "\<not> (hd ?ds = 0 \<and> 1 < length ?ds)"
    using hd_rev_digits_rev_pos [of radix n] length_digits_rev_small [of radix n] assms
    by (cases "n < radix") auto
  moreover have "length (digits_rev radix n) \<le> k"
    using assms by (intro length_digits_rev) auto
  ultimately show ?thesis
    using assms by (auto simp: read_number_def digits_val_rev)
qed

lemma to_digit_dot: "to_digit 10 CHR ''.'' = None" "to_digit 10 CHR '':'' = None"
  by (simp_all add: to_digit_def byte_val_def)

lemma read_octet_show:
  assumes "\<And>c r. t = c # r \<Longrightarrow> to_digit 10 c = None"
  shows "read_octet (show_nat (unat (a :: u8)) @ t) = Some (unat a, t)"
proof -
  have "unat a < 256"
    using unsigned_less [of a, where ?'a = nat] by simp
  then show ?thesis
    unfolding read_octet_def by (intro read_number_show) (use assms in auto)
qed

lemma read_given_char_Cons [simp]: "read_given_char c (c # r) = Some ((), r)"
  by (simp add: read_given_char_def)

lemma read_ipv4_show:
  assumes "\<And>x r. t = x # r \<Longrightarrow> to_digit 10 x = None"
  shows "read_ipv4_addr (show_ipv4 a b c d @ t) = Some ((a, b, c, d), t)"
proof -
  have dot: "read_octet (show_nat (unat (a :: u8)) @ CHR ''.'' # r) = Some (unat a, CHR ''.'' # r)"
    for a r by (rule read_octet_show) (auto simp: to_digit_dot)
  have "read_octet (show_nat (unat d) @ t) = Some (unat d, t)"
    using assms by (rule read_octet_show)
  then show ?thesis
    by (simp add: read_ipv4_addr_def show_ipv4_def dot)
qed

lemma parse_ip_addr_show_ipv4: "parse_ip_addr (show_ipv4 a b c d) = Some (V4 a b c d)"
  using read_ipv4_show [of "[]" a b c d] by (simp add: parse_ip_addr_def parse_with_def read_ip_addr_def)

lemma read_port_show: "read_port (CHR '':'' # show_nat (unat (p :: u16))) = Some (unat p, [])"
proof -
  let ?ds = "rev (digits_rev 10 (unat p))"
  have "read_digits 10 (show_nat (unat p) @ []) = (?ds, [])"
    unfolding show_nat_radix_def
    by (rule read_digits_append) (use digits_rev_bound in auto)
  moreover have "unat p \<le> 65535"
    using unsigned_less [of p, where ?'a = nat] by simp
  ultimately show ?thesis
    by (simp add: read_port_def read_number_def digits_val_rev)
qed

lemma parse_socket_addr_show_ipv4:
  "parse_socket_addr (show_ipv4 a b c d @ '':'' @ show_nat (unat p)) = Some (SocketAddr (V4 a b c d) p)"
proof -
  have "read_ipv4_addr (show_ipv4 a b c d @ CHR '':'' # show_nat (unat p)) =
      Some ((a, b, c, d), CHR '':'' # show_nat (unat p))"
    by (rule read_ipv4_show) (auto simp: to_digit_dot)
  then show ?thesis
    by (simp add: parse_socket_addr_def parse_with_def read_socket_addr_def read_socket_addr_v4_def
        read_port_show)
qed

section \<open>The port of a parsed socket address is the number after the last colon\<close>

definition is_rest :: "string \<Rightarrow> string \<Rightarrow> bool" where
  "is_rest r s \<longleftrightarrow> (\<exists>c. s = c @ r)"

lemma is_rest_refl [simp]: "is_rest s s"
  by (simp add: is_rest_def)

lemma is_rest_trans: "is_rest r s \<Longrightarrow> is_rest s t \<Longrightarrow> is_rest r t"
  by (auto simp: is_rest_def)

lemma is_rest_drop: "is_rest r (c # r)"
  unfolding is_rest_def by (rule exI [of _ "[c]"]) simp

lemma is_rest_Cons: "is_rest (c # r) s \<Longrightarrow> is_rest r s"
  by (rule is_rest_trans [OF is_rest_drop])

lemma read_given_char_rest: "read_given_char c s = Some (u, r) \<Longrightarrow> s = c # r"
  by (auto simp: read_given_char_def split: list.splits if_splits)

lemma read_digits_rest: "read_digits radix s = (ds, r) \<Longrightarrow> is_rest r s"
proof (induction s arbitrary: ds r)
  case (Cons c s)
  then show ?case
    by (auto split: option.splits prod.splits intro: is_rest_trans [OF _ is_rest_drop])
qed simp

lemma read_number_rest: "read_number radix m z v s = Some (n, r) \<Longrightarrow> is_rest r s"
  by (auto simp: read_number_def split: prod.splits if_splits dest: read_digits_rest)

lemma read_octet_rest: "read_octet s = Some (n, r) \<Longrightarrow> is_rest r s"
  by (simp add: read_octet_def read_number_rest)

lemma read_dot_rest: "read_given_char c s = Some (u, r) \<Longrightarrow> is_rest r s"
  by (drule read_given_char_rest) (simp add: is_rest_drop)

lemma bind_rest:
  assumes "Option.bind m f = Some (a, r)" "\<And>x r'. m = Some (x, r') \<Longrightarrow> is_rest r' s"
    and "\<And>x r'. f (x, r') = Some (a, r) \<Longrightarrow> is_rest r r'"
  shows "is_rest r s"
proof -
  obtain x r' where m: "m = Some (x, r')" "f (x, r') = Some (a, r)"
    using assms(1) by (auto simp: bind_eq_Some_conv)
  have "is_rest r r'" "is_rest r' s"
    using assms(3) [OF m(2)] assms(2) [OF m(1)] .
  then show ?thesis
    by (rule is_rest_trans)
qed

lemmas read_rests = read_octet_rest read_dot_rest read_number_rest

lemma read_ipv4_addr_rest: "read_ipv4_addr s = Some (a, r) \<Longrightarrow> is_rest r s"
  unfolding read_ipv4_addr_def
  by (((erule bind_rest, erule read_rests, simp only: prod.case)+)?, simp)

lemma read_separator_rest: "read_separator i s = Some (u, r) \<Longrightarrow> is_rest r s"
  by (auto simp: read_separator_def split: if_splits dest: read_dot_rest)

lemma read_groups_rest: "read_groups limit i acc s = (gs, f, r) \<Longrightarrow> is_rest r s"
proof (induction limit i acc s arbitrary: gs f r rule: read_groups.induct)
  case (1 limit i acc s)
  let ?v4 = "if i + 1 < limit then Option.bind (read_separator i s) (\<lambda>(_, s1). read_ipv4_addr s1) else None"
  let ?g = "Option.bind (read_separator i s) (\<lambda>(_, s1). read_number 16 (Some 4) True 65535 s1)"
  consider "limit \<le> i" | a b c d r1 where "\<not> limit \<le> i" "?v4 = Some ((a, b, c, d), r1)"
    | "\<not> limit \<le> i" "?v4 = None" "?g = None" | g r1 where "\<not> limit \<le> i" "?v4 = None" "?g = Some (g, r1)"
    by (metis not_None_eq prod_cases5 surj_pair)
  then show ?case
  proof cases
    case 1
    with "1.prems" show ?thesis
      by (simp add: read_groups.simps [of limit i])
  next
    case 2
    then have "Option.bind (read_separator i s) (\<lambda>(_, s1). read_ipv4_addr s1) = Some ((a, b, c, d), r1)"
      by (simp split: if_splits)
    then have "is_rest r1 s"
      by (rule bind_rest) (auto intro: read_separator_rest read_ipv4_addr_rest)
    with 2 "1.prems" show ?thesis
      by (simp add: read_groups.simps [of limit i])
  next
    case 3
    with "1.prems" show ?thesis
      by (simp add: read_groups.simps [of limit i])
  next
    case 4
    from 4(3) have "is_rest r1 s"
      by (rule bind_rest) (auto intro: read_separator_rest read_number_rest)
    moreover have "is_rest r r1"
      using 4 "1.prems" by (intro "1.IH" [OF 4]) (auto simp: read_groups.simps [of limit i])
    ultimately show ?thesis
      by (blast intro: is_rest_trans)
  qed
qed

lemma read_tail_rest:
  assumes "(let (tail, _, s4) = read_groups n 0 [] s3 in Some (g tail, s4)) = Some (a, r)"
  shows "is_rest r s3"
proof -
  obtain t f s4 where "read_groups n 0 [] s3 = (t, f, s4)"
    by (metis prod_cases3)
  then show ?thesis
    using assms read_groups_rest by simp
qed

lemma read_ipv6_addr_rest: "read_ipv6_addr s = Some (a, r) \<Longrightarrow> is_rest r s"
proof -
  assume a: "read_ipv6_addr s = Some (a, r)"
  obtain hs f s1 where g: "read_groups 8 0 [] s = (hs, f, s1)"
    by (metis prod_cases3)
  have s1: "is_rest s1 s"
    using g by (rule read_groups_rest)
  show ?thesis
  proof (cases "length hs = 8")
    case True
    then show ?thesis
      using a g s1 by (simp add: read_ipv6_addr_def)
  next
    case False
    then obtain s2 s3 where c: "read_given_char CHR '':'' s1 = Some ((), s2)"
      "read_given_char CHR '':'' s2 = Some ((), s3)"
      and t: "(let (tail, _, s4) = read_groups (8 - (length hs + 1)) 0 [] s3 in
        Some (ipv6_of_groups (hs @ replicate (8 - length hs - length tail) 0 @ tail), s4)) = Some (a, r)"
      using a g by (auto simp: read_ipv6_addr_def bind_eq_Some_conv split: if_splits)
    have "is_rest r s3"
      using t by (rule read_tail_rest)
    moreover have "is_rest s3 s2" "is_rest s2 s1"
      using c by (auto dest: read_dot_rest)
    ultimately have "is_rest r s1"
      by (blast intro: is_rest_trans)
    then show ?thesis
      using s1 by (rule is_rest_trans)
  qed
qed

lemma read_scope_id_rest: "read_scope_id s = Some (n, r) \<Longrightarrow> is_rest r s"
  unfolding read_scope_id_def
  by (erule bind_rest, erule read_dot_rest) (simp add: read_number_rest)

text \<open>If the port reader consumes all of its input, that input is a colon and digits.\<close>

lemma read_digits_all: "read_digits radix s = (ds, []) \<Longrightarrow> length ds = length s \<and> (\<forall>c \<in> set s. to_digit radix c \<noteq> None)"
proof (induction s arbitrary: ds)
  case (Cons c s)
  then show ?case
    by (auto split: option.splits prod.splits)
qed simp

lemma read_port_all:
  assumes "read_port s = Some (p, [])"
  shows "\<exists>t. s = CHR '':'' # t \<and> CHR '':'' \<notin> set t \<and> read_number 10 None True 65535 t = Some (p, [])"
proof -
  obtain t where t: "s = CHR '':'' # t" "read_number 10 None True 65535 t = Some (p, [])"
    using assms by (auto simp: read_port_def bind_eq_Some_conv dest!: read_given_char_rest)
  then obtain ds where "read_digits 10 t = (ds, [])"
    by (auto simp: read_number_def split: prod.splits if_splits)
  then have "CHR '':'' \<notin> set t"
    using read_digits_all to_digit_dot(2) by blast
  with t show ?thesis
    by blast
qed

lemma read_number_show_all:
  "read_number 10 None True m (show_nat n) = Some (p, []) \<Longrightarrow> p = n"
proof -
  have "read_digits 10 (show_nat n @ []) = (rev (digits_rev 10 n), [])"
    unfolding show_nat_radix_def by (rule read_digits_append) (use digits_rev_bound in auto)
  then show "read_number 10 None True m (show_nat n) = Some (p, []) \<Longrightarrow> p = n"
    by (auto simp: read_number_def digits_val_rev split: if_splits)
qed

lemma split_at_last_colon:
  assumes "pre @ CHR '':'' # t = pre' @ CHR '':'' # t'" "CHR '':'' \<notin> set t" "CHR '':'' \<notin> set t'"
  shows "t = t'"
proof -
  have "rev t @ CHR '':'' # rev pre = rev t' @ CHR '':'' # rev pre'"
    using arg_cong [OF assms(1), of rev] by simp
  moreover have "takeWhile (\<lambda>c. c \<noteq> CHR '':'') (rev w @ CHR '':'' # x) = rev w" if "CHR '':'' \<notin> set w" for w x
    using that by (induction w rule: rev_induct) auto
  ultimately have "rev t = rev t'"
    using assms(2,3) by metis
  then show ?thesis
    by simp
qed

lemma read_socket_addr_port:
  assumes "read_socket_addr s = Some (a, [])"
  shows "\<exists>pre t p. s = pre @ CHR '':'' # t \<and> CHR '':'' \<notin> set t \<and>
    read_number 10 None True 65535 t = Some (p, []) \<and> sa_port a = of_nat p"
proof -
  obtain r p where "is_rest r s" "read_port r = Some (p, [])" "sa_port a = of_nat p"
  proof (cases "read_socket_addr_v4 s")
    case None
    then have "read_socket_addr_v6 s = Some (a, [])"
      using assms by (simp add: read_socket_addr_def)
    then obtain s1 ip s2 s3 r p where c: "read_given_char CHR ''['' s = Some ((), s1)"
      "read_ipv6_addr s1 = Some (ip, s2)"
      "read_given_char CHR '']'' (case read_scope_id s2 of Some (_, x) \<Rightarrow> x | None \<Rightarrow> s2) = Some ((), r)"
      "read_port r = Some (p, [])" "sa_port a = of_nat p"
      by (auto simp: read_socket_addr_v6_def bind_eq_Some_conv Let_def)
    have "is_rest (case read_scope_id s2 of Some (_, x) \<Rightarrow> x | None \<Rightarrow> s2) s2"
      by (auto split: option.split dest: read_scope_id_rest)
    moreover have "is_rest s1 s" "is_rest s2 s1"
      "is_rest r (case read_scope_id s2 of Some (_, x) \<Rightarrow> x | None \<Rightarrow> s2)"
      using c by (auto dest: read_dot_rest read_ipv6_addr_rest)
    ultimately have "is_rest r s"
      by (blast intro: is_rest_trans)
    then show ?thesis
      using c(4,5) by (rule that)
  next
    case (Some x)
    then have "read_socket_addr_v4 s = Some (a, [])"
      using assms by (simp add: read_socket_addr_def)
    then show ?thesis
      using that by (auto simp: read_socket_addr_v4_def bind_eq_Some_conv dest!: read_ipv4_addr_rest)
  qed
  then show ?thesis
    using read_port_all [of r p] by (auto simp: is_rest_def)
qed

lemma parse_with_Some: "parse_with p s = Some a \<longleftrightarrow> p s = Some (a, [])"
  unfolding parse_with_def by (cases "p s") (auto split: list.splits)

lemma parse_socket_addr_port:
  assumes "parse_socket_addr (host @ '':'' @ show_nat n) = Some a"
  shows "sa_port a = of_nat n"
proof -
  have "read_socket_addr (host @ '':'' @ show_nat n) = Some (a, [])"
    using assms by (simp add: parse_socket_addr_def parse_with_Some)
  then obtain pre t p where t: "host @ CHR '':'' # show_nat n = pre @ CHR '':'' # t" "CHR '':'' \<notin> set t"
    "read_number 10 None True 65535 t = Some (p, [])" "sa_port a = of_nat p"
    using read_socket_addr_port [of "host @ '':'' @ show_nat n" a] by auto
  have "CHR '':'' \<notin> set (show_nat n)"
    by (rule show_nat_no_char) simp
  then have "t = show_nat n"
    using split_at_last_colon [OF t(1)] t(2) by simp
  then show ?thesis
    using t read_number_show_all by blast
qed

end
