(* ===== verification/Server_Auth.thy ===== *)
theory Server_Auth
  imports Auth_Keys Rust_Net
begin

text \<open>
  \<open>auth/server_auth.rs\<close>: which public keys and certificates a server accepts. Keys and certificates
  are those of \<open>russh\<close>: \<open>key_api\<close> collects what the code asks a key (its key data, the encoding of
  that, and the printed SHA-256 fingerprint), and \<open>certificate\<close> holds the answers of the accessors
  the code calls on a certificate, the verification of its signature included. Networks come from
  \<open>ipnetwork\<close>: \<open>net_api\<close> has its parser and its membership test. Time is the argument \<open>now_secs\<close>.
\<close>

record ('key, 'kd) key_api =
  key_data :: "'key \<Rightarrow> 'kd"
  encoded :: "'kd \<Rightarrow> bytes option"
  fingerprint :: "'key \<Rightarrow> string"

record 'net net_api =
  net_from_str :: "string \<Rightarrow> 'net option"
  net_contains :: "'net \<Rightarrow> ip_addr \<Rightarrow> bool"

record 'kd certificate =
  signature_key :: 'kd
  verify_signature :: bool
  valid_after :: u64
  valid_before :: u64
  valid_principals :: "string list"
  critical_options :: "(string \<times> string) list"
  extensions :: "(string \<times> string) list"

record 'key server_auth_config =
  sa_authorized_keys :: "'key list"
  sa_cert_authorities :: "'key cert_authority_entry list"
  sa_encoded_keys :: "bytes list"

definition encode_key_data :: "('key, 'kd) key_api \<Rightarrow> 'key \<Rightarrow> bytes" where
  "encode_key_data api key = (case encoded api (key_data api key) of Some b \<Rightarrow> b | None \<Rightarrow> [])"

definition from_keys_and_ca ::
  "('key, 'kd) key_api \<Rightarrow> (string \<Rightarrow> bytes option) \<Rightarrow> (string \<Rightarrow> 'key option) \<Rightarrow>
   key_source option \<Rightarrow> key_source option \<Rightarrow> (config_error + 'key server_auth_config) outcome" where
  "from_keys_and_ca api fs pk_base64 keys_src ca_src =
     outcome_bind
       (case keys_src of Some src \<Rightarrow> load_public_keys fs pk_base64 src | None \<Rightarrow> Returns (Ok []))
     (\<lambda>keys_res. case keys_res of Err e \<Rightarrow> Returns (Err e) | Ok ks \<Rightarrow>
       let authorized = remdups ks; encoded_keys = remdups (map (encode_key_data api) authorized) in
       outcome_bind
         (case ca_src of Some src \<Rightarrow> load_cert_authority_entries fs pk_base64 src | None \<Rightarrow> Returns (Ok []))
       (\<lambda>ca_res. case ca_res of Err e \<Rightarrow> Returns (Err e) | Ok cas \<Rightarrow>
         Returns (Ok \<lparr>sa_authorized_keys = authorized, sa_cert_authorities = cas,
                      sa_encoded_keys = encoded_keys\<rparr>)))"

definition sa_authenticate_publickey ::
  "('key, 'kd) key_api \<Rightarrow> 'key server_auth_config \<Rightarrow> 'key \<Rightarrow> auth_error + unit" where
  "sa_authenticate_publickey api c key =
     (if encode_key_data api key \<in> set (sa_encoded_keys c) then Ok () else Err KeyRejected)"

fun check_source_patterns :: "'net net_api \<Rightarrow> string list \<Rightarrow> ip_addr \<Rightarrow> bool" where
  "check_source_patterns nets [] ip = False"
| "check_source_patterns nets (p # ps) ip =
     (let pattern = str_trim p in
      if pattern = [] then check_source_patterns nets ps ip
      else if (case net_from_str nets pattern of Some cidr \<Rightarrow> net_contains nets cidr ip | None \<Rightarrow> False)
      then True
      else if (case parse_ip_addr pattern of Some net_ip \<Rightarrow> net_ip = ip | None \<Rightarrow> False) then True
      else check_source_patterns nets ps ip)"

definition check_source_address :: "'net net_api \<Rightarrow> string \<Rightarrow> ip_addr option \<Rightarrow> bool" where
  "check_source_address nets allowed client_ip =
     (case client_ip of None \<Rightarrow> False
      | Some ip \<Rightarrow> check_source_patterns nets (str_split allowed (CHR '','')) ip)"

fun check_critical_options ::
  "'net net_api \<Rightarrow> (string \<times> string) list \<Rightarrow> ip_addr option \<Rightarrow> auth_error + unit" where
  "check_critical_options nets [] client_ip = Ok ()"
| "check_critical_options nets ((name, data) # opts) client_ip =
     (if name = ''source-address'' then
        if \<not> check_source_address nets data client_ip then Err CertInvalid
        else check_critical_options nets opts client_ip
      else if name = ''force-command'' then check_critical_options nets opts client_ip
      else if name = ''no-pty'' then check_critical_options nets opts client_ip
      else Err CertInvalid)"

definition check_extensions :: "'kd certificate \<Rightarrow> 'key cert_authority_entry \<Rightarrow> auth_error + unit" where
  "check_extensions cert ca =
     (if ''permit-port-forwarding'' \<in> set (ca_options ca) then
        if \<not> list_ex (\<lambda>(n, _). n = ''permit-port-forwarding'') (extensions cert) then Err CertInvalid
        else Ok ()
      else Ok ())"

definition sa_authenticate_certificate ::
  "('key, 'kd) key_api \<Rightarrow> 'net net_api \<Rightarrow> u64 \<Rightarrow> 'key server_auth_config \<Rightarrow> 'kd certificate \<Rightarrow>
   string \<Rightarrow> ip_addr option \<Rightarrow> auth_error + unit" where
  "sa_authenticate_certificate api nets now_secs c cert user client_ip =
     (case find (\<lambda>ca. signature_key cert = key_data api (ca_public_key ca)) (sa_cert_authorities c) of
        None \<Rightarrow> Err CertInvalid
      | Some ca_entry \<Rightarrow>
          if \<not> verify_signature cert then Err CertInvalid
          else if now_secs < valid_after cert \<or> valid_before cert \<le> now_secs then Err CertExpired
          else if valid_principals cert \<noteq> [] \<and> user \<notin> set (valid_principals cert)
          then Err CertPrincipalMismatch
          else result_bind (check_critical_options nets (critical_options cert) client_ip) (\<lambda>_.
               check_extensions cert ca_entry))"

section \<open>The conditions, declaratively\<close>

text \<open>An address satisfies a source list when one of its comma-separated entries is a network that
  contains it or the address itself.\<close>

definition source_entry_matches :: "'net net_api \<Rightarrow> ip_addr \<Rightarrow> string \<Rightarrow> bool" where
  "source_entry_matches nets ip p \<longleftrightarrow> str_trim p \<noteq> [] \<and>
     ((\<exists>n. net_from_str nets (str_trim p) = Some n \<and> net_contains nets n ip) \<or>
      parse_ip_addr (str_trim p) = Some ip)"

lemma check_source_patterns_iff:
  "check_source_patterns nets ps ip \<longleftrightarrow> (\<exists>p \<in> set ps. source_entry_matches nets ip p)"
  by (induction ps) (auto simp: source_entry_matches_def Let_def split: option.splits)

definition critical_option_ok :: "'net net_api \<Rightarrow> ip_addr option \<Rightarrow> string \<times> string \<Rightarrow> bool" where
  "critical_option_ok nets client_ip opt \<longleftrightarrow>
     fst opt = ''force-command'' \<or> fst opt = ''no-pty'' \<or>
     fst opt = ''source-address'' \<and>
       (\<exists>ip. client_ip = Some ip \<and>
          (\<exists>p \<in> set (str_split (snd opt) (CHR '','')). source_entry_matches nets ip p))"

lemma check_critical_options_iff:
  "check_critical_options nets opts client_ip = Ok () \<longleftrightarrow> list_all (critical_option_ok nets client_ip) opts"
  by (induction nets opts client_ip rule: check_critical_options.induct)
     (auto simp: critical_option_ok_def check_source_address_def check_source_patterns_iff
       split: option.splits)

lemma check_critical_options_cases:
  "check_critical_options nets opts client_ip = Ok () \<or> check_critical_options nets opts client_ip = Err CertInvalid"
  by (induction nets opts client_ip rule: check_critical_options.induct) auto

definition cert_window :: "'kd certificate \<Rightarrow> u64 \<Rightarrow> bool" where
  "cert_window cert now_secs \<longleftrightarrow> valid_after cert \<le> now_secs \<and> now_secs < valid_before cert"

definition cert_names :: "'kd certificate \<Rightarrow> string \<Rightarrow> bool" where
  "cert_names cert user \<longleftrightarrow> valid_principals cert = [] \<or> user \<in> set (valid_principals cert)"

definition extension_ok :: "'kd certificate \<Rightarrow> 'key cert_authority_entry \<Rightarrow> bool" where
  "extension_ok cert ca \<longleftrightarrow>
     (''permit-port-forwarding'' \<in> set (ca_options ca) \<longrightarrow>
      ''permit-port-forwarding'' \<in> fst ` set (extensions cert))"

lemma check_extensions_iff: "check_extensions cert ca = Ok () \<longleftrightarrow> extension_ok cert ca"
  by (force simp: check_extensions_def extension_ok_def list_ex_iff)

lemma sa_authenticate_certificate_iff:
  "sa_authenticate_certificate api nets now c cert user client_ip = Ok () \<longleftrightarrow>
     (\<exists>ca. find (\<lambda>ca. signature_key cert = key_data api (ca_public_key ca)) (sa_cert_authorities c) = Some ca \<and>
        extension_ok cert ca) \<and>
     verify_signature cert \<and> cert_window cert now \<and> cert_names cert user \<and>
     list_all (critical_option_ok nets client_ip) (critical_options cert)"
  by (auto simp: sa_authenticate_certificate_def cert_window_def cert_names_def not_le not_less
      result_bind_Inr_iff check_critical_options_iff check_extensions_iff split: option.splits)

end
