(* ===== verification/Transport.thy ===== *)
theory Transport
  imports Rust_Net
begin

text \<open>
  The transport layer's metadata (\<open>transport/mod.rs\<close>): the kind of transport a connection came over
  and the information an acceptor hands to the server with each stream. The streams themselves are
  in \<open>Rust_Io\<close>.
\<close>

datatype transport_kind =
  Tcp
| Tls (tls_server_name: "string option")
| Iroh (iroh_endpoint_id: string)
| WebTransport (wt_server_name: "string option")

record transport_info =
  remote_addr :: "socket_addr option"
  transport_kind_of :: transport_kind

fun show_transport_kind :: "transport_kind \<Rightarrow> string" where
  "show_transport_kind Tcp = ''tcp''"
| "show_transport_kind (Tls _) = ''tls''"
| "show_transport_kind (Iroh _) = ''iroh''"
| "show_transport_kind (WebTransport _) = ''webtransport''"

fun is_tls :: "transport_kind \<Rightarrow> bool" where
  "is_tls (Tls _) = True"
| "is_tls _ = False"

fun is_iroh :: "transport_kind \<Rightarrow> bool" where
  "is_iroh (Iroh _) = True"
| "is_iroh _ = False"

end
