(* ===== verification/Identity.thy ===== *)
theory Identity
  imports Rust_Str
begin

text \<open>
  \<open>auth/identity.rs\<close>: who a connection speaks for. The provider built on the dynamic configuration
  is in \<open>Auth_Policy\<close>, next to the policy it reads.
\<close>

record identity =
  identity_id :: string
  scopes :: "string list"
  resources :: "(string, string list) hashmap"

record auth_token =
  raw :: bytes

text \<open>The identity the channel handlers fall back to before authentication.\<close>

definition anonymous_identity :: identity where
  "anonymous_identity = \<lparr>identity_id = [], scopes = [], resources = hm_empty\<rparr>"

end
