(* ===== verification/Forwarding.thy ===== *)
theory Forwarding
  imports Transport Identity
begin

text \<open>
  \<open>config/forwarding.rs\<close>: the policy that decides which destinations a connection may open. The
  networks of CIDR patterns come from the crate \<open>ipnetwork\<close>: their type is a type variable and the
  test \<open>IpNetwork::contains\<close> an argument of every function that reaches it.
\<close>

datatype forwarding_action = Allow | Deny

datatype 'net target_pattern =
  AnyTarget
| Host string
| Cidr 'net
| PortRange string u16 u16
| AlknetPrefix

definition ALKNET_PREFIX :: string where
  "ALKNET_PREFIX = ''alknet-''"

definition match_host_pattern :: "string \<Rightarrow> string \<Rightarrow> bool" where
  "match_host_pattern pattern target =
     (if pattern = target then True
      else if CHR ''*'' \<in> set pattern then
        case str_find pattern CHR ''*'' of
          Some pos \<Rightarrow>
            let prefix = take pos pattern; suffix = drop (pos + 1) pattern in
            starts_with target prefix \<and> ends_with target suffix \<and>
            length prefix + length suffix \<le> length target
        | None \<Rightarrow> False
      else False)"

definition match_cidr :: "('net \<Rightarrow> ip_addr \<Rightarrow> bool) \<Rightarrow> 'net \<Rightarrow> string \<Rightarrow> bool" where
  "match_cidr contains network target =
     (case parse_ip_addr target of None \<Rightarrow> False | Some addr \<Rightarrow> contains network addr)"

text \<open>\<open>Range<u16>\<close> excludes its end.\<close>

fun target_matches :: "('net \<Rightarrow> ip_addr \<Rightarrow> bool) \<Rightarrow> 'net target_pattern \<Rightarrow> string \<Rightarrow> u16 \<Rightarrow> bool" where
  "target_matches contains AnyTarget target port \<longleftrightarrow> True"
| "target_matches contains (Host pattern) target port \<longleftrightarrow> match_host_pattern pattern target"
| "target_matches contains (Cidr network) target port \<longleftrightarrow> match_cidr contains network target"
| "target_matches contains (PortRange host_pattern lo hi) target port \<longleftrightarrow>
     match_host_pattern host_pattern target \<and> (lo \<le> port \<and> port < hi)"
| "target_matches contains AlknetPrefix target port \<longleftrightarrow> starts_with target ALKNET_PREFIX"

record 'net forwarding_rule =
  target :: "'net target_pattern"
  action :: forwarding_action
  principals :: "string list"
  transports :: "transport_kind list"

definition matches_principal :: "'net forwarding_rule \<Rightarrow> identity \<Rightarrow> bool" where
  "matches_principal r ident =
     (if principals r = [] then True
      else list_ex (\<lambda>p. p = identity_id ident \<or> p \<in> set (scopes ident)) (principals r))"

definition matches_transport :: "'net forwarding_rule \<Rightarrow> transport_kind \<Rightarrow> bool" where
  "matches_transport r k = (if transports r = [] then True else k \<in> set (transports r))"

record 'net forwarding_policy =
  policy_default :: forwarding_action
  rules :: "'net forwarding_rule list"

definition allow_all :: "'net forwarding_policy" where
  "allow_all = \<lparr>policy_default = Allow, rules = []\<rparr>"

definition deny_all :: "'net forwarding_policy" where
  "deny_all = \<lparr>policy_default = Deny, rules = []\<rparr>"

definition rule_applies ::
  "('net \<Rightarrow> ip_addr \<Rightarrow> bool) \<Rightarrow> 'net forwarding_rule \<Rightarrow> string \<Rightarrow> u16 \<Rightarrow> identity \<Rightarrow> transport_kind \<Rightarrow> bool" where
  "rule_applies contains r tgt port ident k \<longleftrightarrow>
     target_matches contains (target r) tgt port \<and> matches_principal r ident \<and> matches_transport r k"

fun check_rules ::
  "('net \<Rightarrow> ip_addr \<Rightarrow> bool) \<Rightarrow> forwarding_action \<Rightarrow> 'net forwarding_rule list \<Rightarrow>
   string \<Rightarrow> u16 \<Rightarrow> identity \<Rightarrow> transport_kind \<Rightarrow> bool" where
  "check_rules contains dflt [] tgt port ident k \<longleftrightarrow> dflt = Allow"
| "check_rules contains dflt (r # rs) tgt port ident k \<longleftrightarrow>
     (if rule_applies contains r tgt port ident k then action r = Allow
      else check_rules contains dflt rs tgt port ident k)"

definition policy_check ::
  "('net \<Rightarrow> ip_addr \<Rightarrow> bool) \<Rightarrow> 'net forwarding_policy \<Rightarrow>
   string \<Rightarrow> u16 \<Rightarrow> identity \<Rightarrow> transport_kind \<Rightarrow> bool" where
  "policy_check contains p tgt port ident k =
     check_rules contains (policy_default p) (rules p) tgt port ident k"

section \<open>What a host pattern matches\<close>

lemma match_host_pattern_no_star:
  "CHR ''*'' \<notin> set pattern \<Longrightarrow> match_host_pattern pattern t \<longleftrightarrow> t = pattern"
  by (auto simp: match_host_pattern_def)

lemma prefix_suffix_split:
  "starts_with t p \<and> ends_with t s \<and> length p + length s \<le> length t \<longleftrightarrow> (\<exists>m. t = p @ m @ s)"
proof
  assume a: "starts_with t p \<and> ends_with t s \<and> length p + length s \<le> length t"
  then obtain u where u: "t = p @ u"
    unfolding starts_with_iff by blast
  moreover have "drop (length u - length s) u = s"
    using a u by (auto simp: ends_with_def)
  ultimately have "t = p @ take (length u - length s) u @ s"
    by (metis append_take_drop_id)
  then show "\<exists>m. t = p @ m @ s"
    by blast
qed (auto simp: starts_with_iff ends_with_iff)

lemma match_host_pattern_star:
  assumes "CHR ''*'' \<notin> set pre"
  shows "match_host_pattern (pre @ CHR ''*'' # suf) t \<longleftrightarrow> (\<exists>m. t = pre @ m @ suf)"
proof -
  have "str_find (pre @ CHR ''*'' # suf) CHR ''*'' = Some (length pre)"
    using assms by (rule str_find_append)
  then have "match_host_pattern (pre @ CHR ''*'' # suf) t \<longleftrightarrow>
      t = pre @ CHR ''*'' # suf \<or> (\<exists>m. t = pre @ m @ suf)"
    by (auto simp: match_host_pattern_def prefix_suffix_split [symmetric])
  then show ?thesis
    by (metis append_Cons append_Nil)
qed

section \<open>First match\<close>

lemma check_rules_first_match:
  "check_rules contains dflt rs tgt port ident k \<longleftrightarrow>
     (\<exists>i < length rs. rule_applies contains (rs ! i) tgt port ident k \<and> action (rs ! i) = Allow \<and>
        (\<forall>j < i. \<not> rule_applies contains (rs ! j) tgt port ident k)) \<or>
     (\<forall>r \<in> set rs. \<not> rule_applies contains r tgt port ident k) \<and> dflt = Allow"
proof (induction rs)
  case (Cons r rs)
  show ?case
  proof (cases "rule_applies contains r tgt port ident k")
    case True
    have "(\<exists>i < length (r # rs). rule_applies contains ((r # rs) ! i) tgt port ident k \<and>
        action ((r # rs) ! i) = Allow \<and>
        (\<forall>j < i. \<not> rule_applies contains ((r # rs) ! j) tgt port ident k)) \<longleftrightarrow> action r = Allow"
      using True by (auto simp: nth_Cons' gr0_conv_Suc split: if_splits)
    then show ?thesis
      using True by simp
  next
    case False
    then show ?thesis
      using Cons.IH by (simp add: Ex_less_Suc2 All_less_Suc2)
  qed
qed simp

lemma check_rules_append:
  "check_rules contains dflt (rs @ rs') tgt port ident k =
     (if \<exists>r \<in> set rs. rule_applies contains r tgt port ident k
      then check_rules contains dflt rs tgt port ident k
      else check_rules contains dflt rs' tgt port ident k)"
  by (induction rs) auto

text \<open>An address whose text parses is matched by a CIDR pattern exactly when the network contains it.\<close>

lemma match_cidr_show_ipv4: "match_cidr contains n (show_ipv4 a b c d) = contains n (V4 a b c d)"
  by (simp add: match_cidr_def parse_ip_addr_show_ipv4)

lemma first_occurrence_unique:
  "pre' @ c # suf' = pre @ c # suf \<Longrightarrow> c \<notin> set pre' \<Longrightarrow> c \<notin> set pre \<Longrightarrow> pre' = pre \<and> suf' = suf"
proof (induction pre' arbitrary: pre)
  case Nil
  then show ?case by (cases pre) auto
next
  case (Cons a pre')
  then show ?case by (cases pre) auto
qed

section \<open>Properties\<close>

text \<open>What a host pattern matches: without a star, exactly the host it names; with one, exactly the
  hosts that consist of the text before the first star, anything at all, and the text after it. In
  particular a star matches the empty string, crosses dots, and later stars are literal.\<close>

theorem match_host_pattern_spec:
  "match_host_pattern pattern t \<longleftrightarrow>
     (if CHR ''*'' \<in> set pattern
      then \<exists>pre mid suf. pattern = pre @ CHR ''*'' # suf \<and> CHR ''*'' \<notin> set pre \<and> t = pre @ mid @ suf
      else t = pattern)"
proof (cases "CHR ''*'' \<in> set pattern")
  case True
  then obtain pre suf where p: "pattern = pre @ CHR ''*'' # suf" "CHR ''*'' \<notin> set pre"
    by (metis split_list_first)
  have "pre' = pre \<and> suf' = suf" if "pattern = pre' @ CHR ''*'' # suf'" "CHR ''*'' \<notin> set pre'" for pre' suf'
    by (rule first_occurrence_unique [OF _ that(2) p(2)]) (simp add: that(1) [symmetric] p(1) [symmetric])
  then have "(\<exists>pre mid suf. pattern = pre @ CHR ''*'' # suf \<and> CHR ''*'' \<notin> set pre \<and> t = pre @ mid @ suf) \<longleftrightarrow>
      (\<exists>mid. t = pre @ mid @ suf)"
    using p by blast
  then show ?thesis
    using True p(1) match_host_pattern_star [OF p(2), of suf t] by simp
qed (simp add: match_host_pattern_no_star)

text \<open>C4. The forwarding policy is a first-match policy: a destination is allowed exactly when the first
  rule that applies to it, to the identity and to the transport allows it, or when no rule applies
  and the default allows.\<close>

theorem policy_first_match:
  "policy_check contains p tgt port ident k \<longleftrightarrow>
     (\<exists>i < length (rules p). rule_applies contains (rules p ! i) tgt port ident k \<and>
        action (rules p ! i) = Allow \<and>
        (\<forall>j < i. \<not> rule_applies contains (rules p ! j) tgt port ident k)) \<or>
     (\<forall>r \<in> set (rules p). \<not> rule_applies contains r tgt port ident k) \<and> policy_default p = Allow"
  unfolding policy_check_def by (rule check_rules_first_match)

definition example_rules :: "unit forwarding_rule list" where
  "example_rules =
     [\<lparr>target = Host ''*.internal'', action = Deny, principals = [], transports = []\<rparr>,
      \<lparr>target = PortRange ''*'' 80 82, action = Allow, principals = [''web''], transports = [Tcp]\<rparr>]"

theorem policy_first_match_witness:
  "policy_check (\<lambda>_ _. False) \<lparr>policy_default = Deny, rules = example_rules\<rparr> ''db.example'' 81
     \<lparr>identity_id = ''x'', scopes = [''web''], resources = []\<rparr> Tcp"
proof -
  let ?i = "\<lparr>identity_id = ''x'', scopes = [''web''], resources = []\<rparr>"
  have "\<not> rule_applies (\<lambda>_ _. False) (example_rules ! 0) ''db.example'' 81 ?i Tcp"
    "rule_applies (\<lambda>_ _. False) (example_rules ! 1) ''db.example'' 81 ?i Tcp"
    "action (example_rules ! 1) = Allow" "length example_rules = 2"
    by code_simp+
  then show ?thesis
    by (subst policy_first_match) (auto intro!: exI [of _ 1] simp: less_Suc_eq)
qed

end
