(* ===== verification/Dynamic_Config.thy ===== *)
theory Dynamic_Config
  imports Server_Auth Forwarding
begin

text \<open>
  \<open>config/dynamic_config.rs\<close>, \<open>credentials/mod.rs\<close>, \<open>auth/identity.rs\<close>, \<open>auth/auth_protocol.rs\<close> and
  \<open>config/config_service.rs\<close>: the configuration a server can replace while it runs, and the services
  that answer from it. \<open>ArcSwap\<close> is a cell whose content a reload replaces as a whole, so a reader
  sees one configuration; the cell is explicit in \<open>reload\<close> and a reader takes the configuration it
  loaded as an argument. \<open>sha256_hex\<close> is the hexadecimal SHA-256 digest of crates \<open>sha2\<close> and \<open>hex\<close>.
\<close>

section \<open>Credentials\<close>

datatype credential_set =
  ApiKey (header_name: string) (token: string)
| Basic (username: string) (password: string)
| Bearer (token: string)
| S3AccessKey (access_key: string) (secret_key: string) (session_token: "string option")
| OidcToken (access_token: string) (refresh_token: "string option") (oidc_expires_at: "u64 option")
| Custom (scheme: string) (params: "(string, string) hashmap")

section \<open>Authentication policy\<close>

record api_key_entry =
  api_prefix :: string
  api_hash :: string
  api_scopes :: "string list"
  api_description :: string
  expires_at :: "u64 option"

definition API_KEY_PREFIX :: string where
  "API_KEY_PREFIX = ''alk_''"

record 'key auth_policy =
  authorized_keys :: "'key list"
  cert_authorities :: "'key cert_authority_entry list"
  api_keys :: "api_key_entry list"
  encoded_keys :: "bytes list"
  fingerprint_to_key :: "(string, 'key) hashmap"

definition with_api_keys ::
  "('key, 'kd) key_api \<Rightarrow> 'key list \<Rightarrow> 'key cert_authority_entry list \<Rightarrow> api_key_entry list \<Rightarrow> 'key auth_policy" where
  "with_api_keys api keys cas apis =
     \<lparr>authorized_keys = keys, cert_authorities = cas, api_keys = apis,
      encoded_keys = remdups (map (encode_key_data api) keys),
      fingerprint_to_key = hm_collect (map (\<lambda>k. (fingerprint api k, k)) keys)\<rparr>"

definition auth_policy_new ::
  "('key, 'kd) key_api \<Rightarrow> 'key list \<Rightarrow> 'key cert_authority_entry list \<Rightarrow> 'key auth_policy" where
  "auth_policy_new api keys cas = with_api_keys api keys cas []"

definition from_server_auth_config ::
  "('key, 'kd) key_api \<Rightarrow> 'key server_auth_config \<Rightarrow> 'key auth_policy" where
  "from_server_auth_config api c = auth_policy_new api (sa_authorized_keys c) (sa_cert_authorities c)"

definition auth_policy_empty :: "('key, 'kd) key_api \<Rightarrow> 'key auth_policy" where
  "auth_policy_empty api = auth_policy_new api [] []"

definition resolve_identity_from_fingerprint :: "'key auth_policy \<Rightarrow> string \<Rightarrow> identity option" where
  "resolve_identity_from_fingerprint p fp =
     (if hm_contains_key (fingerprint_to_key p) fp
      then Some \<lparr>identity_id = fp, scopes = [''relay:connect''], resources = hm_empty\<rparr>
      else None)"

definition resolve_api_key ::
  "(bytes \<Rightarrow> string) \<Rightarrow> u64 \<Rightarrow> 'key auth_policy \<Rightarrow> string \<Rightarrow> identity option outcome" where
  "resolve_api_key sha256_hex now_secs p tok =
     (if \<not> starts_with tok API_KEY_PREFIX then Returns None
      else outcome_bind (slice_to tok (min (length tok) 8)) (\<lambda>prefix_part.
        case find (\<lambda>e. starts_with prefix_part (api_prefix e)) (api_keys p) of
          None \<Rightarrow> Returns None
        | Some entry \<Rightarrow>
            if api_hash entry \<noteq> ''sha256:'' @ sha256_hex (as_bytes tok) then Returns None
            else if (case expires_at entry of Some t \<Rightarrow> t \<le> now_secs | None \<Rightarrow> False) then Returns None
            else Returns (Some \<lparr>identity_id = api_prefix entry, scopes = api_scopes entry,
                                resources = hm_empty\<rparr>)))"

definition authenticate_publickey ::
  "('key, 'kd) key_api \<Rightarrow> 'key auth_policy \<Rightarrow> 'key \<Rightarrow> auth_error + unit" where
  "authenticate_publickey api p key =
     (if encode_key_data api key \<in> set (encoded_keys p) then Ok () else Err KeyRejected)"

text \<open>The certificate checks of this file are private copies of the ones in \<open>Server_Auth\<close>; the lemma
  \<open>authenticate_certificate_from_config\<close> says that the copies agree.\<close>

fun dc_check_source_patterns :: "'net net_api \<Rightarrow> string list \<Rightarrow> ip_addr \<Rightarrow> bool" where
  "dc_check_source_patterns nets [] ip = False"
| "dc_check_source_patterns nets (p # ps) ip =
     (let pattern = str_trim p in
      if pattern = [] then dc_check_source_patterns nets ps ip
      else if (case net_from_str nets pattern of Some cidr \<Rightarrow> net_contains nets cidr ip | None \<Rightarrow> False)
      then True
      else if (case parse_ip_addr pattern of Some net_ip \<Rightarrow> net_ip = ip | None \<Rightarrow> False) then True
      else dc_check_source_patterns nets ps ip)"

definition dc_check_source_address :: "'net net_api \<Rightarrow> string \<Rightarrow> ip_addr option \<Rightarrow> bool" where
  "dc_check_source_address nets allowed client_ip =
     (case client_ip of None \<Rightarrow> False
      | Some ip \<Rightarrow> dc_check_source_patterns nets (str_split allowed (CHR '','')) ip)"

fun dc_check_critical_options ::
  "'net net_api \<Rightarrow> (string \<times> string) list \<Rightarrow> ip_addr option \<Rightarrow> auth_error + unit" where
  "dc_check_critical_options nets [] client_ip = Ok ()"
| "dc_check_critical_options nets ((name, data) # opts) client_ip =
     (if name = ''source-address'' then
        if \<not> dc_check_source_address nets data client_ip then Err CertInvalid
        else dc_check_critical_options nets opts client_ip
      else if name = ''force-command'' then dc_check_critical_options nets opts client_ip
      else if name = ''no-pty'' then dc_check_critical_options nets opts client_ip
      else Err CertInvalid)"

definition dc_check_extensions :: "'kd certificate \<Rightarrow> 'key cert_authority_entry \<Rightarrow> auth_error + unit" where
  "dc_check_extensions cert ca =
     (if ''permit-port-forwarding'' \<in> set (ca_options ca) then
        if \<not> list_ex (\<lambda>(n, _). n = ''permit-port-forwarding'') (extensions cert) then Err CertInvalid
        else Ok ()
      else Ok ())"

definition authenticate_certificate ::
  "('key, 'kd) key_api \<Rightarrow> 'net net_api \<Rightarrow> u64 \<Rightarrow> 'key auth_policy \<Rightarrow> 'kd certificate \<Rightarrow>
   string \<Rightarrow> ip_addr option \<Rightarrow> auth_error + unit" where
  "authenticate_certificate api nets now_secs p cert user client_ip =
     (case find (\<lambda>ca. signature_key cert = key_data api (ca_public_key ca)) (cert_authorities p) of
        None \<Rightarrow> Err CertInvalid
      | Some ca_entry \<Rightarrow>
          if \<not> verify_signature cert then Err CertInvalid
          else if now_secs < valid_after cert \<or> valid_before cert \<le> now_secs then Err CertExpired
          else if valid_principals cert \<noteq> [] \<and> user \<notin> set (valid_principals cert)
          then Err CertPrincipalMismatch
          else result_bind (dc_check_critical_options nets (critical_options cert) client_ip) (\<lambda>_.
               dc_check_extensions cert ca_entry))"

section \<open>The dynamic configuration\<close>

record rate_limit_config =
  max_connections_per_ip :: nat
  max_auth_attempts :: nat

definition rate_limit_config_default :: rate_limit_config where
  "rate_limit_config_default = \<lparr>max_connections_per_ip = 0, max_auth_attempts = 10\<rparr>"

record ('key, 'net) dynamic_config =
  auth :: "'key auth_policy"
  forwarding :: "'net forwarding_policy"
  rate_limits :: rate_limit_config
  credentials :: "(string, credential_set) hashmap"

definition dynamic_config_new :: "'key auth_policy \<Rightarrow> ('key, 'net) dynamic_config" where
  "dynamic_config_new a =
     \<lparr>auth = a, forwarding = allow_all, rate_limits = rate_limit_config_default, credentials = hm_empty\<rparr>"

definition from_parts ::
  "'key auth_policy \<Rightarrow> 'net forwarding_policy \<Rightarrow> rate_limit_config \<Rightarrow> ('key, 'net) dynamic_config" where
  "from_parts a f l = \<lparr>auth = a, forwarding = f, rate_limits = l, credentials = hm_empty\<rparr>"

definition with_forwarding_policy ::
  "'net forwarding_policy \<Rightarrow> ('key, 'net) dynamic_config \<Rightarrow> ('key, 'net) dynamic_config" where
  "with_forwarding_policy f c = c\<lparr>forwarding := f\<rparr>"

definition with_rate_limits ::
  "rate_limit_config \<Rightarrow> ('key, 'net) dynamic_config \<Rightarrow> ('key, 'net) dynamic_config" where
  "with_rate_limits l c = c\<lparr>rate_limits := l\<rparr>"

definition with_credentials ::
  "(string, credential_set) hashmap \<Rightarrow> ('key, 'net) dynamic_config \<Rightarrow> ('key, 'net) dynamic_config" where
  "with_credentials cs c = c\<lparr>credentials := cs\<rparr>"

definition dynamic_config_default :: "('key, 'kd) key_api \<Rightarrow> ('key, 'net) dynamic_config" where
  "dynamic_config_default api = dynamic_config_new (auth_policy_empty api)"

text \<open>The shared cell: \<open>store\<close> replaces the configuration.\<close>

definition reload ::
  "('key, 'net) dynamic_config \<Rightarrow> ('key, 'net) dynamic_config \<Rightarrow> ('key, 'net) dynamic_config" where
  "reload new_config _ = new_config"

section \<open>Services over the configuration\<close>

definition resolve_from_fingerprint :: "('key, 'net) dynamic_config \<Rightarrow> string \<Rightarrow> identity option" where
  "resolve_from_fingerprint c fp = resolve_identity_from_fingerprint (auth c) fp"

definition resolve_from_token ::
  "(bytes \<Rightarrow> string) \<Rightarrow> u64 \<Rightarrow> ('key, 'net) dynamic_config \<Rightarrow> auth_token \<Rightarrow> identity option outcome" where
  "resolve_from_token sha256_hex now_secs c tok =
     (let token_str = from_utf8_lossy (raw tok) in
      if starts_with token_str API_KEY_PREFIX then resolve_api_key sha256_hex now_secs (auth c) token_str
      else Returns None)"

datatype auth_result = AuthOk identity | Denied string

definition verify_pubkey :: "('key, 'net) dynamic_config \<Rightarrow> string \<Rightarrow> auth_result" where
  "verify_pubkey c fp =
     (case resolve_from_fingerprint c fp of
        Some ident \<Rightarrow> AuthOk ident
      | None \<Rightarrow> Denied (''key not authorized: '' @ fp))"

definition verify_token ::
  "(bytes \<Rightarrow> string) \<Rightarrow> u64 \<Rightarrow> ('key, 'net) dynamic_config \<Rightarrow> auth_token \<Rightarrow> auth_result outcome" where
  "verify_token sha256_hex now_secs c tok =
     outcome_bind (resolve_from_token sha256_hex now_secs c tok) (\<lambda>r.
     Returns (case r of Some ident \<Rightarrow> AuthOk ident | None \<Rightarrow> Denied ''token verification failed''))"

text \<open>\<open>reload_keys\<close> stores the configuration that is there.\<close>

definition reload_keys :: "('key, 'net) dynamic_config \<Rightarrow> ('key, 'net) dynamic_config" where
  "reload_keys c = c"

definition check_access :: "identity \<Rightarrow> string \<Rightarrow> auth_result" where
  "check_access ident operation =
     (if operation \<in> set (scopes ident) then AuthOk ident
      else Denied (''identity '' @ identity_id ident @ '' lacks scope: '' @ operation))"

definition config_get_credentials :: "('key, 'net) dynamic_config \<Rightarrow> string \<Rightarrow> credential_set option" where
  "config_get_credentials c service = hm_get (credentials c) service"

definition config_refresh_credentials :: "('key, 'net) dynamic_config \<Rightarrow> string \<Rightarrow> credential_set option" where
  "config_refresh_credentials c service = config_get_credentials c service"

definition secret_store_get_credentials :: "string \<Rightarrow> credential_set option" where
  "secret_store_get_credentials service = None"

definition service_forwarding_policy :: "('key, 'net) dynamic_config \<Rightarrow> 'net forwarding_policy" where
  "service_forwarding_policy c = forwarding c"

definition service_rate_limits :: "('key, 'net) dynamic_config \<Rightarrow> rate_limit_config" where
  "service_rate_limits c = rate_limits c"

section \<open>Lemmas\<close>

lemma resolve_fingerprint_with_api_keys:
  "resolve_identity_from_fingerprint (with_api_keys api keys cas apis) fp =
     (if fp \<in> fingerprint api ` set keys
      then Some \<lparr>identity_id = fp, scopes = [''relay:connect''], resources = hm_empty\<rparr> else None)"
  by (auto simp: resolve_identity_from_fingerprint_def with_api_keys_def hm_contains_key_collect
      image_image)

lemma authenticate_publickey_with_api_keys:
  "authenticate_publickey api (with_api_keys api keys cas apis) key = Ok () \<longleftrightarrow>
     encode_key_data api key \<in> encode_key_data api ` set keys"
  by (simp add: authenticate_publickey_def with_api_keys_def)

lemma dc_check_source_patterns_eq: "dc_check_source_patterns nets ps ip = check_source_patterns nets ps ip"
  by (induction ps) (simp_all add: Let_def)

lemma dc_check_source_address_eq: "dc_check_source_address nets s cip = check_source_address nets s cip"
  by (simp add: dc_check_source_address_def check_source_address_def dc_check_source_patterns_eq
      split: option.split)

lemma dc_check_critical_options_eq:
  "dc_check_critical_options nets opts cip = check_critical_options nets opts cip"
  by (induction nets opts cip rule: check_critical_options.induct)
     (simp_all add: dc_check_source_address_eq)

lemma dc_check_extensions_eq: "dc_check_extensions cert ca = check_extensions cert ca"
  by (simp add: dc_check_extensions_def check_extensions_def)

lemmas dc_checks_agree = dc_check_critical_options_eq dc_check_extensions_eq

lemma authenticate_certificate_from_config:
  "authenticate_certificate api nets now (from_server_auth_config api c) cert user ip =
     sa_authenticate_certificate api nets now c cert user ip"
  by (simp add: authenticate_certificate_def sa_authenticate_certificate_def
      from_server_auth_config_def auth_policy_new_def with_api_keys_def dc_checks_agree
      split: option.split)

lemma resolve_api_key_panics_iff:
  "resolve_api_key h now p tok = Panics \<longleftrightarrow>
     starts_with tok API_KEY_PREFIX \<and> 8 < length tok \<and> is_cont (byte_val (tok ! 8))"
  by (auto simp: resolve_api_key_def slice_to_def is_char_boundary_def min_def Let_def
      split: option.splits)

lemma resolve_api_key_Some_iff:
  "resolve_api_key h now p tok = Returns (Some ident) \<longleftrightarrow>
     starts_with tok API_KEY_PREFIX \<and> is_char_boundary tok (min (length tok) 8) \<and>
     (\<exists>e. find (\<lambda>e. starts_with (take 8 tok) (api_prefix e)) (api_keys p) = Some e \<and>
        api_hash e = ''sha256:'' @ h (as_bytes tok) \<and>
        (\<forall>t. expires_at e = Some t \<longrightarrow> now < t) \<and>
        ident = \<lparr>identity_id = api_prefix e, scopes = api_scopes e, resources = hm_empty\<rparr>)"
proof -
  have "take (min (length tok) 8) tok = take 8 tok"
    by (simp add: min_def)
  then show ?thesis
    by (auto simp: resolve_api_key_def slice_to_def outcome_bind_def not_le split: option.splits)
qed

text \<open>C8. A certificate is accepted exactly when it should be. The policy that can be reloaded and the static
  one decide alike, and the policy accepts a certificate for a user at an address if and only if the
  first authority on the list with the signing key does not ask for an extension the certificate
  lacks, the signature verifies, the time lies in the window of validity (its end excluded), the
  certificate names the user or nobody, and every critical option is a known one and, for a source
  list, one of its entries covers the address.\<close>

theorem certificate_accepted_iff:
  "authenticate_certificate api nets now (from_server_auth_config api c) cert user ip =
     sa_authenticate_certificate api nets now c cert user ip \<and>
   (authenticate_certificate api nets now p cert user ip = Ok () \<longleftrightarrow>
     (\<exists>ca. find (\<lambda>ca. signature_key cert = key_data api (ca_public_key ca)) (cert_authorities p) = Some ca \<and>
        extension_ok cert ca) \<and>
     verify_signature cert \<and> cert_window cert now \<and> cert_names cert user \<and>
     list_all (critical_option_ok nets ip) (critical_options cert))"
proof -
  have "authenticate_certificate api nets now p cert user ip = Ok () \<longleftrightarrow>
     (\<exists>ca. find (\<lambda>ca. signature_key cert = key_data api (ca_public_key ca)) (cert_authorities p) = Some ca \<and>
        extension_ok cert ca) \<and>
     verify_signature cert \<and> cert_window cert now \<and> cert_names cert user \<and>
     list_all (critical_option_ok nets ip) (critical_options cert)"
    by (auto simp: authenticate_certificate_def cert_window_def cert_names_def not_le not_less dc_checks_agree
        result_bind_Inr_iff check_critical_options_iff check_extensions_iff split: option.splits)
  then show ?thesis
    by (simp add: authenticate_certificate_from_config)
qed

end
