(* ===== verification/Call_Registry.thy ===== *)
theory Call_Registry
  imports Call_Envelope Dynamic_Config
begin

text \<open>
  \<open>call/spec.rs\<close>, \<open>call/registry.rs\<close>, \<open>call/context.rs\<close>, \<open>call/env.rs\<close> and \<open>call/services.rs\<close>:
  operations, who may call them, and how a call is dispatched.

  A handler is code the application registers; it receives a context that holds the registry again.
  A handler is therefore a name here: \<open>ServicesList\<close> and \<open>ServicesSchema\<close> for the two the crate
  registers, \<open>App h\<close> for the application's, and \<open>run\<close>, the behaviour of the application's handlers,
  is an argument of \<open>invoke\<close>. Handlers answer with an envelope and are otherwise pure. A credential
  provider is the function \<open>get_credentials\<close>.
\<close>

section \<open>Operations and access control\<close>

datatype operation_type = Query | Mutation | Subscription

record access_control =
  required_scopes :: "string list"
  required_scopes_any :: "string list option"
  resource_type :: "string option"
  resource_action :: "string option"

record operation_spec =
  spec_name :: string
  namespace :: string
  op_type :: operation_type
  input_schema :: json
  output_schema :: json
  access :: access_control

fun all_scopes :: "string list \<Rightarrow> identity \<Rightarrow> bool" where
  "all_scopes [] ident = True"
| "all_scopes (s # ss) ident = (if s \<notin> set (scopes ident) then False else all_scopes ss ident)"

definition access_check :: "access_control \<Rightarrow> identity \<Rightarrow> bool" where
  "access_check ac ident =
     (if \<not> all_scopes (required_scopes ac) ident then False
      else if (case required_scopes_any ac of
                 Some any \<Rightarrow> \<not> list_ex (\<lambda>s. s \<in> set (scopes ident)) any | None \<Rightarrow> False) then False
      else case resource_type ac of
             Some res_type \<Rightarrow>
               (case hm_get (resources ident) res_type of
                  Some actions \<Rightarrow>
                    (case resource_action ac of Some a \<Rightarrow> a \<in> set actions | None \<Rightarrow> True)
                | None \<Rightarrow> False)
           | None \<Rightarrow> True)"

definition has_restrictions :: "access_control \<Rightarrow> bool" where
  "has_restrictions ac \<longleftrightarrow>
     required_scopes ac \<noteq> [] \<or> required_scopes_any ac \<noteq> None \<or> resource_type ac \<noteq> None"

definition spec_path :: "operation_spec \<Rightarrow> string" where
  "spec_path s = ''/'' @ spec_name s"

definition namespace_from_name :: "string \<Rightarrow> string" where
  "namespace_from_name name =
     (let parts = str_split (trim_start_matches name (CHR ''/'')) (CHR ''/'') in
      if 3 \<le> length parts then parts ! 1
      else if 2 \<le> length parts then parts ! 0
      else [])"

section \<open>Registry\<close>

datatype 'h handler = ServicesList | ServicesSchema | App 'h

record 'h operation_registry =
  operations :: "(string, operation_spec \<times> 'h handler) hashmap"

record 'h operation_env =
  env_registry :: "'h operation_registry"
  get_credentials :: "string \<Rightarrow> credential_set option"

record 'h operation_context =
  request_id :: string
  parent_request_id :: "string option"
  ctx_identity :: "identity option"
  metadata :: "(string, json) hashmap"
  ctx_env :: "'h operation_env"
  trusted :: bool

type_synonym 'h runner = "'h \<Rightarrow> json \<Rightarrow> 'h operation_context \<Rightarrow> response_envelope"

definition registry_new :: "'h operation_registry" where
  "registry_new = \<lparr>operations = hm_empty\<rparr>"

definition register :: "operation_spec \<Rightarrow> 'h handler \<Rightarrow> 'h operation_registry \<Rightarrow> 'h operation_registry" where
  "register spec h r = r\<lparr>operations := hm_insert (spec_name spec) (spec, h) (operations r)\<rparr>"

definition lookup_operation :: "'h operation_registry \<Rightarrow> string \<Rightarrow> (operation_spec \<times> 'h handler) option" where
  "lookup_operation r name = hm_get (operations r) name"

definition list_operations :: "'h operation_registry \<Rightarrow> operation_spec list" where
  "list_operations r = map fst (hm_values (operations r))"

fun show_op_type :: "operation_type \<Rightarrow> string" where
  "show_op_type Query = ''query''"
| "show_op_type Mutation = ''mutation''"
| "show_op_type Subscription = ''subscription''"

definition services_list_handler :: "json \<Rightarrow> 'h operation_context \<Rightarrow> response_envelope" where
  "services_list_handler input ctx =
     (let ops = map (\<lambda>spec. JObject [(''name'', JString (spec_name spec)),
                  (''namespace'', JString (namespace spec)),
                  (''op_type'', JString (show_op_type (op_type spec)))])
                (list_operations (env_registry (ctx_env ctx))) in
      response_ok (request_id ctx) (JObject [(''operations'', JArray ops)]))"

definition services_schema_handler :: "json \<Rightarrow> 'h operation_context \<Rightarrow> response_envelope" where
  "services_schema_handler input ctx =
     (case Option.bind (json_get input ''name'') as_str of
        None \<Rightarrow> response_err (request_id ctx) ''INVALID_INPUT'' ''missing required field: name'' False
      | Some name \<Rightarrow>
          (case lookup_operation (env_registry (ctx_env ctx)) name of
             Some (spec, _) \<Rightarrow>
               response_ok (request_id ctx)
                 (JObject [(''name'', JString (spec_name spec)),
                    (''namespace'', JString (namespace spec)),
                    (''op_type'', JString (show_op_type (op_type spec))),
                    (''input_schema'', input_schema spec), (''output_schema'', output_schema spec)])
           | None \<Rightarrow>
               response_err (request_id ctx) ''NOT_FOUND'' (''operation not found: '' @ name) False))"

fun run_handler :: "'h runner \<Rightarrow> 'h handler \<Rightarrow> json \<Rightarrow> 'h operation_context \<Rightarrow> response_envelope" where
  "run_handler run ServicesList input ctx = services_list_handler input ctx"
| "run_handler run ServicesSchema input ctx = services_schema_handler input ctx"
| "run_handler run (App h) input ctx = run h input ctx"

definition invoke ::
  "'h runner \<Rightarrow> 'h operation_registry \<Rightarrow> string \<Rightarrow> json \<Rightarrow> 'h operation_context \<Rightarrow> response_envelope" where
  "invoke run r name input ctx =
     (case lookup_operation r name of
        Some (spec, h) \<Rightarrow>
          if \<not> trusted ctx then
            (case ctx_identity ctx of
               Some ident \<Rightarrow>
                 if \<not> access_check (access spec) ident
                 then response_err (request_id ctx) ''FORBIDDEN'' ''access denied'' False
                 else run_handler run h input ctx
             | None \<Rightarrow>
                 if has_restrictions (access spec)
                 then response_err (request_id ctx) ''FORBIDDEN'' ''authentication required'' False
                 else run_handler run h input ctx)
          else run_handler run h input ctx
      | None \<Rightarrow> response_err (request_id ctx) ''NOT_FOUND'' (''operation not found: '' @ name) False)"

section \<open>Environment\<close>

definition env_local :: "'h operation_registry \<Rightarrow> 'h operation_env" where
  "env_local r = \<lparr>env_registry = r, get_credentials = secret_store_get_credentials\<rparr>"

definition with_credential_provider ::
  "'h operation_registry \<Rightarrow> (string \<Rightarrow> credential_set option) \<Rightarrow> 'h operation_env" where
  "with_credential_provider r p = \<lparr>env_registry = r, get_credentials = p\<rparr>"

definition env_credentials :: "'h operation_env \<Rightarrow> string \<Rightarrow> credential_set option" where
  "env_credentials e service = get_credentials e service"

definition env_invoke :: "'h runner \<Rightarrow> 'h operation_env \<Rightarrow> string \<Rightarrow> string \<Rightarrow> json \<Rightarrow> response_envelope" where
  "env_invoke run e ns operation input =
     (let name = ''/'' @ ns @ ''/'' @ operation;
          ctx = \<lparr>request_id = ''env'' @ name, parent_request_id = None, ctx_identity = None,
                 metadata = hm_empty, ctx_env = e, trusted = True\<rparr> in
      invoke run (env_registry e) name input ctx)"

section \<open>Default operations\<close>

definition unrestricted :: access_control where
  "unrestricted = \<lparr>required_scopes = [], required_scopes_any = None, resource_type = None, resource_action = None\<rparr>"

definition json_type :: "string \<Rightarrow> json" where
  "json_type t = JObject [(''type'', JString t)]"

definition services_list_spec :: operation_spec where
  "services_list_spec =
     \<lparr>spec_name = SERVICE_LIST, namespace = ''services'', op_type = Query,
      input_schema = JObject [(''type'', JString ''object''), (''properties'', JObject [])],
      output_schema = JObject [(''type'', JString ''array''),
        (''items'', JObject [(''type'', JString ''object''),
          (''properties'', JObject [(''name'', json_type ''string''),
             (''namespace'', json_type ''string''), (''op_type'', json_type ''string'')])])],
      access = unrestricted\<rparr>"

definition services_schema_spec :: operation_spec where
  "services_schema_spec =
     \<lparr>spec_name = SERVICE_SCHEMA, namespace = ''services'', op_type = Query,
      input_schema = JObject [(''type'', JString ''object''),
        (''properties'', JObject [(''name'', json_type ''string'')]),
        (''required'', JArray [JString ''name''])],
      output_schema = JObject [(''type'', JString ''object''),
        (''properties'', JObject [(''name'', json_type ''string''),
           (''namespace'', json_type ''string''), (''op_type'', json_type ''string''),
           (''input_schema'', json_type ''object''), (''output_schema'', json_type ''object'')])],
      access = unrestricted\<rparr>"

definition register_default_operations :: "'h operation_registry \<Rightarrow> 'h operation_registry" where
  "register_default_operations r =
     register services_schema_spec ServicesSchema (register services_list_spec ServicesList r)"

section \<open>Access, declaratively\<close>

definition grants :: "identity \<Rightarrow> access_control \<Rightarrow> bool" where
  "grants ident ac \<longleftrightarrow>
     set (required_scopes ac) \<subseteq> set (scopes ident) \<and>
     (\<forall>any. required_scopes_any ac = Some any \<longrightarrow> set any \<inter> set (scopes ident) \<noteq> {}) \<and>
     (\<forall>t. resource_type ac = Some t \<longrightarrow>
        (\<exists>actions. hm_get (resources ident) t = Some actions \<and>
           (\<forall>a. resource_action ac = Some a \<longrightarrow> a \<in> set actions)))"

lemma all_scopes_iff: "all_scopes ss ident \<longleftrightarrow> set ss \<subseteq> set (scopes ident)"
  by (induction ss) auto

lemma access_check_grants: "access_check ac ident \<longleftrightarrow> grants ident ac"
  by (auto simp: access_check_def grants_def all_scopes_iff list_ex_iff split: option.splits)

lemma has_restrictions_anonymous: "has_restrictions ac \<longleftrightarrow> \<not> grants anonymous_identity ac"
  by (auto simp: has_restrictions_def grants_def anonymous_identity_def)

lemma unrestricted_grants: "\<not> has_restrictions ac \<Longrightarrow> grants ident ac"
  by (auto simp: has_restrictions_def grants_def)

lemma unrestricted_default [simp]:
  "\<not> has_restrictions (access services_list_spec)"
  "\<not> has_restrictions (access services_schema_spec)"
  by (simp_all add: has_restrictions_def services_list_spec_def services_schema_spec_def unrestricted_def)

lemma grants_mono:
  assumes "grants ident ac" "set (scopes ident) \<subseteq> set (scopes ident')"
    and "\<And>t actions. hm_get (resources ident) t = Some actions \<Longrightarrow>
      \<exists>actions'. hm_get (resources ident') t = Some actions' \<and> set actions \<subseteq> set actions'"
  shows "grants ident' ac"
  using assms unfolding grants_def by (intro conjI allI impI) (blast | fastforce)+

text \<open>Whom a context speaks for: without an identity it is the anonymous one.\<close>

definition caller_may :: "'h operation_context \<Rightarrow> operation_spec \<Rightarrow> bool" where
  "caller_may ctx spec \<longleftrightarrow>
     trusted ctx \<or> grants (case ctx_identity ctx of Some i \<Rightarrow> i | None \<Rightarrow> anonymous_identity) (access spec)"

lemma invoke_runs:
  assumes "lookup_operation r name = Some (spec, h)" "caller_may ctx spec"
  shows "invoke run r name input ctx = run_handler run h input ctx"
  using assms
  by (auto simp: invoke_def caller_may_def access_check_grants has_restrictions_anonymous split: option.splits)

lemma invoke_refuses:
  assumes "lookup_operation r name = Some (spec, h)" "\<not> caller_may ctx spec"
  shows "invoke run r name input ctx = response_err (request_id ctx) ''FORBIDDEN''
    (if ctx_identity ctx = None then ''authentication required'' else ''access denied'') False"
  using assms
  by (auto simp: invoke_def caller_may_def access_check_grants has_restrictions_anonymous split: option.splits)

lemma lookup_register:
  "lookup_operation (register spec h r) name =
     (if name = spec_name spec then Some (spec, h) else lookup_operation r name)"
  by (simp add: lookup_operation_def register_def)

section \<open>Properties\<close>

text \<open>C10. Dispatch enforces access control: a registered operation runs exactly when the call is trusted
  or the identity of the caller (the anonymous one when there is none) has every required scope, one
  of the alternative scopes if any are listed, and the required resource with the required action;
  otherwise the handler does not run and the answer is the FORBIDDEN error for that request.\<close>

theorem invoke_enforces_access:
  assumes "lookup_operation r name = Some (spec, h)"
  shows "invoke run r name input ctx =
    (if caller_may ctx spec then run_handler run h input ctx
     else response_err (request_id ctx) ''FORBIDDEN''
       (if ctx_identity ctx = None then ''authentication required'' else ''access denied'') False)"
  using invoke_runs [OF assms] invoke_refuses [OF assms] by simp

definition example_spec :: operation_spec where
  "example_spec = \<lparr>spec_name = ''/relay/open'', namespace = ''relay'', op_type = Mutation, input_schema = JNull,
     output_schema = JNull, access = unrestricted\<lparr>required_scopes := [''relay:connect'']\<rparr>\<rparr>"

definition example_registry :: "unit operation_registry" where
  "example_registry = register example_spec (App ()) (register_default_operations registry_new)"

definition example_context :: "identity option \<Rightarrow> unit operation_context" where
  "example_context i = \<lparr>request_id = ''r1'', parent_request_id = None, ctx_identity = i, metadata = hm_empty,
     ctx_env = env_local example_registry, trusted = False\<rparr>"

theorem invoke_enforces_access_witness:
  "invoke (\<lambda>_ _ ctx. response_ok (request_id ctx) JNull) example_registry ''/relay/open'' JNull (example_context None) =
     response_err ''r1'' ''FORBIDDEN'' ''authentication required'' False"
proof -
  have "lookup_operation example_registry ''/relay/open'' = Some (example_spec, App ())"
    by code_simp
  moreover have "\<not> caller_may (example_context None) example_spec"
    by (simp add: caller_may_def example_context_def example_spec_def unrestricted_def grants_def anonymous_identity_def)
  ultimately show ?thesis
    using invoke_enforces_access [of example_registry "''/relay/open''" example_spec "App ()"
        "\<lambda>_ _ ctx. response_ok (request_id ctx) JNull" JNull "example_context None"]
    by (simp add: example_context_def)
qed

text \<open>Anonymous callers are treated as callers without scopes and resources: an operation counts as
  restricted exactly when such an identity is refused, and an operation without restrictions is open
  to every identity, so having an identity never takes access away.\<close>

theorem anonymous_is_least_privileged:
  "(has_restrictions ac \<longleftrightarrow> \<not> access_check ac anonymous_identity) \<and>
   (access_check ac anonymous_identity = (access_check ac anonymous_identity \<and> access_check ac ident))"
  using unrestricted_grants [of ac ident]
  by (auto simp: access_check_grants has_restrictions_anonymous)

text \<open>Calls from inside handlers are not checked: an operation reached through the environment runs
  whatever its access control demands, with no identity in its context.\<close>

theorem env_invoke_bypasses_access:
  assumes "lookup_operation (env_registry e) (''/'' @ ns @ ''/'' @ operation) = Some (spec, h)"
  shows "\<exists>ctx. env_invoke run e ns operation input = run_handler run h input ctx \<and>
    trusted ctx \<and> ctx_identity ctx = None \<and> request_id ctx = ''env/'' @ ns @ ''/'' @ operation"
proof -
  let ?ctx = "\<lparr>request_id = ''env/'' @ ns @ ''/'' @ operation, parent_request_id = None, ctx_identity = None,
                 metadata = hm_empty, ctx_env = e, trusted = True\<rparr>"
  have "env_invoke run e ns operation input = run_handler run h input ?ctx"
    using assms by (simp add: env_invoke_def invoke_def)
  then show ?thesis
    by (intro exI [of _ ?ctx]) simp
qed

theorem env_invoke_bypasses_access_witness:
  "\<exists>ctx. env_invoke (\<lambda>_ _ ctx. response_ok (request_id ctx) JNull) (env_local example_registry) ''relay'' ''open'' JNull =
     run_handler (\<lambda>_ _ ctx. response_ok (request_id ctx) JNull) (App ()) JNull ctx \<and>
     trusted ctx \<and> ctx_identity ctx = None \<and> request_id ctx = ''env/relay/open''"
proof -
  have "lookup_operation (env_registry (env_local example_registry)) (''/'' @ ''relay'' @ ''/'' @ ''open'') =
      Some (example_spec, App ())"
    by code_simp
  from env_invoke_bypasses_access [OF this] show ?thesis
    by simp
qed

text \<open>Discovery: in a registry with the default operations, any caller that asks for the schema of a
  registered operation gets that operation's name, namespace, type and schemas, unless the
  application registered an operation of its own under the name of the schema service.\<close>

theorem schema_service_reports:
  assumes "lookup_operation r SERVICE_SCHEMA = Some (services_schema_spec, ServicesSchema)"
    and "lookup_operation (env_registry (ctx_env ctx)) name = Some (spec, h)"
  shows "invoke run r SERVICE_SCHEMA (JObject [(''name'', JString name)]) ctx =
    response_ok (request_id ctx)
      (JObject [(''name'', JString (spec_name spec)), (''namespace'', JString (namespace spec)),
         (''op_type'', JString (show_op_type (op_type spec))),
         (''input_schema'', input_schema spec), (''output_schema'', output_schema spec)])"
proof -
  have "caller_may ctx services_schema_spec"
    using unrestricted_grants [OF unrestricted_default(2)] by (simp add: caller_may_def)
  then show ?thesis
    using invoke_runs [OF assms(1)] assms(2) by (simp add: services_schema_handler_def)
qed

theorem schema_service_reports_witness:
  "invoke (\<lambda>_ _ _. response_ok [] JNull) example_registry SERVICE_SCHEMA (JObject [(''name'', JString ''/relay/open'')])
     (example_context None) =
   response_ok ''r1'' (JObject [(''name'', JString ''/relay/open''), (''namespace'', JString ''relay''),
     (''op_type'', JString ''mutation''), (''input_schema'', JNull), (''output_schema'', JNull)])"
proof -
  have "lookup_operation example_registry SERVICE_SCHEMA = Some (services_schema_spec, ServicesSchema)"
    "lookup_operation (env_registry (ctx_env (example_context None))) ''/relay/open'' = Some (example_spec, App ())"
    by code_simp+
  from schema_service_reports [OF this] show ?thesis
    by (simp add: example_context_def example_spec_def)
qed

end
