(* ===== verification/Interface.thy ===== *)
theory Interface
  imports Call_Envelope Dynamic_Config
begin

text \<open>
  \<open>interface/mod.rs\<close>, \<open>interface/config.rs\<close>, \<open>interface/pairs.rs\<close> and \<open>interface/session.rs\<close>: the kinds
  of interfaces, their configurations, which transports may carry which interface, and the events a
  session yields. Identity providers are code behind a trait and private keys are those of \<open>russh\<close>:
  type variables stand for both in the configurations that only carry them.
\<close>

datatype stream_interface_kind = SshKind | RawFramingKind

datatype message_interface_kind = HttpKind | DnsKind

fun show_stream_interface_kind :: "stream_interface_kind \<Rightarrow> string" where
  "show_stream_interface_kind SshKind = ''ssh''"
| "show_stream_interface_kind RawFramingKind = ''raw-framing''"

fun show_message_interface_kind :: "message_interface_kind \<Rightarrow> string" where
  "show_message_interface_kind HttpKind = ''http''"
| "show_message_interface_kind DnsKind = ''dns''"

record ('prov, 'key, 'net, 'sk) ssh_interface_config =
  sic_auth :: 'prov
  sic_forwarding :: "('key, 'net) dynamic_config"
  sic_host_key :: 'sk

record 'prov raw_framing_config =
  rfc_auth :: 'prov

record http_interface_config =
  http_bind_addr :: socket_addr
  http_tls :: bool
  http_stealth :: bool

record dns_interface_config =
  dns_bind_addr :: socket_addr
  dns_tls :: bool

datatype ('prov, 'key, 'net, 'sk) stream_interface_config =
  SshConfig "('prov, 'key, 'net, 'sk) ssh_interface_config"
| RawFramingConfig "'prov raw_framing_config"

datatype message_interface_config = HttpConfig http_interface_config | DnsConfig dns_interface_config

fun stream_interface_config_kind :: "('prov, 'key, 'net, 'sk) stream_interface_config \<Rightarrow> stream_interface_kind" where
  "stream_interface_config_kind (SshConfig _) = SshKind"
| "stream_interface_config_kind (RawFramingConfig _) = RawFramingKind"

fun message_interface_config_kind :: "message_interface_config \<Rightarrow> message_interface_kind" where
  "message_interface_config_kind (HttpConfig _) = HttpKind"
| "message_interface_config_kind (DnsConfig _) = DnsKind"

section \<open>Transports and interfaces\<close>

datatype transport_kind_base = BaseTcp | BaseTls | BaseIroh | BaseWebTransport

fun transport_base :: "transport_kind \<Rightarrow> transport_kind_base" where
  "transport_base Tcp = BaseTcp"
| "transport_base (Tls _) = BaseTls"
| "transport_base (Iroh _) = BaseIroh"
| "transport_base (WebTransport _) = BaseWebTransport"

fun valid_base_pair :: "transport_kind_base \<times> stream_interface_kind \<Rightarrow> bool" where
  "valid_base_pair (BaseTcp, SshKind) = True"
| "valid_base_pair (BaseTls, SshKind) = True"
| "valid_base_pair (BaseIroh, SshKind) = True"
| "valid_base_pair (BaseWebTransport, SshKind) = True"
| "valid_base_pair (BaseWebTransport, RawFramingKind) = True"
| "valid_base_pair (BaseTcp, RawFramingKind) = True"
| "valid_base_pair _ = False"

definition is_valid_pair :: "transport_kind \<Rightarrow> stream_interface_kind \<Rightarrow> bool" where
  "is_valid_pair k i = valid_base_pair (transport_base k, i)"

definition VALID_TRANSPORT_INTERFACE_PAIRS :: "(transport_kind_base \<times> stream_interface_kind) list" where
  "VALID_TRANSPORT_INTERFACE_PAIRS =
     [(BaseTcp, SshKind), (BaseTls, SshKind), (BaseIroh, SshKind), (BaseWebTransport, SshKind),
      (BaseWebTransport, RawFramingKind), (BaseTcp, RawFramingKind)]"

lemma is_valid_pair_iff:
  "is_valid_pair k i \<longleftrightarrow> (transport_base k, i) \<in> set VALID_TRANSPORT_INTERFACE_PAIRS"
  by (cases k; cases i) (simp_all add: is_valid_pair_def VALID_TRANSPORT_INTERFACE_PAIRS_def)

section \<open>Sessions\<close>

record interface_event =
  ev_envelope :: event_envelope
  ev_identity :: "identity option"

definition interface_event_new :: "event_envelope \<Rightarrow> interface_event" where
  "interface_event_new e = \<lparr>ev_envelope = e, ev_identity = None\<rparr>"

definition interface_event_with_identity :: "event_envelope \<Rightarrow> identity \<Rightarrow> interface_event" where
  "interface_event_with_identity e i = \<lparr>ev_envelope = e, ev_identity = Some i\<rparr>"

end
