(* ===== verification/Call_Frame.thy ===== *)
theory Call_Frame
  imports Call_Envelope Rust_Io
begin

text \<open>
  \<open>call/frame.rs\<close>: envelopes on a byte stream, each behind its length as four big-endian bytes. The
  JSON codec is \<open>serde_json\<close>: \<open>ser\<close> (\<open>to_vec\<close>) and \<open>de\<close> (\<open>from_slice\<close>) are arguments. An envelope is
  \<open>frame_ok\<close> when the codec reads back what it wrote and the text is shorter than four gigabytes, the
  bound of the length field.

  The locale \<open>frame_reader_spec\<close> is the contract of a reader over a stream that delivers bytes in
  arbitrary chunks: what it does when its buffer holds a whole frame, and that it asks for more
  otherwise. Its lemma \<open>read_all_frames\<close> then gives every envelope back in order for every chunking.
\<close>

datatype 'je frame_decode_error =
  TooShort (fd_expected: nat) (fd_actual: nat)
| Incomplete (fd_expected: nat) (fd_actual: nat)
| Json 'je

definition encode :: "(event_envelope \<Rightarrow> bytes) \<Rightarrow> event_envelope \<Rightarrow> bytes" where
  "encode ser e = (let js = ser e in u32_to_be_bytes (of_nat (length js)) @ js)"

definition frame_len :: "bytes \<Rightarrow> nat" where
  "frame_len d = unat (u32_from_be_bytes (d ! 0) (d ! 1) (d ! 2) (d ! 3))"

definition decode ::
  "(bytes \<Rightarrow> 'je + event_envelope) \<Rightarrow> bytes \<Rightarrow> 'je frame_decode_error + event_envelope" where
  "decode de d =
     (if length d < 4 then Err (TooShort 4 (length d))
      else let len = frame_len d in
        if length d < 4 + len then Err (Incomplete (4 + len) (length d))
        else map_err Json (de (take len (drop 4 d))))"

definition decode_with_remainder ::
  "(bytes \<Rightarrow> 'je + event_envelope) \<Rightarrow> bytes \<Rightarrow> 'je frame_decode_error + (event_envelope \<times> nat)" where
  "decode_with_remainder de d =
     (if length d < 4 then Err (TooShort 4 (length d))
      else let len = frame_len d; total = 4 + len in
        if length d < total then Err (Incomplete total (length d))
        else case de (take len (drop 4 d)) of
               Err e \<Rightarrow> Err (Json e)
             | Ok envelope \<Rightarrow> Ok (envelope, total))"

definition frame_ok :: "(event_envelope \<Rightarrow> bytes) \<Rightarrow> (bytes \<Rightarrow> 'je + event_envelope) \<Rightarrow> event_envelope \<Rightarrow> bool" where
  "frame_ok ser de e \<longleftrightarrow> de (ser e) = Ok e \<and> length (ser e) < 2 ^ 32"

section \<open>Reader and writer\<close>

record frame_framed_reader =
  fr_stream :: "read_event list"
  fr_buf :: bytes

definition frame_framed_reader_new :: "read_event list \<Rightarrow> frame_framed_reader" where
  "frame_framed_reader_new evs = \<lparr>fr_stream = evs, fr_buf = []\<rparr>"

text \<open>\<open>json_io_error e\<close> is the \<open>io::Error\<close> of kind \<open>InvalidData\<close> around the codec's error; its text comes
  from the codec.\<close>

definition json_io_error :: "('je \<Rightarrow> string) \<Rightarrow> 'je \<Rightarrow> io_error" where
  "json_io_error disp e = IoError InvalidData (disp e)"

function read_frame ::
  "('je \<Rightarrow> string) \<Rightarrow> (bytes \<Rightarrow> 'je + event_envelope) \<Rightarrow> frame_framed_reader \<Rightarrow>
   (io_error + event_envelope option) \<times> frame_framed_reader" where
  "read_frame disp de r =
     (let buf = fr_buf r in
      if 4 \<le> length buf \<and> 4 + frame_len buf \<le> length buf then
        let total = 4 + frame_len buf; r' = r\<lparr>fr_buf := drop total buf\<rparr> in
        (case de (take (frame_len buf) (drop 4 buf)) of
           Ok envelope \<Rightarrow> (Ok (Some envelope), r')
         | Err e \<Rightarrow> (Err (json_io_error disp e), r'))
      else
        case read_some 4096 (fr_stream r) of
          (Ok bs, evs) \<Rightarrow>
            if bs = [] then (Ok None, r\<lparr>fr_stream := evs\<rparr>)
            else read_frame disp de (r\<lparr>fr_stream := evs, fr_buf := buf @ bs\<rparr>)
        | (Err e, evs) \<Rightarrow> (Err e, r\<lparr>fr_stream := evs\<rparr>))"
  by pat_completeness auto
termination
  by (relation "measure (\<lambda>(_, _, r). script_size (fr_stream r))")
     (auto dest: read_some_script_size [OF sym])

declare read_frame.simps [simp del]

definition write_frame ::
  "(event_envelope \<Rightarrow> bytes) \<Rightarrow> event_envelope \<Rightarrow> stream \<Rightarrow> (io_error + unit) \<times> stream" where
  "write_frame ser e s = st_write_flush (encode ser e) s"

section \<open>One frame\<close>

lemma length_encode [simp]: "length (encode ser e) = 4 + length (ser e)"
  by (simp add: encode_def Let_def)

lemma frame_len_encode:
  assumes "frame_ok ser de e"
  shows "frame_len (encode ser e @ r) = length (ser e)"
proof -
  have "unat (of_nat (length (ser e)) :: u32) = length (ser e)"
    using assms by (intro unat_of_nat_u32) (simp add: frame_ok_def)
  then show ?thesis
    by (simp add: frame_len_def encode_def Let_def u32_to_be_bytes_def nth_append)
qed

lemma drop_encode [simp]:
  "drop 4 (encode ser e) = ser e"
  "drop (4 + length (ser e)) (encode ser e) = []"
  by (simp_all add: encode_def Let_def)

lemma take_drop_encode:
  "take (length (ser e)) (drop 4 (encode ser e @ r)) = ser e"
  by simp

lemma decode_encode:
  assumes "frame_ok ser de e"
  shows "decode de (encode ser e @ r) = Ok e"
  using assms frame_len_encode [OF assms, of r]
  by (simp add: decode_def take_drop_encode frame_ok_def)

lemma decode_with_remainder_encode:
  assumes "frame_ok ser de e"
  shows "decode_with_remainder de (encode ser e @ r) = Ok (e, length (encode ser e))"
  using assms frame_len_encode [OF assms, of r]
  by (simp add: decode_with_remainder_def take_drop_encode frame_ok_def Let_def)

lemma frame_len_prefix:
  assumes "frame_ok ser de e" "4 \<le> k" "k < length (encode ser e)"
  shows "frame_len (take k (encode ser e)) = length (ser e)"
  using frame_len_encode [OF assms(1), of "[]"] assms by (simp add: frame_len_def)

text \<open>A proper prefix of a frame is never decoded: the error says how many bytes are there.\<close>

lemma decode_with_remainder_prefix:
  assumes "frame_ok ser de e" "k < length (encode ser e)"
  shows "decode_with_remainder de (take k (encode ser e)) =
    (if k < 4 then Err (TooShort 4 k) else Err (Incomplete (length (encode ser e)) k))"
proof (cases "k < 4")
  case False
  then show ?thesis
    using assms frame_len_prefix [OF assms(1), of k]
    by (simp add: decode_with_remainder_def Let_def min_def)
qed (use assms in \<open>simp add: decode_with_remainder_def min_def\<close>)

lemma decode_decode_with_remainder:
  "decode de d = result_bind (decode_with_remainder de d) (\<lambda>(e, n). Ok e)"
  by (auto simp: decode_def decode_with_remainder_def Let_def split: sum.split)

lemma decode_with_remainder_consumed:
  "decode_with_remainder de d = Ok (e, n) \<Longrightarrow> 4 \<le> n \<and> n \<le> length d"
  by (auto simp: decode_with_remainder_def Let_def split: if_splits sum.splits)

section \<open>Readers over arbitrary chunks\<close>

text \<open>\<open>reads rd n\<close> is \<open>n\<close> successive calls of the reader \<open>rd\<close>.\<close>

primrec reads ::
  "(bytes \<Rightarrow> read_event list \<Rightarrow> 'r \<times> bytes \<times> read_event list) \<Rightarrow> nat \<Rightarrow> bytes \<Rightarrow> read_event list \<Rightarrow>
   'r list \<times> bytes \<times> read_event list" where
  "reads rd 0 buf evs = ([], buf, evs)"
| "reads rd (Suc n) buf evs =
     (let (r, buf', evs') = rd buf evs; (rs, rest) = reads rd n buf' evs' in (r # rs, rest))"

locale frame_reader_spec =
  fixes enc :: "'e \<Rightarrow> bytes"
    and good :: "'e \<Rightarrow> bool"
    and rd :: "bytes \<Rightarrow> read_event list \<Rightarrow> 'r \<times> bytes \<times> read_event list"
    and got :: "'e \<Rightarrow> 'r"
    and cap :: nat
  assumes cap_pos: "0 < cap"
    and rd_full: "good e \<Longrightarrow> rd (enc e @ rest) evs = (got e, rest, evs)"
    and rd_more: "good e \<Longrightarrow> k < length (enc e) \<Longrightarrow> read_some cap evs = (Ok bs, evs') \<Longrightarrow> bs \<noteq> [] \<Longrightarrow>
      rd (take k (enc e)) evs = rd (take k (enc e) @ bs) evs'"
begin

lemma read_one_frame:
  assumes "good e" "all_chunks evs" "buf @ chunk_bytes evs = enc e @ rest"
  shows "\<exists>buf' evs'. rd buf evs = (got e, buf', evs') \<and> all_chunks evs' \<and> buf' @ chunk_bytes evs' = rest"
  using assms
proof (induction "script_size evs" arbitrary: buf evs rule: less_induct)
  case less
  show ?case
  proof (cases "length (enc e) \<le> length buf")
    case True
    then obtain buf' where "buf = enc e @ buf'"
      using less.prems(3) by (metis append_eq_append_conv_if append_eq_conv_conj)
    then show ?thesis
      using less.prems rd_full by simp
  next
    case False
    then have buf: "buf = take (length buf) (enc e)"
      using less.prems(3) by (metis append_eq_append_conv_if append_eq_conv_conj nle_le take_all_iff)
    have "evs \<noteq> []"
      using False less.prems(3) by (cases evs) auto
    then obtain bs evs' where r: "read_some cap evs = (Ok bs, evs')" "bs \<noteq> []" "all_chunks evs'"
      "chunk_bytes evs = bs @ chunk_bytes evs'"
      using read_some_all_chunks [OF less.prems(2) _ cap_pos] by blast
    have "rd buf evs = rd (buf @ bs) evs'"
      using rd_more [OF less.prems(1) _ r(1,2), of "length buf"] False buf by simp
    moreover have "script_size evs' < script_size evs"
      using read_some_script_size [OF r(1) cap_pos r(2)] .
    ultimately show ?thesis
      using less.hyps [of evs' "buf @ bs"] less.prems r by simp
  qed
qed

lemma read_all_frames:
  assumes "list_all good es" "all_chunks evs" "buf @ chunk_bytes evs = concat (map enc es) @ rest"
  shows "\<exists>buf' evs'. reads rd (length es) buf evs = (map got es, buf', evs') \<and>
    all_chunks evs' \<and> buf' @ chunk_bytes evs' = rest"
  using assms
proof (induction es arbitrary: buf evs)
  case (Cons e es)
  then obtain buf1 evs1 where one: "rd buf evs = (got e, buf1, evs1)" "all_chunks evs1"
    "buf1 @ chunk_bytes evs1 = concat (map enc es) @ rest"
    using read_one_frame [of e evs buf "concat (map enc es) @ rest"] by auto
  then obtain buf' evs' where "reads rd (length es) buf1 evs1 = (map got es, buf', evs')"
    "all_chunks evs'" "buf' @ chunk_bytes evs' = rest"
    using Cons.IH [OF _ one(2,3)] Cons.prems(1) by auto
  then show ?case
    using one by simp
qed simp

end

text \<open>The reader of this file meets the contract, for every codec.\<close>

definition framed_reader_rd ::
  "('je \<Rightarrow> string) \<Rightarrow> (bytes \<Rightarrow> 'je + event_envelope) \<Rightarrow> bytes \<Rightarrow> read_event list \<Rightarrow>
   (io_error + event_envelope option) \<times> bytes \<times> read_event list" where
  "framed_reader_rd disp de buf evs =
     (let (res, r) = read_frame disp de \<lparr>fr_stream = evs, fr_buf = buf\<rparr> in (res, fr_buf r, fr_stream r))"

lemma read_frame_full:
  assumes "frame_ok ser de e"
  shows "read_frame disp de \<lparr>fr_stream = evs, fr_buf = encode ser e @ rest\<rparr> =
    (Ok (Some e), \<lparr>fr_stream = evs, fr_buf = rest\<rparr>)"
  using assms frame_len_encode [OF assms, of rest]
  by (subst read_frame.simps) (simp add: take_drop_encode frame_ok_def Let_def)

lemma read_frame_short:
  assumes "\<not> (4 \<le> length buf \<and> 4 + frame_len buf \<le> length buf)"
    and "read_some 4096 evs = (Ok bs, evs')" "bs \<noteq> []"
  shows "read_frame disp de \<lparr>fr_stream = evs, fr_buf = buf\<rparr> =
    read_frame disp de \<lparr>fr_stream = evs', fr_buf = buf @ bs\<rparr>"
  using assms by (subst read_frame.simps) (auto simp: Let_def)

lemma read_frame_more:
  assumes "frame_ok ser de e" "k < length (encode ser e)"
    and "read_some 4096 evs = (Ok bs, evs')" "bs \<noteq> []"
  shows "read_frame disp de \<lparr>fr_stream = evs, fr_buf = take k (encode ser e)\<rparr> =
    read_frame disp de \<lparr>fr_stream = evs', fr_buf = take k (encode ser e) @ bs\<rparr>"
proof -
  let ?b = "take k (encode ser e)"
  have "length ?b = k" "4 \<le> k \<Longrightarrow> k < 4 + frame_len ?b"
    using frame_len_prefix [OF assms(1), of k] assms(2) by auto
  then have "\<not> (4 \<le> length ?b \<and> 4 + frame_len ?b \<le> length ?b)"
    by auto
  then show ?thesis
    by (rule read_frame_short) (rule assms)+
qed

interpretation fr: frame_reader_spec "encode ser" "frame_ok ser de" "framed_reader_rd disp de"
  "\<lambda>e. Ok (Some e)" 4096 for ser de disp
  by unfold_locales (auto simp: framed_reader_rd_def read_frame_full read_frame_more)

lemma all_chunks_empty: "all_chunks evs \<Longrightarrow> chunk_bytes evs = [] \<Longrightarrow> evs = []"
  by (cases evs rule: chunk_bytes.cases) auto

section \<open>Properties\<close>

text \<open>C11. Frames survive any fragmentation: whatever envelopes are written one after the other on a
  stream, and however the stream splits the bytes into reads, the reader returns exactly these
  envelopes in order and then, with nothing left over, the end of the stream.\<close>

theorem framed_reader_any_chunking:
  assumes "list_all (frame_ok ser de) es" "all_chunks evs"
    and "chunk_bytes evs = concat (map (encode ser) es)"
  shows "reads (framed_reader_rd disp de) (length es) [] evs = (map (\<lambda>e. Ok (Some e)) es, [], []) \<and>
    framed_reader_rd disp de [] [] = (Ok None, [], [])"
proof -
  obtain buf' evs' where "reads (framed_reader_rd disp de) (length es) [] evs =
      (map (\<lambda>e. Ok (Some e)) es, buf', evs')" "all_chunks evs'" "buf' @ chunk_bytes evs' = []"
    using fr.read_all_frames [OF assms(1,2), of "[]" "[]" disp] assms(3) by auto
  then show ?thesis
    using all_chunks_empty by (auto simp: framed_reader_rd_def read_frame.simps)
qed

text \<open>One frame: decoding what was encoded, with anything after it, returns the envelope and the
  number of bytes used, and no proper prefix of a frame is ever taken for a frame; the error says how
  many bytes the frame needs as soon as its length is known.\<close>

theorem frame_roundtrip:
  assumes "frame_ok ser de e"
  shows "decode_with_remainder de (encode ser e @ rest) = Ok (e, length (encode ser e)) \<and>
    (k < length (encode ser e) \<longrightarrow>
       decode_with_remainder de (take k (encode ser e)) =
         (if k < 4 then Err (TooShort 4 k) else Err (Incomplete (length (encode ser e)) k)))"
  using decode_with_remainder_encode [OF assms] decode_with_remainder_prefix [OF assms] by blast

text \<open>A codec for examples: the text of a string payload; an empty body is an error.\<close>

definition text_ser :: "event_envelope \<Rightarrow> bytes" where
  "text_ser e = as_bytes (case as_str (payload e) of Some t \<Rightarrow> t | None \<Rightarrow> [])"

definition text_de :: "bytes \<Rightarrow> string + event_envelope" where
  "text_de bs = (if bs = [] then Err ''EOF'' else Ok (call_requested ''1'' (JString (of_bytes bs))))"

lemma text_codec_ok:
  assumes "t \<noteq> []" "length t < 2 ^ 32"
  shows "frame_ok text_ser text_de (call_requested ''1'' (JString t))"
proof -
  have "as_bytes t \<noteq> []"
    using assms(1) by (simp add: as_bytes_def)
  then show ?thesis
    using assms(2) by (simp add: frame_ok_def text_ser_def text_de_def call_requested_def event_envelope_new_def)
qed

theorem framed_reader_any_chunking_witness:
  "reads (framed_reader_rd id text_de) 2 [] [Chunk [0, 0, 0], Chunk [2, 97, 98, 0, 0], Chunk [0, 1, 99]] =
     ([Ok (Some (call_requested ''1'' (JString ''ab''))), Ok (Some (call_requested ''1'' (JString ''c'')))], [], [])"
proof -
  let ?es = "[call_requested ''1'' (JString ''ab''), call_requested ''1'' (JString ''c'')]"
  let ?evs = "[Chunk [0, 0, 0], Chunk [2, 97, 98, 0, 0], Chunk [0, 1, 99]]"
  have "list_all (frame_ok text_ser text_de) ?es"
    by (simp add: text_codec_ok)
  moreover have "all_chunks ?evs" "chunk_bytes ?evs = concat (map (encode text_ser) ?es)"
    by code_simp+
  ultimately have "reads (framed_reader_rd id text_de) (length ?es) [] ?evs = (map (\<lambda>e. Ok (Some e)) ?es, [], [])"
    using framed_reader_any_chunking by blast
  then show ?thesis
    by (simp add: numeral_2_eq_2 del: reads.simps)
qed

theorem frame_roundtrip_witness:
  "decode_with_remainder text_de (encode text_ser (call_requested ''1'' (JString ''ab'')) @ [1]) =
     Ok (call_requested ''1'' (JString ''ab''), 6)"
proof -
  have "frame_ok text_ser text_de (call_requested ''1'' (JString ''ab''))"
    by (rule text_codec_ok) simp_all
  then have "decode_with_remainder text_de (encode text_ser (call_requested ''1'' (JString ''ab'')) @ [1]) =
      Ok (call_requested ''1'' (JString ''ab''), length (encode text_ser (call_requested ''1'' (JString ''ab''))))"
    using frame_roundtrip by blast
  moreover have "length (encode text_ser (call_requested ''1'' (JString ''ab''))) = 6"
    by code_simp
  ultimately show ?thesis
    by (simp only:)
qed

end
