(* ===== verification/Raw_Framing.thy ===== *)
theory Raw_Framing
  imports Interface Call_Frame
begin

text \<open>
  \<open>interface/raw_framing.rs\<close>: a session that speaks the call protocol directly on a stream. The first
  frame carries an API token and decides the session's identity. The identity provider is the
  function \<open>resolve\<close> from tokens to identities; it is an \<open>outcome\<close>, since the one of the program can
  panic. The JSON codec is the pair \<open>ser\<close>, \<open>de\<close> as in \<open>Call_Frame\<close>.
\<close>

definition READ_BUF_SIZE :: nat where
  "READ_BUF_SIZE = 8192"

datatype auth_state = Pending | Authenticated identity | Failed

datatype 'je session_error =
  StreamClosed
| SessionIo io_error
| FrameJson 'je
| WrongConfig
| AuthenticationFailed

record raw_framing_session =
  rf_stream :: stream
  rf_auth_state :: auth_state
  rf_read_buf :: bytes

definition raw_framing_session_new :: "stream \<Rightarrow> raw_framing_session" where
  "raw_framing_session_new s = \<lparr>rf_stream = s, rf_auth_state = Pending, rf_read_buf = []\<rparr>"

definition raw_framing_accept ::
  "stream \<Rightarrow> ('prov, 'key, 'net, 'sk) stream_interface_config \<Rightarrow> 'je session_error + raw_framing_session" where
  "raw_framing_accept s config =
     (case config of
        RawFramingConfig c \<Rightarrow> Ok (raw_framing_session_new s)
      | SshConfig _ \<Rightarrow> Err WrongConfig)"

function rf_read_frame ::
  "(bytes \<Rightarrow> 'je + event_envelope) \<Rightarrow> bytes \<Rightarrow> read_event list \<Rightarrow>
   ('je session_error + event_envelope) \<times> bytes \<times> read_event list" where
  "rf_read_frame de buf evs =
     (case decode_with_remainder de buf of
        Ok (envelope, consumed) \<Rightarrow> (Ok envelope, drop consumed buf, evs)
      | Err (Json e) \<Rightarrow> (Err (FrameJson e), buf, evs)
      | Err _ \<Rightarrow>
          (case read_some READ_BUF_SIZE evs of
             (Err e, evs') \<Rightarrow> (Err (SessionIo e), buf, evs')
           | (Ok bs, evs') \<Rightarrow>
               if bs = [] then (Err StreamClosed, buf, evs')
               else rf_read_frame de (buf @ bs) evs'))"
  by pat_completeness auto
termination
  by (relation "measure (\<lambda>(_, _, evs). script_size evs)")
     (auto simp: READ_BUF_SIZE_def dest: read_some_script_size [OF sym])

declare rf_read_frame.simps [simp del]

text \<open>\<open>read_frame\<close> and \<open>write_frame\<close> on the session.\<close>

definition session_read_frame ::
  "(bytes \<Rightarrow> 'je + event_envelope) \<Rightarrow> raw_framing_session \<Rightarrow>
   ('je session_error + event_envelope) \<times> raw_framing_session" where
  "session_read_frame de ses =
     (let (r, buf, evs) = rf_read_frame de (rf_read_buf ses) (rx (rf_stream ses)) in
      (r, ses\<lparr>rf_stream := (rf_stream ses)\<lparr>rx := evs\<rparr>, rf_read_buf := buf\<rparr>))"

definition session_write_frame ::
  "(event_envelope \<Rightarrow> bytes) \<Rightarrow> event_envelope \<Rightarrow> raw_framing_session \<Rightarrow>
   ('je session_error + unit) \<times> raw_framing_session" where
  "session_write_frame ser e ses =
     (let (r, s') = st_write_flush (encode ser e) (rf_stream ses) in
      (map_err SessionIo r, ses\<lparr>rf_stream := s'\<rparr>))"

definition recv ::
  "(bytes \<Rightarrow> 'je + event_envelope) \<Rightarrow> (auth_token \<Rightarrow> identity option outcome) \<Rightarrow> raw_framing_session \<Rightarrow>
   (interface_event option \<times> raw_framing_session) outcome" where
  "recv de resolve ses =
     (case rf_auth_state ses of
        Failed \<Rightarrow> Returns (None, ses)
      | Authenticated i \<Rightarrow>
          (case session_read_frame de ses of
             (Ok e, ses') \<Rightarrow> Returns (Some (interface_event_with_identity e i), ses')
           | (Err _, ses') \<Rightarrow> Returns (None, ses'))
      | Pending \<Rightarrow>
          (case session_read_frame de ses of
             (Err _, ses') \<Rightarrow> Returns (None, ses'\<lparr>rf_auth_state := Failed\<rparr>)
           | (Ok e, ses') \<Rightarrow>
               let token_raw = as_bytes (case as_str (payload e) of Some s \<Rightarrow> s | None \<Rightarrow> []) in
               outcome_bind (resolve \<lparr>raw = token_raw\<rparr>) (\<lambda>r.
               case r of
                 Some i \<Rightarrow> Returns (Some (interface_event_with_identity e i),
                             ses'\<lparr>rf_auth_state := Authenticated i\<rparr>)
               | None \<Rightarrow> Returns (None, ses'\<lparr>rf_auth_state := Failed\<rparr>))))"

definition send ::
  "(event_envelope \<Rightarrow> bytes) \<Rightarrow> event_envelope \<Rightarrow> raw_framing_session \<Rightarrow>
   ('je session_error + unit) \<times> raw_framing_session" where
  "send ser e ses =
     (case rf_auth_state ses of
        Failed \<Rightarrow> (Err AuthenticationFailed, ses)
      | _ \<Rightarrow> session_write_frame ser e ses)"

section \<open>Reading frames\<close>

lemma rf_read_frame_full:
  assumes "frame_ok ser de e"
  shows "rf_read_frame de (encode ser e @ rest) evs = (Ok e, rest, evs)"
  using decode_with_remainder_encode [OF assms, of rest]
  by (subst rf_read_frame.simps) simp

lemma rf_read_frame_more:
  assumes "frame_ok ser de e" "k < length (encode ser e)"
    and "read_some 8192 evs = (Ok bs, evs')" "bs \<noteq> []"
  shows "rf_read_frame de (take k (encode ser e)) evs = rf_read_frame de (take k (encode ser e) @ bs) evs'"
  using decode_with_remainder_prefix [OF assms(1,2)] assms(3,4)
  by (subst rf_read_frame.simps) (simp add: READ_BUF_SIZE_def split: if_splits)

interpretation rf: frame_reader_spec "encode ser" "frame_ok ser de" "rf_read_frame de" "\<lambda>e. Ok e" 8192
  for ser de
proof unfold_locales
  fix e rest evs k bs evs'
  show "(0::nat) < 8192"
    by simp
  show "rf_read_frame de (encode ser e @ rest) evs = (Ok e, rest, evs)" if "frame_ok ser de e"
    using that by (rule rf_read_frame_full)
  show "rf_read_frame de (take k (encode ser e)) evs = rf_read_frame de (take k (encode ser e) @ bs) evs'"
    if "frame_ok ser de e" "k < length (encode ser e)" "read_some 8192 evs = (Ok bs, evs')" "bs \<noteq> []"
    using that by (rule rf_read_frame_more)
qed

text \<open>Once a whole frame with a bad body is at the front of the buffer, nothing changes any more.\<close>

lemma rf_read_frame_stuck:
  assumes "decode_with_remainder de buf = Err (Json e)"
  shows "rf_read_frame de buf evs = (Err (FrameJson e), buf, evs)"
  using assms by (subst rf_read_frame.simps) simp

text \<open>A frame whose body the codec rejects, arriving in any chunks: the reader finds out when it is whole,
  and leaves it in the buffer.\<close>

lemma frame_len_body:
  assumes "length body < 2 ^ 32"
  shows "frame_len (u32_to_be_bytes (of_nat (length body)) @ body @ rest) = length body"
  using frame_len_encode [of "\<lambda>_. body" "\<lambda>_. Ok e" e rest for e] assms
  by (simp add: frame_ok_def encode_def Let_def)

lemma decode_bad_body:
  assumes "length body < 2 ^ 32" "de body = Err err"
  shows "decode_with_remainder de (u32_to_be_bytes (of_nat (length body)) @ body @ rest) = Err (Json err)"
  using frame_len_body [OF assms(1), of rest] assms(2) by (simp add: decode_with_remainder_def Let_def)

lemma decode_bad_body_prefix:
  assumes "length body < 2 ^ 32" "k < 4 + length body"
  shows "\<exists>n m. decode_with_remainder de (take k (u32_to_be_bytes (of_nat (length body)) @ body)) \<in>
    {Err (TooShort n m), Err (Incomplete n m)}"
proof (cases "k < 4")
  case False
  let ?f = "u32_to_be_bytes (of_nat (length body)) @ body"
  have "frame_len (take k ?f) = length body"
    using frame_len_body [OF assms(1), of "[]"] False by (simp add: frame_len_def nth_append)
  then show ?thesis
    using False assms(2) by (auto simp: decode_with_remainder_def Let_def min_def)
qed (use assms in \<open>simp add: decode_with_remainder_def min_def\<close>)

lemma rf_read_bad_frame:
  assumes "length body < 2 ^ 32" "de body = Err err" "all_chunks evs"
    and "buf @ chunk_bytes evs = u32_to_be_bytes (of_nat (length body)) @ body @ rest"
  shows "\<exists>buf' evs'. rf_read_frame de buf evs = (Err (FrameJson err), buf', evs') \<and>
    decode_with_remainder de buf' = Err (Json err)"
  using assms(3,4)
proof (induction "script_size evs" arbitrary: buf evs rule: less_induct)
  case less
  let ?f = "u32_to_be_bytes (of_nat (length body)) @ body"
  show ?case
  proof (cases "length ?f \<le> length buf")
    case True
    then obtain buf' where "buf = ?f @ buf'"
      using less.prems(2) by (metis append.assoc append_eq_append_conv_if append_eq_conv_conj)
    then have "decode_with_remainder de buf = Err (Json err)"
      using decode_bad_body [where body = body and de = de, OF assms(1,2), of buf'] by simp
    then show ?thesis
      by (intro exI [of _ buf] exI [of _ evs]) (simp add: rf_read_frame_stuck)
  next
    case False
    then have buf: "buf = take (length buf) ?f"
      using less.prems(2) by (metis append.assoc append_eq_append_conv_if append_eq_conv_conj nle_le take_all_iff)
    have "evs \<noteq> []"
      using False less.prems(2) by (cases evs) auto
    then obtain bs evs' where r: "read_some 8192 evs = (Ok bs, evs')" "bs \<noteq> []" "all_chunks evs'"
      "chunk_bytes evs = bs @ chunk_bytes evs'"
      using read_some_all_chunks [OF less.prems(1), of 8192] by auto
    have "\<exists>n m. decode_with_remainder de buf \<in> {Err (TooShort n m), Err (Incomplete n m)}"
      using decode_bad_body_prefix [OF assms(1), of "length buf" de] False buf by simp
    then have "rf_read_frame de buf evs = rf_read_frame de (buf @ bs) evs'"
      using r(1,2) by (subst rf_read_frame.simps) (auto simp: READ_BUF_SIZE_def)
    moreover have "script_size evs' < script_size evs"
      using read_some_script_size [OF r(1) _ r(2)] by simp
    ultimately show ?thesis
      using less.hyps [of evs' "buf @ bs"] less.prems r by simp
  qed
qed

section \<open>Sessions\<close>

text \<open>Successive calls of \<open>recv\<close>.\<close>

primrec recvs ::
  "(bytes \<Rightarrow> 'je + event_envelope) \<Rightarrow> (auth_token \<Rightarrow> identity option outcome) \<Rightarrow> nat \<Rightarrow> raw_framing_session \<Rightarrow>
   (interface_event option list \<times> raw_framing_session) outcome" where
  "recvs de resolve 0 ses = Returns ([], ses)"
| "recvs de resolve (Suc n) ses =
     outcome_bind (recv de resolve ses) (\<lambda>(ev, ses1).
     outcome_bind (recvs de resolve n ses1) (\<lambda>(evs, ses2). Returns (ev # evs, ses2)))"

lemma session_read_frame_state:
  "session_read_frame de ses = (r, ses') \<Longrightarrow> rf_auth_state ses' = rf_auth_state ses"
  by (auto simp: session_read_frame_def split: prod.splits)

lemma recv_failed: "rf_auth_state ses = Failed \<Longrightarrow> recv de resolve ses = Returns (None, ses)"
  by (simp add: recv_def)

lemma recvs_failed: "rf_auth_state ses = Failed \<Longrightarrow> recvs de resolve n ses = Returns (replicate n None, ses)"
  by (induction n) (simp_all add: recv_failed)

lemma recv_authenticated:
  assumes "rf_auth_state ses = Authenticated i" "recv de resolve ses = Returns (ev, ses')"
  shows "rf_auth_state ses' = Authenticated i \<and> (\<forall>x. ev = Some x \<longrightarrow> ev_identity x = Some i)"
  using assms session_read_frame_state [of de ses]
  by (auto simp: recv_def interface_event_with_identity_def split: prod.splits sum.splits)

lemma recvs_authenticated:
  assumes "rf_auth_state ses = Authenticated i" "recvs de resolve n ses = Returns (evs, ses')"
  shows "\<forall>x. Some x \<in> set evs \<longrightarrow> ev_identity x = Some i"
  using assms
proof (induction n arbitrary: ses evs)
  case (Suc n)
  then obtain ev ses1 evs1 where r: "recv de resolve ses = Returns (ev, ses1)"
    "recvs de resolve n ses1 = Returns (evs1, ses')" "evs = ev # evs1"
    by (auto simp: outcome_bind_Returns_iff)
  show ?case
    using recv_authenticated [OF Suc.prems(1) r(1)] Suc.IH [OF _ r(2)] r(3) by auto
qed simp

lemma recv_pending:
  assumes "rf_auth_state ses = Pending" "recv de resolve ses = Returns (ev, ses')"
  shows "(ev = None \<and> rf_auth_state ses' = Failed) \<or>
    (\<exists>i tok x. resolve tok = Returns (Some i) \<and> ev = Some x \<and> ev_identity x = Some i \<and>
       rf_auth_state ses' = Authenticated i)"
  using assms
  by (auto simp: recv_def Let_def interface_event_with_identity_def outcome_bind_Returns_iff
      split: prod.splits sum.splits option.splits)

text \<open>C13. A raw framing session speaks for one authenticated identity: over any number of receives on a
  new session, and whatever the peer sends, either no event is ever delivered, or all events carry
  the same identity, one to which the provider resolved a token.\<close>

theorem raw_session_single_identity:
  assumes "recvs de resolve n (raw_framing_session_new s) = Returns (evs, ses')"
  shows "(\<forall>ev \<in> set evs. ev = None) \<or>
    (\<exists>i tok. resolve tok = Returns (Some i) \<and> (\<forall>x. Some x \<in> set evs \<longrightarrow> ev_identity x = Some i))"
proof (cases n)
  case 0
  then show ?thesis
    using assms by simp
next
  case (Suc m)
  then obtain ev ses1 evs1 where r: "recv de resolve (raw_framing_session_new s) = Returns (ev, ses1)"
    "recvs de resolve m ses1 = Returns (evs1, ses')" "evs = ev # evs1"
    using assms by (auto simp: outcome_bind_Returns_iff)
  have "rf_auth_state (raw_framing_session_new s) = Pending"
    by (simp add: raw_framing_session_new_def)
  from recv_pending [OF this r(1)] show ?thesis
  proof
    assume "ev = None \<and> rf_auth_state ses1 = Failed"
    then show ?thesis
      using r recvs_failed [of ses1 de resolve m] by auto
  next
    assume "\<exists>i tok x. resolve tok = Returns (Some i) \<and> ev = Some x \<and> ev_identity x = Some i \<and>
       rf_auth_state ses1 = Authenticated i"
    then show ?thesis
      using r recvs_authenticated [OF _ r(2)] by auto
  qed
qed

lemma recv_frame:
  assumes "frame_ok ser de e" "all_chunks (rx (rf_stream ses))"
    and "rf_read_buf ses @ chunk_bytes (rx (rf_stream ses)) = encode ser e @ rest"
  shows "\<exists>buf evs. session_read_frame de ses =
      (Ok e, ses\<lparr>rf_stream := (rf_stream ses)\<lparr>rx := evs\<rparr>, rf_read_buf := buf\<rparr>) \<and>
    all_chunks evs \<and> buf @ chunk_bytes evs = rest"
proof -
  obtain buf evs where "rf_read_frame de (rf_read_buf ses) (rx (rf_stream ses)) = (Ok e, buf, evs)"
    "all_chunks evs" "buf @ chunk_bytes evs = rest"
    using rf.read_one_frame [OF assms] by blast
  then show ?thesis
    by (intro exI [of _ buf] exI [of _ evs]) (simp add: session_read_frame_def)
qed

lemma recvs_frames:
  assumes "rf_auth_state ses = Authenticated i" "list_all (frame_ok ser de) es"
    and "all_chunks (rx (rf_stream ses))"
    and "rf_read_buf ses @ chunk_bytes (rx (rf_stream ses)) = concat (map (encode ser) es) @ rest"
  shows "\<exists>ses'. recvs de resolve (length es) ses =
      Returns (map (\<lambda>e. Some (interface_event_with_identity e i)) es, ses') \<and> rf_auth_state ses' = Authenticated i \<and>
    all_chunks (rx (rf_stream ses')) \<and> rf_read_buf ses' @ chunk_bytes (rx (rf_stream ses')) = rest"
  using assms
proof (induction es arbitrary: ses)
  case (Cons e es)
  obtain buf evs where r: "session_read_frame de ses =
      (Ok e, ses\<lparr>rf_stream := (rf_stream ses)\<lparr>rx := evs\<rparr>, rf_read_buf := buf\<rparr>)"
    "all_chunks evs" "buf @ chunk_bytes evs = concat (map (encode ser) es) @ rest"
    using recv_frame [of ser de e ses "concat (map (encode ser) es) @ rest"] Cons.prems by auto
  let ?ses1 = "ses\<lparr>rf_stream := (rf_stream ses)\<lparr>rx := evs\<rparr>, rf_read_buf := buf\<rparr>"
  have "recv de resolve ses = Returns (Some (interface_event_with_identity e i), ?ses1)"
    using Cons.prems(1) r(1) by (simp add: recv_def)
  moreover obtain ses' where "recvs de resolve (length es) ?ses1 =
      Returns (map (\<lambda>e. Some (interface_event_with_identity e i)) es, ses')" "rf_auth_state ses' = Authenticated i"
      "all_chunks (rx (rf_stream ses'))" "rf_read_buf ses' @ chunk_bytes (rx (rf_stream ses')) = rest"
    using Cons.IH [of ?ses1] Cons.prems r by auto
  ultimately show ?case
    by auto
qed simp

lemma recvs_add:
  "recvs de resolve m ses = Returns (evs, ses1) \<Longrightarrow> recvs de resolve n ses1 = Returns (evs', ses2) \<Longrightarrow>
   recvs de resolve (m + n) ses = Returns (evs @ evs', ses2)"
  by (induction m arbitrary: ses evs) (fastforce simp: outcome_bind_Returns_iff)+

lemma recv_stream:
  assumes "recv de resolve ses = Returns (ev, ses')"
  shows "tx (rf_stream ses') = tx (rf_stream ses) \<and> wr (rf_stream ses') = wr (rf_stream ses)"
proof -
  have "tx (rf_stream ses1) = tx (rf_stream ses) \<and> wr (rf_stream ses1) = wr (rf_stream ses)"
    if "session_read_frame de ses = (r, ses1)" for r ses1
    using that by (auto simp: session_read_frame_def split: prod.splits)
  then show ?thesis
    using assms
    by (auto simp: recv_def Let_def outcome_bind_Returns_iff split: auth_state.splits prod.splits sum.splits option.splits)
qed

lemma recvs_stream:
  "recvs de resolve n ses = Returns (evs, ses') \<Longrightarrow>
   tx (rf_stream ses') = tx (rf_stream ses) \<and> wr (rf_stream ses') = wr (rf_stream ses)"
proof (induction n arbitrary: ses evs)
  case (Suc n)
  then obtain ev ses1 evs1 where r: "recv de resolve ses = Returns (ev, ses1)" "recvs de resolve n ses1 = Returns (evs1, ses')"
    by (auto simp: outcome_bind_Returns_iff)
  show ?case
    using recv_stream [OF r(1)] Suc.IH [OF r(2)] by auto
qed simp

lemma recvs_stuck:
  assumes "rf_auth_state ses = Authenticated i" "decode_with_remainder de (rf_read_buf ses) = Err (Json e)"
  shows "recvs de resolve n ses = Returns (replicate n None, ses)"
proof (induction n)
  case (Suc n)
  have "session_read_frame de ses = (Err (FrameJson e), ses)"
    using rf_read_frame_stuck [OF assms(2)] by (simp add: session_read_frame_def)
  then show ?case
    using assms(1) Suc.IH by (simp add: recv_def)
qed simp

lemma recvs_bad_frame:
  assumes "rf_auth_state ses = Authenticated i" "length body < 2 ^ 32" "de body = Err err"
    and "all_chunks (rx (rf_stream ses))"
    and "rf_read_buf ses @ chunk_bytes (rx (rf_stream ses)) = u32_to_be_bytes (of_nat (length body)) @ body @ rest"
  shows "\<exists>ses'. recvs de resolve n ses = Returns (replicate n None, ses') \<and> rf_auth_state ses' = Authenticated i"
proof (cases n)
  case (Suc m)
  obtain buf evs where r: "rf_read_frame de (rf_read_buf ses) (rx (rf_stream ses)) = (Err (FrameJson err), buf, evs)"
    "decode_with_remainder de buf = Err (Json err)"
    using rf_read_bad_frame [where de = de and body = body, OF assms(2-5)] by blast
  let ?ses1 = "ses\<lparr>rf_stream := (rf_stream ses)\<lparr>rx := evs\<rparr>, rf_read_buf := buf\<rparr>"
  have "recv de resolve ses = Returns (None, ?ses1)"
    using assms(1) r(1) by (simp add: recv_def session_read_frame_def)
  moreover have "recvs de resolve m ?ses1 = Returns (replicate m None, ?ses1)"
    by (rule recvs_stuck) (use assms(1) r(2) in simp_all)
  ultimately show ?thesis
    using assms(1) Suc by simp
qed (use assms(1) in simp)

text \<open>A new session, its token frame and the frames after it.\<close>

lemma session_frames:
  assumes "list_all (frame_ok ser de) (e # es)" "feeds s (concat (map (encode ser) (e # es)) @ rest)"
    and "as_str (payload e) = Some tok" "resolve \<lparr>raw = as_bytes tok\<rparr> = Returns (Some i)"
  shows "\<exists>ses'. recvs de resolve (length (e # es)) (raw_framing_session_new s) =
      Returns (map (\<lambda>x. Some (interface_event_with_identity x i)) (e # es), ses') \<and> rf_auth_state ses' = Authenticated i \<and>
    all_chunks (rx (rf_stream ses')) \<and> rf_read_buf ses' @ chunk_bytes (rx (rf_stream ses')) = rest"
proof -
  let ?ses = "raw_framing_session_new s"
  obtain buf evs where r: "session_read_frame de ?ses =
      (Ok e, ?ses\<lparr>rf_stream := (rf_stream ?ses)\<lparr>rx := evs\<rparr>, rf_read_buf := buf\<rparr>)"
    "all_chunks evs" "buf @ chunk_bytes evs = concat (map (encode ser) es) @ rest"
    using recv_frame [of ser de e ?ses "concat (map (encode ser) es) @ rest"] assms(1,2)
    by (auto simp: raw_framing_session_new_def feeds_def)
  let ?ses1 = "?ses\<lparr>rf_stream := (rf_stream ?ses)\<lparr>rx := evs\<rparr>, rf_read_buf := buf, rf_auth_state := Authenticated i\<rparr>"
  have "recv de resolve ?ses = Returns (Some (interface_event_with_identity e i), ?ses1)"
    using r(1) assms(3,4) by (simp add: recv_def raw_framing_session_new_def)
  moreover obtain ses' where "recvs de resolve (length es) ?ses1 =
      Returns (map (\<lambda>e. Some (interface_event_with_identity e i)) es, ses')" "rf_auth_state ses' = Authenticated i"
      "all_chunks (rx (rf_stream ses'))" "rf_read_buf ses' @ chunk_bytes (rx (rf_stream ses')) = rest"
    using recvs_frames [of ?ses1 i ser de es rest resolve] assms(1) r by auto
  ultimately show ?thesis
    by auto
qed

text \<open>C14. A raw framing session delivers what was sent: when a peer sends a frame whose token the
  provider accepts and then any number of further frames, split into chunks in any way, the receives
  deliver exactly these envelopes, in order, each with the identity of the token.\<close>

theorem raw_session_delivers:
  assumes "list_all (frame_ok ser de) (e # es)" "feeds s (concat (map (encode ser) (e # es)))"
    and "as_str (payload e) = Some tok" "resolve \<lparr>raw = as_bytes tok\<rparr> = Returns (Some i)"
  shows "\<exists>ses'. recvs de resolve (length (e # es)) (raw_framing_session_new s) =
    Returns (map (\<lambda>x. Some (interface_event_with_identity x i)) (e # es), ses') \<and>
    rf_auth_state ses' = Authenticated i"
  using session_frames [of ser de e es s "[]" tok resolve i] assms by auto

text \<open>C39. A frame whose body is not JSON ends an authenticated session silently: when a peer sends a frame
  whose token the provider accepts, any number of good frames, then a frame whose body the codec rejects,
  and after it anything at all, split into chunks in any way, the receives deliver the good envelopes and
  from then on return nothing, for ever: the reader leaves the bad frame in its buffer, so frames after
  it are never delivered. The session still counts as authenticated, and as long as the stream accepts
  writes a send still goes out.\<close>

theorem raw_session_stuck_on_bad_json:
  assumes "list_all (frame_ok ser de) (e # es)" "length body < 2 ^ 32" "de body = Err err"
    and "feeds s (concat (map (encode ser) (e # es)) @ u32_to_be_bytes (of_nat (length body)) @ body @ rest)"
    and "as_str (payload e) = Some tok" "resolve \<lparr>raw = as_bytes tok\<rparr> = Returns (Some i)"
  shows "\<exists>ses'. recvs de resolve (length (e # es) + n) (raw_framing_session_new s) =
      Returns (map (\<lambda>x. Some (interface_event_with_identity x i)) (e # es) @ replicate n None, ses') \<and>
    rf_auth_state ses' = Authenticated i \<and>
    (wr s = [] \<longrightarrow>
       send ser x ses' = (Ok (), ses'\<lparr>rf_stream := (rf_stream ses')\<lparr>tx := tx s @ encode ser x\<rparr>\<rparr>))"
proof -
  obtain ses1 where 1: "recvs de resolve (length (e # es)) (raw_framing_session_new s) =
      Returns (map (\<lambda>x. Some (interface_event_with_identity x i)) (e # es), ses1)" "rf_auth_state ses1 = Authenticated i"
    "all_chunks (rx (rf_stream ses1))"
    "rf_read_buf ses1 @ chunk_bytes (rx (rf_stream ses1)) = u32_to_be_bytes (of_nat (length body)) @ body @ rest"
    using session_frames [where resolve = resolve, OF assms(1,4-6)] by blast
  obtain ses' where 2: "recvs de resolve n ses1 = Returns (replicate n None, ses')" "rf_auth_state ses' = Authenticated i"
    using recvs_bad_frame [where de = de and body = body, OF 1(2) assms(2,3) 1(3,4)] by blast
  note all = recvs_add [OF 1(1) 2(1)]
  have "tx (rf_stream ses') = tx s" "wr (rf_stream ses') = wr s"
    using recvs_stream [OF all] by (simp_all add: raw_framing_session_new_def)
  then have "wr s = [] \<Longrightarrow> send ser x ses' = (Ok (), ses'\<lparr>rf_stream := (rf_stream ses')\<lparr>tx := tx s @ encode ser x\<rparr>\<rparr>)"
    using 2(2) by (simp add: send_def session_write_frame_def)
  then show ?thesis
    using all 2(2) by blast
qed

definition token_provider :: "auth_token \<Rightarrow> identity option outcome" where
  "token_provider tok = Returns (if raw tok = as_bytes ''alk_k'' then Some anonymous_identity else None)"

definition example_stream :: stream where
  "example_stream = \<lparr>rx = [Chunk [0, 0, 0, 5, 97, 108], Chunk [107, 95, 107, 0], Chunk [0, 0, 1, 120]],
     tx = [], wr = [], shut = False\<rparr>"

theorem raw_session_single_identity_witness:
  "(\<forall>ev \<in> set [Some (interface_event_with_identity (call_requested ''1'' (JString ''alk_k'')) anonymous_identity)]. ev = None) \<or>
   (\<exists>i tok. token_provider tok = Returns (Some i) \<and>
      (\<forall>x. Some x \<in> set [Some (interface_event_with_identity (call_requested ''1'' (JString ''alk_k'')) anonymous_identity)] \<longrightarrow>
         ev_identity x = Some i))"
proof -
  have "recvs text_de token_provider 1 (raw_framing_session_new example_stream) =
      Returns ([Some (interface_event_with_identity (call_requested ''1'' (JString ''alk_k'')) anonymous_identity)],
        \<lparr>rf_stream = \<lparr>rx = [Chunk [0, 0, 1, 120]], tx = [], wr = [], shut = False\<rparr>,
         rf_auth_state = Authenticated anonymous_identity, rf_read_buf = [0]\<rparr>)"
    by code_simp
  then show ?thesis
    using raw_session_single_identity by blast
qed

theorem raw_session_delivers_witness:
  "\<exists>ses'. recvs text_de token_provider 2 (raw_framing_session_new example_stream) =
     Returns ([Some (interface_event_with_identity (call_requested ''1'' (JString ''alk_k'')) anonymous_identity),
               Some (interface_event_with_identity (call_requested ''1'' (JString ''x'')) anonymous_identity)], ses')"
proof -
  let ?e = "call_requested ''1'' (JString ''alk_k'')" and ?es = "[call_requested ''1'' (JString ''x'')]"
  have "list_all (frame_ok text_ser text_de) (?e # ?es)"
    by (simp add: text_codec_ok)
  moreover have "feeds example_stream (concat (map (encode text_ser) (?e # ?es)))"
    "as_str (payload ?e) = Some ''alk_k''"
    "token_provider \<lparr>raw = as_bytes ''alk_k''\<rparr> = Returns (Some anonymous_identity)"
    by code_simp+
  ultimately have "\<exists>ses'. recvs text_de token_provider (length (?e # ?es)) (raw_framing_session_new example_stream) =
    Returns (map (\<lambda>x. Some (interface_event_with_identity x anonymous_identity)) (?e # ?es), ses') \<and>
    rf_auth_state ses' = Authenticated anonymous_identity"
    by (rule raw_session_delivers)
  then show ?thesis
    by (auto simp add: numeral_2_eq_2 simp del: recvs.simps)
qed

definition bad_stream :: stream where
  "bad_stream = \<lparr>rx = [Chunk [0, 0, 0, 5, 97, 108, 107, 95, 107, 0], Chunk [0, 0], Chunk [0, 0, 0, 0, 1, 120]],
     tx = [], wr = [], shut = False\<rparr>"

theorem raw_session_stuck_on_bad_json_witness:
  "\<exists>ses'. recvs text_de token_provider 4 (raw_framing_session_new bad_stream) =
     Returns ([Some (interface_event_with_identity (call_requested ''1'' (JString ''alk_k'')) anonymous_identity),
               None, None, None], ses') \<and>
   fst (send text_ser (call_requested ''1'' (JString ''x'')) ses') = (Ok () :: string session_error + unit)"
proof -
  let ?e = "call_requested ''1'' (JString ''alk_k'')" and ?x = "call_requested ''1'' (JString ''x'')"
  have "list_all (frame_ok text_ser text_de) [?e]" "length ([] :: bytes) < 2 ^ 32" "text_de [] = Err ''EOF''"
    by (simp_all add: text_codec_ok text_de_def)
  moreover have "feeds bad_stream (concat (map (encode text_ser) [?e]) @
      u32_to_be_bytes (of_nat (length ([] :: bytes))) @ [] @ encode text_ser ?x)"
    "as_str (payload ?e) = Some ''alk_k''"
    "token_provider \<lparr>raw = as_bytes ''alk_k''\<rparr> = Returns (Some anonymous_identity)" "wr bad_stream = []"
    by code_simp+
  ultimately obtain ses' where "recvs text_de token_provider (length [?e] + 3) (raw_framing_session_new bad_stream) =
      Returns (map (\<lambda>x. Some (interface_event_with_identity x anonymous_identity)) [?e] @ replicate 3 None, ses')"
    "send text_ser ?x ses' = (Ok () :: string session_error + unit,
       ses'\<lparr>rf_stream := (rf_stream ses')\<lparr>tx := tx bad_stream @ encode text_ser ?x\<rparr>\<rparr>)"
    using raw_session_stuck_on_bad_json [of text_ser text_de ?e "[]" "[]" "''EOF''" bad_stream "encode text_ser ?x"
        "''alk_k''" token_provider anonymous_identity 3 ?x]
    by blast
  then show ?thesis
    by (intro exI [of _ ses']) (simp add: numeral_3_eq_3 eval_nat_numeral del: recvs.simps)
qed

end
