(* ===== verification/Key_Cache.thy ===== *)
theory Key_Cache
  imports Rust_Str
begin

text \<open>
  \<open>alknet-secret/src/cache.rs\<close>: the cache of derived keys, with a time to live and eviction of the
  least recently used entry. \<open>Instant\<close> and \<open>Duration\<close> are natural numbers of nanoseconds; every reading
  of the clock is an argument, one per call of \<open>Instant::now\<close>. Erasing the memory of a dropped key is
  not visible in a functional model.

  The cache keeps a map and a list that orders its keys. The lemmas show that the two always agree and
  that each operation is the same operation on one list of entries in the order of their last use.
\<close>

section \<open>Keys and configuration\<close>

datatype key_type = Ed25519 | Aes256Gcm | Secp256k1

definition duration_from_secs :: "nat \<Rightarrow> nat" where
  "duration_from_secs n = n * 1000000000"

definition DEFAULT_TTL :: nat where
  "DEFAULT_TTL = duration_from_secs 3600"

definition DEFAULT_MAX_ENTRIES :: nat where
  "DEFAULT_MAX_ENTRIES = 64"

record cached_key =
  derived_at :: nat
  ck_key_type :: key_type
  ck_private_key :: bytes
  ck_public_key :: bytes
  last_accessed :: nat

definition cached_key_new :: "nat \<Rightarrow> key_type \<Rightarrow> bytes \<Rightarrow> bytes \<Rightarrow> cached_key" where
  "cached_key_new now kt priv pub =
     \<lparr>derived_at = now, ck_key_type = kt, ck_private_key = priv, ck_public_key = pub, last_accessed = now\<rparr>"

text \<open>\<open>duration_since\<close> saturates at zero, as subtraction of natural numbers does.\<close>

definition is_expired :: "nat \<Rightarrow> nat \<Rightarrow> cached_key \<Rightarrow> bool" where
  "is_expired now t k \<longleftrightarrow> t < now - derived_at k"

definition touch :: "nat \<Rightarrow> cached_key \<Rightarrow> cached_key" where
  "touch now k = k\<lparr>last_accessed := now\<rparr>"

record cache_config =
  ttl :: nat
  max_entries :: nat

definition cache_config_new :: "nat \<Rightarrow> nat \<Rightarrow> cache_config" where
  "cache_config_new t n = \<lparr>ttl = t, max_entries = n\<rparr>"

definition cache_config_default :: cache_config where
  "cache_config_default = \<lparr>ttl = DEFAULT_TTL, max_entries = DEFAULT_MAX_ENTRIES\<rparr>"

section \<open>The cache\<close>

record key_cache =
  entries :: "(string, cached_key) hashmap"
  order :: "string list"
  cc_config :: cache_config

definition key_cache_new :: "cache_config \<Rightarrow> key_cache" where
  "key_cache_new cfg = \<lparr>entries = hm_empty, order = [], cc_config = cfg\<rparr>"

definition remove_entry :: "string \<Rightarrow> key_cache \<Rightarrow> key_cache" where
  "remove_entry path c =
     c\<lparr>entries := hm_remove path (entries c), order := filter (\<lambda>p. p \<noteq> path) (order c)\<rparr>"

definition evict_lru :: "key_cache \<Rightarrow> key_cache" where
  "evict_lru c = (case order c of lru_path # _ \<Rightarrow> remove_entry lru_path c | [] \<Rightarrow> c)"

definition move_to_back :: "string \<Rightarrow> key_cache \<Rightarrow> key_cache" where
  "move_to_back path c = c\<lparr>order := filter (\<lambda>p. p \<noteq> path) (order c) @ [path]\<rparr>"

definition cache_get :: "nat \<Rightarrow> nat \<Rightarrow> string \<Rightarrow> key_cache \<Rightarrow> cached_key option \<times> key_cache" where
  "cache_get now now' path c =
     (case hm_get (entries c) path of
        Some entry \<Rightarrow>
          if is_expired now (ttl (cc_config c)) entry then (None, remove_entry path c)
          else let c' = move_to_back path (c\<lparr>entries := hm_insert path (touch now' entry) (entries c)\<rparr>) in
               (hm_get (entries c') path, c')
      | None \<Rightarrow> (None, c))"

definition cache_insert :: "string \<Rightarrow> cached_key \<Rightarrow> key_cache \<Rightarrow> key_cache" where
  "cache_insert path key c =
     (let c' =
        (if hm_contains_key (entries c) path then remove_entry path c
         else if max_entries (cc_config c) \<le> hm_len (entries c) then evict_lru c
         else c) in
      c'\<lparr>entries := hm_insert path key (entries c'), order := order c' @ [path]\<rparr>)"

text \<open>Each entry is tested with a reading of the clock of its own.\<close>

definition evict_expired :: "(string \<Rightarrow> nat) \<Rightarrow> key_cache \<Rightarrow> key_cache" where
  "evict_expired now c =
     (let expired = map fst (filter (\<lambda>(p, v). is_expired (now p) (ttl (cc_config c)) v) (entries c)) in
      fold remove_entry expired c)"

definition cache_clear :: "key_cache \<Rightarrow> key_cache" where
  "cache_clear c = c\<lparr>entries := hm_empty, order := []\<rparr>"

definition cache_len :: "key_cache \<Rightarrow> nat" where
  "cache_len c = hm_len (entries c)"

section \<open>The specification: entries in the order of their last use\<close>

type_synonym lru = "(string \<times> cached_key) list"

definition lru_drop :: "string \<Rightarrow> lru \<Rightarrow> lru" where
  "lru_drop p l = filter (\<lambda>e. fst e \<noteq> p) l"

definition lru_get :: "nat \<Rightarrow> nat \<Rightarrow> nat \<Rightarrow> string \<Rightarrow> lru \<Rightarrow> cached_key option \<times> lru" where
  "lru_get t now now' p l =
     (case map_of l p of
        None \<Rightarrow> (None, l)
      | Some k \<Rightarrow> if is_expired now t k then (None, lru_drop p l)
                  else (Some (touch now' k), lru_drop p l @ [(p, touch now' k)]))"

definition lru_insert :: "nat \<Rightarrow> string \<Rightarrow> cached_key \<Rightarrow> lru \<Rightarrow> lru" where
  "lru_insert n p k l =
     (if p \<in> fst ` set l then lru_drop p l else if n \<le> length l then drop 1 l else l) @ [(p, k)]"

definition recency :: "key_cache \<Rightarrow> lru" where
  "recency c = map (\<lambda>p. (p, the (hm_get (entries c) p))) (order c)"

definition cache_wf :: "key_cache \<Rightarrow> bool" where
  "cache_wf c \<longleftrightarrow> hm_wf (entries c) \<and> distinct (order c) \<and> set (order c) = set (hm_keys (entries c))"

section \<open>The two structures agree\<close>

lemma remove_entry_config [simp]: "cc_config (remove_entry p c) = cc_config c"
  by (simp add: remove_entry_def)

lemma move_to_back_simps [simp]:
  "cc_config (move_to_back p c) = cc_config c"
  "entries (move_to_back p c) = entries c"
  by (simp_all add: move_to_back_def)

lemma evict_lru_config [simp]: "cc_config (evict_lru c) = cc_config c"
  by (simp add: evict_lru_def split: list.split)

lemma order_evict_lru: "set (order (evict_lru c)) \<subseteq> set (order c)"
  by (auto simp: evict_lru_def remove_entry_def split: list.split)

lemma cache_wf_iff:
  "cache_wf c \<longleftrightarrow> hm_wf (entries c) \<and> distinct (order c) \<and> (\<forall>p. p \<in> set (order c) \<longleftrightarrow> hm_get (entries c) p \<noteq> None)"
  unfolding cache_wf_def set_eq_iff hm_keys_iff ..

lemma cache_wf_new: "cache_wf (key_cache_new cfg)"
  by (simp add: cache_wf_iff key_cache_new_def)

lemma cache_wf_len: "cache_wf c \<Longrightarrow> hm_len (entries c) = length (order c)"
proof -
  assume c: "cache_wf c"
  then have "dom (hm_get (entries c)) = set (order c)"
    by (auto simp: cache_wf_iff)
  then show ?thesis
    using c by (simp add: cache_wf_iff hm.len_card distinct_card)
qed

lemma map_of_recency: "cache_wf c \<Longrightarrow> map_of (recency c) p = hm_get (entries c) p"
  by (auto simp: cache_wf_iff recency_def map_of_map_restrict restrict_map_def)

lemma keys_recency: "fst ` set (recency c) = set (order c)"
  by (force simp: recency_def)

lemma cache_wf_remove: "cache_wf c \<Longrightarrow> cache_wf (remove_entry p c)"
  by (auto simp: cache_wf_iff remove_entry_def hm_wf_remove)

lemma recency_remove: "recency (remove_entry p c) = lru_drop p (recency c)"
  by (simp add: recency_def remove_entry_def lru_drop_def filter_map o_def)

lemma cache_wf_evict: "cache_wf c \<Longrightarrow> cache_wf (evict_lru c)"
  by (simp add: evict_lru_def cache_wf_remove split: list.split)

lemma recency_evict:
  assumes "cache_wf c"
  shows "recency (evict_lru c) = drop 1 (recency c)"
proof (cases "order c")
  case (Cons p ps)
  then have "p \<notin> set ps"
    using assms by (simp add: cache_wf_iff)
  then have "filter (\<lambda>q. q \<noteq> p) ps = ps"
    by (auto simp: filter_id_conv)
  moreover have "recency (evict_lru c) = lru_drop p (recency c)"
    using Cons by (simp add: evict_lru_def recency_remove)
  ultimately show ?thesis
    using Cons by (simp add: recency_def lru_drop_def filter_map o_def)
qed (simp add: evict_lru_def recency_def)

text \<open>Putting an entry at the end, after its old place was freed.\<close>

lemma append_entry:
  assumes "cache_wf c" "p \<notin> set (order c)"
  shows "cache_wf (c\<lparr>entries := hm_insert p k (entries c), order := order c @ [p]\<rparr>)"
    "recency (c\<lparr>entries := hm_insert p k (entries c), order := order c @ [p]\<rparr>) = recency c @ [(p, k)]"
  using assms by (auto simp: cache_wf_iff recency_def hm_wf_insert)

lemma touch_entry:
  assumes "cache_wf c" "hm_get (entries c) p \<noteq> None"
  shows "cache_wf (move_to_back p (c\<lparr>entries := hm_insert p k (entries c)\<rparr>))"
    "recency (move_to_back p (c\<lparr>entries := hm_insert p k (entries c)\<rparr>)) = lru_drop p (recency c) @ [(p, k)]"
  using assms
  by (auto simp: cache_wf_iff recency_def hm_wf_insert move_to_back_def lru_drop_def filter_map o_def)

section \<open>Each operation refines its specification\<close>

lemma cache_get_refines:
  assumes "cache_wf c" "cache_get now now' p c = (r, c')"
  shows "cache_wf c'" "lru_get (ttl (cc_config c)) now now' p (recency c) = (r, recency c')"
    "cc_config c' = cc_config c"
  using assms touch_entry [of c p]
  by (auto simp: cache_get_def lru_get_def map_of_recency cache_wf_remove recency_remove Let_def
      split: option.splits if_splits)

lemma cache_insert_refines:
  assumes "cache_wf c"
  shows "cache_wf (cache_insert p k c)"
    "recency (cache_insert p k c) = lru_insert (max_entries (cc_config c)) p k (recency c)"
    "cc_config (cache_insert p k c) = cc_config c"
proof -
  define c' where "c' =
    (if hm_contains_key (entries c) p then remove_entry p c
     else if max_entries (cc_config c) \<le> hm_len (entries c) then evict_lru c else c)"
  have wf: "cache_wf c'"
    using assms by (simp add: c'_def cache_wf_remove cache_wf_evict)
  have notin: "p \<notin> set (order c')"
    using assms order_evict_lru [of c]
    by (auto simp: c'_def cache_wf_iff hm_contains_key_def) (auto simp: remove_entry_def)
  have eq: "cache_insert p k c = c'\<lparr>entries := hm_insert p k (entries c'), order := order c' @ [p]\<rparr>"
    by (simp add: cache_insert_def Let_def c'_def)
  show "cache_wf (cache_insert p k c)"
    unfolding eq by (rule append_entry [OF wf notin])
  have "p \<in> fst ` set (recency c) \<longleftrightarrow> hm_contains_key (entries c) p"
    using assms by (simp add: keys_recency cache_wf_iff hm_contains_key_def)
  then show "recency (cache_insert p k c) = lru_insert (max_entries (cc_config c)) p k (recency c)"
    unfolding eq append_entry(2) [OF wf notin]
    using assms by (simp add: c'_def lru_insert_def recency_remove recency_evict cache_wf_len) (simp add: recency_def)
  show "cc_config (cache_insert p k c) = cc_config c"
    unfolding eq by (simp add: c'_def)
qed

lemma fold_remove:
  assumes "cache_wf c"
  shows "cache_wf (fold remove_entry ps c)"
    "recency (fold remove_entry ps c) = filter (\<lambda>e. fst e \<notin> set ps) (recency c)"
    "cc_config (fold remove_entry ps c) = cc_config c"
  using assms
  by (induction ps arbitrary: c) (auto simp: cache_wf_remove recency_remove lru_drop_def intro: filter_cong)

lemma evict_expired_refines:
  assumes "cache_wf c"
  shows "cache_wf (evict_expired now c)"
    "recency (evict_expired now c) =
       filter (\<lambda>(p, k). \<not> is_expired (now p) (ttl (cc_config c)) k) (recency c)"
    "cc_config (evict_expired now c) = cc_config c"
proof -
  let ?ps = "map fst (filter (\<lambda>(p, v). is_expired (now p) (ttl (cc_config c)) v) (entries c))"
  have "p \<in> set ?ps \<longleftrightarrow> (\<exists>k. hm_get (entries c) p = Some k \<and> is_expired (now p) (ttl (cc_config c)) k)" for p
    using assms by (auto simp: cache_wf_iff hm_in_set [symmetric] image_iff)
  moreover have "hm_get (entries c) p = Some k" if "(p, k) \<in> set (recency c)" for p k
    using assms that by (auto simp: recency_def cache_wf_iff)
  ultimately have "filter (\<lambda>e. fst e \<notin> set ?ps) (recency c) =
      filter (\<lambda>(p, k). \<not> is_expired (now p) (ttl (cc_config c)) k) (recency c)"
    by (intro filter_cong) (auto simp del: set_map)
  then show "recency (evict_expired now c) =
       filter (\<lambda>(p, k). \<not> is_expired (now p) (ttl (cc_config c)) k) (recency c)"
    using assms by (simp add: evict_expired_def Let_def fold_remove del: set_map)
  show "cache_wf (evict_expired now c)" "cc_config (evict_expired now c) = cc_config c"
    using assms by (simp_all add: evict_expired_def Let_def fold_remove)
qed

lemma cache_clear_refines:
  "cache_wf (cache_clear c)" "recency (cache_clear c) = []" "cc_config (cache_clear c) = cc_config c"
  by (simp_all add: cache_clear_def cache_wf_iff recency_def)

section \<open>Sequences of operations\<close>

datatype cache_op =
  OpGet nat nat string
| OpInsert string cached_key
| OpEvictExpired "string \<Rightarrow> nat"
| OpClear

fun cache_step :: "cache_op \<Rightarrow> key_cache \<Rightarrow> cached_key option \<times> key_cache" where
  "cache_step (OpGet now now' p) c = cache_get now now' p c"
| "cache_step (OpInsert p k) c = (None, cache_insert p k c)"
| "cache_step (OpEvictExpired now) c = (None, evict_expired now c)"
| "cache_step OpClear c = (None, cache_clear c)"

fun lru_step :: "cache_config \<Rightarrow> cache_op \<Rightarrow> lru \<Rightarrow> cached_key option \<times> lru" where
  "lru_step cfg (OpGet now now' p) l = lru_get (ttl cfg) now now' p l"
| "lru_step cfg (OpInsert p k) l = (None, lru_insert (max_entries cfg) p k l)"
| "lru_step cfg (OpEvictExpired now) l = (None, filter (\<lambda>(p, k). \<not> is_expired (now p) (ttl cfg) k) l)"
| "lru_step cfg OpClear l = (None, [])"

primrec run_ops :: "('op \<Rightarrow> 's \<Rightarrow> 'r \<times> 's) \<Rightarrow> 'op list \<Rightarrow> 's \<Rightarrow> 'r list \<times> 's" where
  "run_ops step [] s = ([], s)"
| "run_ops step (x # xs) s =
     (let (r, s') = step x s; (rs, s'') = run_ops step xs s' in (r # rs, s''))"

lemma cache_step_refines:
  assumes "cache_wf c" "cache_step x c = (r, c')"
  shows "cache_wf c' \<and> lru_step (cc_config c) x (recency c) = (r, recency c') \<and> cc_config c' = cc_config c"
  using assms
  by (cases x) (auto simp: cache_get_refines cache_insert_refines evict_expired_refines cache_clear_refines)

lemma run_refines:
  "cache_wf c \<Longrightarrow> run_ops cache_step xs c = (rs, c') \<Longrightarrow>
     cache_wf c' \<and> run_ops (lru_step (cc_config c)) xs (recency c) = (rs, recency c') \<and> cc_config c' = cc_config c"
proof (induction xs arbitrary: c rs)
  case (Cons x xs)
  obtain r c1 where 1: "cache_step x c = (r, c1)"
    by fastforce
  obtain rs1 where 2: "run_ops cache_step xs c1 = (rs1, c')" "rs = r # rs1"
    using Cons.prems(2) 1 by (auto split: prod.splits)
  show ?case
    using cache_step_refines [OF Cons.prems(1) 1] Cons.IH [of c1 rs1] 2 by simp
qed simp

lemma run_ops_Cons:
  "fst (run_ops step (x # xs) s) = fst (step x s) # fst (run_ops step xs (snd (step x s)))"
  "snd (run_ops step (x # xs) s) = snd (run_ops step xs (snd (step x s)))"
  by (simp_all add: Let_def case_prod_unfold)

lemma run_ops_append:
  "run_ops step (xs @ ys) s =
     (let (rs, s') = run_ops step xs s; (rs', s'') = run_ops step ys s' in (rs @ rs', s''))"
  by (induction xs arbitrary: s) (auto split: prod.split)

section \<open>What the specification guarantees\<close>

definition lru_bounded :: "nat \<Rightarrow> lru \<Rightarrow> bool" where
  "lru_bounded n l \<longleftrightarrow> distinct (map fst l) \<and> length l \<le> max 1 n"

lemma lru_drop_simps:
  "set (lru_drop p l) = {e \<in> set l. fst e \<noteq> p}"
  "distinct (map fst l) \<Longrightarrow> distinct (map fst (lru_drop p l))"
  "length (lru_drop p l) \<le> length l"
  "p \<in> fst ` set l \<Longrightarrow> length (lru_drop p l) < length l"
  "lru_drop p (l @ l') = lru_drop p l @ lru_drop p l'"
  "lru_drop p (e # l) = (if fst e = p then lru_drop p l else e # lru_drop p l)"
  by (auto simp: lru_drop_def distinct_map_filter intro: length_filter_less)

lemma lru_bounded_insert:
  assumes "lru_bounded n l"
  shows "lru_bounded n (lru_insert n p k l)"
proof -
  define l' where "l' = (if p \<in> fst ` set l then lru_drop p l else if n \<le> length l then drop 1 l else l)"
  have "length l' < max 1 n"
  proof (cases "p \<in> fst ` set l")
    case True
    then show ?thesis
      using assms lru_drop_simps(4) [OF True] by (simp add: l'_def lru_bounded_def)
  next
    case False
    then show ?thesis
      using assms by (auto simp: l'_def lru_bounded_def max_def split: if_splits)
  qed
  moreover have "distinct (map fst l')"
    using assms by (auto simp: l'_def lru_bounded_def lru_drop_simps drop_map [symmetric])
  moreover have "p \<notin> fst ` set l'"
    by (auto simp: l'_def lru_drop_simps image_iff dest: in_set_dropD)
  ultimately show ?thesis
    by (simp add: lru_insert_def l'_def [symmetric] lru_bounded_def)
qed

lemma lru_bounded_step: "lru_bounded (max_entries cfg) l \<Longrightarrow> lru_bounded (max_entries cfg) (snd (lru_step cfg x l))"
proof (cases x)
  case (OpGet now now' p)
  assume l: "lru_bounded (max_entries cfg) l"
  show ?thesis
  proof (cases "map_of l p")
    case None
    then show ?thesis using l OpGet by (simp add: lru_get_def)
  next
    case (Some k)
    then have "p \<in> fst ` set l"
      by (force dest: map_of_SomeD)
    then have "length (lru_drop p l) < length l"
      by (rule lru_drop_simps)
    then show ?thesis
      using l OpGet Some by (auto simp: lru_get_def lru_bounded_def lru_drop_simps)
  qed
next
  case (OpInsert p k)
  assume "lru_bounded (max_entries cfg) l"
  then have "lru_bounded (max_entries cfg) (lru_insert (max_entries cfg) p k l)"
    by (rule lru_bounded_insert)
  then show ?thesis
    using OpInsert by simp
qed (auto simp: lru_bounded_def distinct_map_filter intro: order_trans [OF length_filter_le])

lemma lru_bounded_run: "lru_bounded (max_entries cfg) l \<Longrightarrow> lru_bounded (max_entries cfg) (snd (run_ops (lru_step cfg) xs l))"
proof (induction xs arbitrary: l)
  case (Cons x xs)
  then show ?case
    by (simp add: run_ops_Cons lru_bounded_step del: run_ops.simps)
qed simp

text \<open>An entry stays as long as only few other paths are used after it.\<close>

fun accesses :: "string set \<Rightarrow> cache_op \<Rightarrow> bool" where
  "accesses ps (OpGet _ _ q) \<longleftrightarrow> q \<in> ps"
| "accesses ps (OpInsert q _) \<longleftrightarrow> q \<in> ps"
| "accesses ps _ \<longleftrightarrow> False"

definition recent :: "string set \<Rightarrow> string \<Rightarrow> cached_key \<Rightarrow> lru \<Rightarrow> bool" where
  "recent ps p k l \<longleftrightarrow> distinct (map fst l) \<and> (\<exists>l1 l2. l = l1 @ (p, k) # l2 \<and> fst ` set l2 \<subseteq> ps)"

lemma recent_drop_append:
  assumes "recent ps p k l" "q \<in> ps" "q \<noteq> p"
  shows "recent ps p k (lru_drop q l @ [(q, k')])"
proof -
  obtain l1 l2 where l: "l = l1 @ (p, k) # l2" "fst ` set l2 \<subseteq> ps" and d: "distinct (map fst l)"
    using assms(1) by (auto simp: recent_def)
  have "lru_drop q l @ [(q, k')] = lru_drop q l1 @ (p, k) # (lru_drop q l2 @ [(q, k')])"
    using l(1) assms(3) by (simp add: lru_drop_simps)
  moreover have "fst ` set (lru_drop q l2 @ [(q, k')]) \<subseteq> ps"
    using l(2) assms(2) by (auto simp: lru_drop_simps)
  moreover have "distinct (map fst (lru_drop q l @ [(q, k')]))"
    using d by (auto simp: lru_drop_simps)
  ultimately show ?thesis
    unfolding recent_def by blast
qed

lemma recent_drop_only:
  assumes "recent ps p k l" "q \<noteq> p"
  shows "recent ps p k (lru_drop q l)"
proof -
  obtain l1 l2 where l: "l = l1 @ (p, k) # l2" "fst ` set l2 \<subseteq> ps" and d: "distinct (map fst l)"
    using assms(1) by (auto simp: recent_def)
  have "lru_drop q l = lru_drop q l1 @ (p, k) # lru_drop q l2" "fst ` set (lru_drop q l2) \<subseteq> ps"
    using l assms(2) by (auto simp: lru_drop_simps)
  then show ?thesis
    using d unfolding recent_def by (blast intro: lru_drop_simps(2))
qed

lemma recent_insert_new:
  assumes "recent ps p k l" "finite ps" "card ps < n" "q \<in> ps" "q \<notin> fst ` set l" "n \<le> length l"
  shows "recent ps p k (drop 1 l @ [(q, k')])"
proof -
  obtain l1 l2 where l: "l = l1 @ (p, k) # l2" "fst ` set l2 \<subseteq> ps" and d: "distinct (map fst l)"
    using assms(1) by (auto simp: recent_def)
  have "length l2 = card (fst ` set l2)"
    using d l(1) distinct_card [of "map fst l2"] by simp
  also have "\<dots> \<le> card (ps - {q})"
    using assms(2,5) l by (intro card_mono) auto
  finally have "Suc (length l2) \<le> card ps"
    using assms(2,4) by (metis Suc_leI card_Diff1_less le_less_trans)
  then obtain e l1' where l1: "l1 = e # l1'"
    using assms(3,6) l(1) by (cases l1) auto
  then have "drop 1 l @ [(q, k')] = l1' @ (p, k) # (l2 @ [(q, k')])"
    using l(1) by simp
  moreover have "distinct (map fst (drop 1 l @ [(q, k')]))"
    using d assms(5) l l1 by auto
  moreover have "fst ` set (l2 @ [(q, k')]) \<subseteq> ps"
    using l(2) assms(4) by auto
  ultimately show ?thesis
    unfolding recent_def by blast
qed

lemma recent_step:
  assumes "recent ps p k l" "p \<notin> ps" "finite ps" "card ps < max_entries cfg" "accesses ps x"
  shows "recent ps p k (snd (lru_step cfg x l))"
proof (cases x)
  case (OpGet now now' q)
  then have q: "q \<in> ps" "q \<noteq> p"
    using assms by auto
  then show ?thesis
    using OpGet assms(1) recent_drop_only [OF assms(1) q(2)] recent_drop_append [OF assms(1) q]
    by (simp add: lru_get_def split: option.split)
next
  case (OpInsert q k')
  then have q: "q \<in> ps" "q \<noteq> p"
    using assms by auto
  have "recent ps p k (l @ [(q, k')])" if "q \<notin> fst ` set l"
    using recent_drop_append [OF assms(1) q, of k'] that
    by (simp add: lru_drop_def filter_id_conv [THEN iffD2] image_iff) (metis (mono_tags, lifting) filter_True)
  then show ?thesis
    using OpInsert recent_insert_new [OF assms(1,3,4) q(1)] recent_drop_append [OF assms(1) q]
    by (simp add: lru_insert_def)
qed (use assms in auto)

lemma recent_run:
  "recent ps p k l \<Longrightarrow> p \<notin> ps \<Longrightarrow> finite ps \<Longrightarrow> card ps < max_entries cfg \<Longrightarrow> list_all (accesses ps) xs \<Longrightarrow>
     recent ps p k (snd (run_ops (lru_step cfg) xs l))"
  by (induction xs arbitrary: l) (simp_all add: run_ops_Cons recent_step del: run_ops.simps(2))

lemma recent_insert_self:
  assumes "lru_bounded n (lru_insert n p k l)"
  shows "recent ps p k (lru_insert n p k l)"
proof -
  obtain l1 where "lru_insert n p k l = l1 @ (p, k) # []"
    by (auto simp: lru_insert_def)
  moreover have "fst ` set [] \<subseteq> ps"
    by simp
  ultimately show ?thesis
    using assms unfolding recent_def lru_bounded_def by blast
qed

lemma recent_map_of: "recent ps p k l \<Longrightarrow> map_of l p = Some k"
  by (auto simp: recent_def map_of_append map_add_def split: option.split dest: map_of_SomeD)

text \<open>What an entry may hold: the key that was put last for its path.\<close>

fun put_step :: "cache_op \<Rightarrow> (string \<Rightarrow> cached_key option) \<Rightarrow> string \<Rightarrow> cached_key option" where
  "put_step (OpInsert p k) m = m(p := Some k)"
| "put_step OpClear m = (\<lambda>_. None)"
| "put_step _ m = m"

definition last_put :: "cache_op list \<Rightarrow> string \<Rightarrow> cached_key option" where
  "last_put xs = fold put_step xs (\<lambda>_. None)"

definition same_key :: "cached_key \<Rightarrow> cached_key \<Rightarrow> bool" where
  "same_key k k' \<longleftrightarrow> k\<lparr>last_accessed := 0\<rparr> = k'\<lparr>last_accessed := 0\<rparr>"

definition lru_from :: "(string \<Rightarrow> cached_key option) \<Rightarrow> lru \<Rightarrow> bool" where
  "lru_from m l \<longleftrightarrow> (\<forall>(p, k) \<in> set l. \<exists>k0. m p = Some k0 \<and> same_key k k0)"

lemma same_key_simps [simp]: "same_key k k" "same_key (touch now k) k' = same_key k k'"
  by (simp_all add: same_key_def touch_def)

lemma lru_from_step: "lru_from m l \<Longrightarrow> lru_from (put_step x m) (snd (lru_step cfg x l))"
proof (cases x)
  case (OpGet now now' p)
  assume "lru_from m l"
  then show ?thesis
    using OpGet by (auto simp: lru_from_def lru_get_def lru_drop_simps split: option.split dest!: map_of_SomeD)
next
  case (OpInsert p k)
  assume "lru_from m l"
  then show ?thesis
    using OpInsert by (force simp: lru_from_def lru_insert_def lru_drop_simps dest: in_set_dropD)
qed (auto simp: lru_from_def)

lemma lru_from_run: "lru_from m l \<Longrightarrow> lru_from (fold put_step xs m) (snd (run_ops (lru_step cfg) xs l))"
  by (induction xs arbitrary: m l) (simp_all add: run_ops_Cons lru_from_step del: run_ops.simps(2))

section \<open>The contract of the service\<close>

text \<open>The service uses the cache as a store that may forget: a hit returns material that was put under
  the path, and no operation makes up an entry. A fact that holds of everything put in therefore holds
  of everything that comes out.\<close>

locale key_store =
  fixes get :: "nat \<Rightarrow> nat \<Rightarrow> string \<Rightarrow> 'c \<Rightarrow> 'k option \<times> 'c"
    and ins :: "string \<Rightarrow> 'k \<Rightarrow> 'c \<Rightarrow> 'c"
    and clr :: "'c \<Rightarrow> 'c"
    and mat :: "'k \<Rightarrow> 'm"
    and holds :: "'c \<Rightarrow> string \<Rightarrow> 'm \<Rightarrow> bool"
  assumes get_hit: "get t t' p c = (Some k, c') \<Longrightarrow> holds c p (mat k)"
    and get_keeps: "get t t' p c = (r, c') \<Longrightarrow> holds c' q m \<Longrightarrow> holds c q m"
    and ins_holds: "holds (ins p k c) q m \<Longrightarrow> q = p \<and> m = mat k \<or> q \<noteq> p \<and> holds c q m"
    and clr_holds: "\<not> holds (clr c) p m"
begin

definition sound :: "(string \<Rightarrow> 'm \<Rightarrow> bool) \<Rightarrow> 'c \<Rightarrow> bool" where
  "sound Q c \<longleftrightarrow> (\<forall>p m. holds c p m \<longrightarrow> Q p m)"

lemma sound_hit: "sound Q c \<Longrightarrow> get t t' p c = (Some k, c') \<Longrightarrow> Q p (mat k)"
  by (auto simp: sound_def dest: get_hit)

lemma sound_get: "sound Q c \<Longrightarrow> get t t' p c = (r, c') \<Longrightarrow> sound Q c'"
  by (auto simp: sound_def dest: get_keeps)

lemma sound_ins: "sound Q c \<Longrightarrow> Q p (mat k) \<Longrightarrow> sound Q (ins p k c)"
  by (auto simp: sound_def dest: ins_holds)

lemma sound_clr: "sound Q (clr c)"
  by (simp add: sound_def clr_holds)

end

definition material :: "cached_key \<Rightarrow> key_type \<times> bytes \<times> bytes" where
  "material k = (ck_key_type k, ck_private_key k, ck_public_key k)"

definition cache_holds :: "key_cache \<Rightarrow> string \<Rightarrow> key_type \<times> bytes \<times> bytes \<Rightarrow> bool" where
  "cache_holds c p m \<longleftrightarrow> (\<exists>k. hm_get (entries c) p = Some k \<and> material k = m)"

lemma material_simps [simp]:
  "material (touch now k) = material k" "material (cached_key_new now kt priv pub) = (kt, priv, pub)"
  by (simp_all add: material_def touch_def cached_key_new_def)

interpretation kc: key_store cache_get cache_insert cache_clear material cache_holds
proof unfold_locales
  show "cache_holds c p (material k)" if "cache_get t t' p c = (Some k, c')" for t t' p c k c'
    using that by (auto simp: cache_get_def cache_holds_def Let_def split: option.splits if_splits)
  show "cache_holds c q m" if "cache_get t t' p c = (r, c')" "cache_holds c' q m" for t t' p c r c' q m
    using that
    by (auto simp: cache_get_def cache_holds_def Let_def remove_entry_def split: option.splits if_splits)
  show "q = p \<and> m = material k \<or> q \<noteq> p \<and> cache_holds c q m" if "cache_holds (cache_insert p k c) q m"
    for p k c q m
    using that
    by (auto simp: cache_insert_def cache_holds_def Let_def remove_entry_def evict_lru_def
        split: if_splits list.splits)
  show "\<not> cache_holds (cache_clear c) p m" for c p m
    by (simp add: cache_holds_def cache_clear_def)
qed

section \<open>Properties\<close>

lemma run_from_new:
  assumes "run_ops cache_step xs (key_cache_new cfg) = (rs, c)"
  shows "cache_wf c" "run_ops (lru_step cfg) xs [] = (rs, recency c)" "cc_config c = cfg"
  using run_refines [OF cache_wf_new assms] by (simp_all add: recency_def key_cache_new_def)

text \<open>C17. The key cache is a least-recently-used cache: in any sequence of lookups, insertions, evictions
  and clearings, at any times, its map and its list of paths give exactly the results and the contents
  of one list of entries ordered by last use, from which an insertion into a full cache drops the
  first; the list of paths never repeats a path and names exactly the keys of the map.\<close>

theorem cache_refines_lru:
  "\<exists>c. run_ops cache_step xs (key_cache_new cfg) = (fst (run_ops (lru_step cfg) xs []), c) \<and>
     recency c = snd (run_ops (lru_step cfg) xs []) \<and> distinct (order c) \<and>
     set (order c) = set (hm_keys (entries c))"
proof -
  obtain rs c where "run_ops cache_step xs (key_cache_new cfg) = (rs, c)"
    by fastforce
  with run_from_new [OF this] show ?thesis
    by (simp add: cache_wf_def)
qed

text \<open>C29. The cache is bounded: whatever is done with it, it never holds more entries than its capacity,
  a capacity of zero being treated as one, and its two structures always have the same size.\<close>

theorem cache_bounded:
  "cache_len (snd (run_ops cache_step xs (key_cache_new cfg))) \<le> max 1 (max_entries cfg) \<and>
   length (order (snd (run_ops cache_step xs (key_cache_new cfg)))) =
     cache_len (snd (run_ops cache_step xs (key_cache_new cfg)))"
proof -
  obtain rs c where r: "run_ops cache_step xs (key_cache_new cfg) = (rs, c)"
    by fastforce
  have "lru_bounded (max_entries cfg) (recency c)"
    using lru_bounded_run [of cfg "[]" xs] run_from_new(2) [OF r] by (simp add: lru_bounded_def)
  then show ?thesis
    using run_from_new(1) [OF r] by (simp add: r cache_len_def cache_wf_len lru_bounded_def) (simp add: recency_def)
qed

text \<open>Recently used keys are kept: after a key was inserted, lookups and insertions of fewer other
  paths than the capacity, in any order and number, leave it in the cache, unchanged.\<close>

theorem lru_retention:
  assumes "finite ps" "card ps < max_entries cfg" "p \<notin> ps" "list_all (accesses ps) xs"
  shows "hm_get (entries (snd (run_ops cache_step xs
      (cache_insert p k (snd (run_ops cache_step ys (key_cache_new cfg))))))) p = Some k"
proof -
  obtain rs c where r: "run_ops cache_step ys (key_cache_new cfg) = (rs, c)"
    by fastforce
  let ?c = "cache_insert p k c"
  have c: "cache_wf ?c" "cc_config ?c = cfg" "recency ?c = lru_insert (max_entries cfg) p k (recency c)"
    using run_from_new [OF r] by (simp_all add: cache_insert_refines)
  obtain rs' c' where r': "run_ops cache_step xs ?c = (rs', c')"
    by fastforce
  have "lru_bounded (max_entries cfg) (recency ?c)"
    using lru_bounded_run [of cfg "[]" ys] run_from_new(2) [OF r] by (simp add: c(3) lru_bounded_insert lru_bounded_def [of _ "[]"])
  then have "recent ps p k (recency ?c)"
    unfolding c(3) by (rule recent_insert_self)
  then have "recent ps p k (recency c')"
    using recent_run [of ps p k "recency ?c" cfg xs] assms run_refines [OF c(1) r'] c(2) by simp
  then have "map_of (recency c') p = Some k"
    by (rule recent_map_of)
  then show ?thesis
    using run_refines [OF c(1) r'] by (simp add: r r' map_of_recency)
qed

theorem lru_retention_witness:
  "let k = cached_key_new 0 Ed25519 [1] [2]; cfg = cache_config_new 10 2 in
   hm_get (entries (snd (run_ops cache_step [OpInsert ''b'' k, OpGet 1 1 ''b'', OpInsert ''b'' k]
     (cache_insert ''a'' k (snd (run_ops cache_step [OpInsert ''x'' k, OpInsert ''y'' k] (key_cache_new cfg)))))))
     ''a'' = Some k"
  unfolding Let_def by (rule lru_retention [of "{''b''}"]) (simp_all add: cache_config_new_def)

text \<open>A cache hit is fresh and right: whatever happened before, a key that a lookup returns is the one
  that was inserted last under that path, since when the cache was not cleared, apart from its access
  time, and it was derived no longer ago than the time to live.\<close>

theorem cache_hit_sound:
  assumes "run_ops cache_step xs (key_cache_new cfg) = (rs, c)" "cache_get now now' p c = (Some k, c')"
  shows "\<exists>k0. last_put xs p = Some k0 \<and> same_key k k0 \<and> now - derived_at k \<le> ttl cfg"
proof -
  note r = run_from_new [OF assms(1)]
  have "lru_from (last_put xs) (recency c)"
    using lru_from_run [of "\<lambda>_. None" "[]" xs cfg] r(2) by (simp add: lru_from_def last_put_def)
  moreover obtain k1 where k1: "map_of (recency c) p = Some k1" "\<not> is_expired now (ttl cfg) k1" "k = touch now' k1"
    using cache_get_refines(2) [OF r(1) assms(2)] r(3) by (auto simp: lru_get_def split: option.splits if_splits)
  ultimately have "\<exists>k0. last_put xs p = Some k0 \<and> same_key k1 k0"
    by (auto simp: lru_from_def dest!: map_of_SomeD)
  then show ?thesis
    using k1 by (auto simp: is_expired_def touch_def same_key_def)
qed

theorem cache_hit_sound_witness:
  "\<exists>k0 k. last_put [OpInsert ''a'' (cached_key_new 5 Ed25519 [1] [2]), OpInsert ''b'' (cached_key_new 6 Ed25519 [3] [4])] ''a'' = Some k0 \<and>
     same_key k k0 \<and> 9 - derived_at k \<le> ttl (cache_config_new 10 2)"
proof -
  let ?xs = "[OpInsert ''a'' (cached_key_new 5 Ed25519 [1] [2]), OpInsert ''b'' (cached_key_new 6 Ed25519 [3] [4])]"
  obtain rs c where r: "run_ops cache_step ?xs (key_cache_new (cache_config_new 10 2)) = (rs, c)"
    by fastforce
  have "fst (cache_get 9 9 ''a'' (snd (run_ops cache_step ?xs (key_cache_new (cache_config_new 10 2))))) \<noteq> None"
    by code_simp
  then obtain k c' where "cache_get 9 9 ''a'' c = (Some k, c')"
    using r by (cases "cache_get 9 9 ''a'' c") auto
  from cache_hit_sound [OF r this] show ?thesis
    by blast
qed

end
