(* ===== verification/Derivation.thy ===== *)
theory Derivation
  imports Rust_Str
begin

text \<open>
  \<open>alknet-secret/src/derivation.rs\<close> and \<open>ethereum.rs\<close>: derivation paths, the SLIP-0010 derivation of
  Ed25519 keys and the BIP-0032 derivation of secp256k1 keys. The primitives (\<open>hmac\<close>, \<open>ed25519_bip32\<close>,
  \<open>secp256k1\<close>) are the fields of \<open>derivation_api\<close>; their fixed-size arrays are byte lists.

  The addition that marks an index as hardened is on \<open>u32\<close>: with overflow checks (a debug build) it
  panics on overflow, without (a release build) it wraps. The argument \<open>chk\<close> says which build it is.
\<close>

section \<open>Paths\<close>

definition PATHS_IDENTITY :: string where
  "PATHS_IDENTITY = ''m/74'/0'/0'/0'' @ [CHR 0x27]"

definition PATHS_DEVICE_PREFIX :: string where
  "PATHS_DEVICE_PREFIX = ''m/74'/0'/0'' @ [CHR 0x27]"

definition PATHS_SSH_HOST :: string where
  "PATHS_SSH_HOST = ''m/74'/0'/1'/0'' @ [CHR 0x27]"

definition PATHS_ENCRYPTION :: string where
  "PATHS_ENCRYPTION = ''m/74'/2'/0'/0'' @ [CHR 0x27]"

definition PATHS_ETHEREUM :: string where
  "PATHS_ETHEREUM = ''m/44'/60'/0'/0/0''"

definition device_path :: "u32 \<Rightarrow> string" where
  "device_path index = ''m/74'/0'/0'/'' @ show_nat (unat index) @ [CHR 0x27]"

definition site_password_path :: "string \<Rightarrow> string" where
  "site_password_path site_hash = ''m/74'/1'/0'/'' @ site_hash @ [CHR 0x27]"

datatype derivation_error =
  InvalidPath string
| Hmac string
| KeyDerivation string
| Locked
| Secp256k1Error string
| UnsupportedKeyType

definition HARDENED_OFFSET :: u32 where
  "HARDENED_OFFSET = 0x80000000"

definition add_u32 :: "bool \<Rightarrow> u32 \<Rightarrow> u32 \<Rightarrow> u32 outcome" where
  "add_u32 chk a b = (if chk \<and> 2 ^ 32 \<le> unat a + unat b then Panics else Returns (a + b))"

definition parse_index :: "bool \<Rightarrow> string \<Rightarrow> (derivation_error + u32) outcome" where
  "parse_index chk part =
     (let hardened = ends_with part [CHR 0x27] \<or> ends_with part ''h'';
          index_str = trim_end_matches (trim_end_matches part (CHR 0x27)) (CHR ''h'') in
      case parse_u32 index_str of
        Err _ \<Rightarrow> Returns (Err (InvalidPath (''invalid index: '' @ part)))
      | Ok index \<Rightarrow>
          if hardened then outcome_bind (add_u32 chk index 0x80000000) (\<lambda>i. Returns (Ok i))
          else Returns (Ok index))"

fun parse_indices :: "bool \<Rightarrow> string list \<Rightarrow> (derivation_error + u32 list) outcome" where
  "parse_indices chk [] = Returns (Ok [])"
| "parse_indices chk (part # parts) =
     outcome_bind (parse_index chk part) (\<lambda>r.
       case r of Err e \<Rightarrow> Returns (Err e)
       | Ok i \<Rightarrow> outcome_bind (parse_indices chk parts) (\<lambda>rs.
           Returns (map_sum id (\<lambda>is. i # is) rs)))"

definition parse_derivation_path :: "bool \<Rightarrow> string \<Rightarrow> (derivation_error + u32 list) outcome" where
  "parse_derivation_path chk path =
     (if \<not> starts_with path ''m'' then Returns (Err (InvalidPath (''path must start with 'm'' @ [CHR 0x27])))
      else parse_indices chk (drop 1 (str_split path (CHR ''/''))))"

section \<open>Ed25519\<close>

record ('x, 'sk) derivation_api =
  hmac_sha512 :: "bytes \<Rightarrow> bytes \<Rightarrow> string + bytes"
  from_nonextended_force :: "bytes \<Rightarrow> bytes \<Rightarrow> 'x"
  xprv_derive :: "'x \<Rightarrow> u32 \<Rightarrow> 'x"
  extended_secret_key_bytes :: "'x \<Rightarrow> bytes"
  xprv_public :: "'x \<Rightarrow> bytes"
  xprv_chain_code :: "'x \<Rightarrow> bytes"
  secret_key_from_slice :: "bytes \<Rightarrow> string + 'sk"
  add_tweak :: "'sk \<Rightarrow> 'sk \<Rightarrow> string + 'sk"
  secret_bytes :: "'sk \<Rightarrow> bytes"
  public_serialize :: "'sk \<Rightarrow> bytes"

record extended_priv_key =
  xk_private_key :: bytes
  xk_public_key :: bytes
  xk_chain_code :: bytes
  xk_path :: string

definition derive_master_key :: "('x, 'sk) derivation_api \<Rightarrow> bytes \<Rightarrow> derivation_error + 'x" where
  "derive_master_key api seed =
     (case hmac_sha512 api (as_bytes ''ed25519 seed'') seed of
        Err e \<Rightarrow> Err (Hmac e)
      | Ok result \<Rightarrow> Ok (from_nonextended_force api (take 32 result) (drop 32 result)))"

definition derive_path_from_seed ::
  "bool \<Rightarrow> ('x, 'sk) derivation_api \<Rightarrow> bytes \<Rightarrow> string \<Rightarrow> (derivation_error + extended_priv_key) outcome" where
  "derive_path_from_seed chk api seed path =
     outcome_bind (parse_derivation_path chk path) (\<lambda>r. Returns (
       result_bind r (\<lambda>indices.
       result_bind (derive_master_key api seed) (\<lambda>xprv.
         let current = fold (\<lambda>index x. xprv_derive api x index) indices xprv in
         Ok \<lparr>xk_private_key = take 32 (extended_secret_key_bytes api current),
             xk_public_key = take 32 (xprv_public api current),
             xk_chain_code = xprv_chain_code api current,
             xk_path = path\<rparr>))))"

section \<open>secp256k1\<close>

record secp256k1_extended_priv_key =
  sp_private_key :: bytes
  sp_public_key :: bytes
  sp_chain_code :: bytes

definition derive_secp256k1_master_key ::
  "('x, 'sk) derivation_api \<Rightarrow> bytes \<Rightarrow> derivation_error + secp256k1_extended_priv_key" where
  "derive_secp256k1_master_key api seed =
     result_bind (map_err Hmac (hmac_sha512 api (as_bytes ''Bitcoin seed'') seed)) (\<lambda>result.
     result_bind (map_err Secp256k1Error (secret_key_from_slice api (take 32 result))) (\<lambda>secret_key.
       Ok \<lparr>sp_private_key = secret_bytes api secret_key,
           sp_public_key = public_serialize api secret_key,
           sp_chain_code = drop 32 result\<rparr>))"

definition child_data :: "secp256k1_extended_priv_key \<Rightarrow> u32 \<Rightarrow> bytes" where
  "child_data parent index =
     (if HARDENED_OFFSET \<le> index then 0 # sp_private_key parent else sp_public_key parent) @
     u32_to_be_bytes index"

definition derive_child ::
  "('x, 'sk) derivation_api \<Rightarrow> secp256k1_extended_priv_key \<Rightarrow> u32 \<Rightarrow>
   derivation_error + secp256k1_extended_priv_key" where
  "derive_child api parent index =
     result_bind (map_err Hmac (hmac_sha512 api (sp_chain_code parent) (child_data parent index))) (\<lambda>result.
     result_bind (map_err Secp256k1Error (secret_key_from_slice api (sp_private_key parent))) (\<lambda>parent_secret.
     result_bind (map_err Secp256k1Error (secret_key_from_slice api (take 32 result))) (\<lambda>child_key_raw.
     result_bind (map_err Secp256k1Error (add_tweak api parent_secret child_key_raw)) (\<lambda>child_secret.
       Ok \<lparr>sp_private_key = secret_bytes api child_secret,
           sp_public_key = public_serialize api child_secret,
           sp_chain_code = drop 32 result\<rparr>))))"

fun derive_children ::
  "('x, 'sk) derivation_api \<Rightarrow> u32 list \<Rightarrow> secp256k1_extended_priv_key \<Rightarrow>
   derivation_error + secp256k1_extended_priv_key" where
  "derive_children api [] current = Ok current"
| "derive_children api (index # indices) current =
     result_bind (derive_child api current index) (derive_children api indices)"

definition derive_secp256k1_path ::
  "bool \<Rightarrow> ('x, 'sk) derivation_api \<Rightarrow> bytes \<Rightarrow> string \<Rightarrow>
   (derivation_error + secp256k1_extended_priv_key) outcome" where
  "derive_secp256k1_path chk api seed path =
     outcome_bind (parse_derivation_path chk path) (\<lambda>r. Returns (
       result_bind r (\<lambda>indices.
       result_bind (derive_secp256k1_master_key api seed) (derive_children api indices))))"

section \<open>Printed paths\<close>

definition print_index :: "u32 \<times> bool \<Rightarrow> string" where
  "print_index x = show_nat (unat (fst x)) @ (if snd x then [CHR 0x27] else [])"

definition print_path :: "(u32 \<times> bool) list \<Rightarrow> string" where
  "print_path xs = str_join (CHR ''/'') (''m'' # map print_index xs)"

definition child_index :: "u32 \<times> bool \<Rightarrow> u32" where
  "child_index x = (if snd x then fst x + HARDENED_OFFSET else fst x)"

definition index_overflows :: "u32 \<times> bool \<Rightarrow> bool" where
  "index_overflows x \<longleftrightarrow> snd x \<and> HARDENED_OFFSET \<le> fst x"

lemma trim_end_matches_snoc [simp]: "trim_end_matches (s @ [c]) c = trim_end_matches s c"
  by (simp add: trim_end_matches_def)

lemma trim_end_matches_absent: "c \<notin> set s \<Longrightarrow> trim_end_matches s c = s"
  by (cases s rule: rev_cases) (auto simp: trim_end_matches_def)

lemma ends_with_snoc [simp]: "ends_with (s @ [c]) [d] \<longleftrightarrow> c = d"
  by (auto simp: ends_with_iff)

lemma not_ends_with: "d \<notin> set s \<Longrightarrow> \<not> ends_with s [d]"
  by (auto simp: ends_with_iff)

lemma add_hardened:
  "add_u32 chk n 0x80000000 =
     (if chk \<and> HARDENED_OFFSET \<le> n then Panics else Returns (n + HARDENED_OFFSET))"
  by (simp add: add_u32_def HARDENED_OFFSET_def word_le_nat_alt)

lemma parse_index_print:
  "parse_index chk (print_index x) =
     (if chk \<and> index_overflows x then Panics else Returns (Ok (child_index x)))"
proof -
  obtain n h where x: "x = (n, h)"
    by fastforce
  have no: "CHR 0x27 \<notin> set (show_nat (unat n))" "CHR ''h'' \<notin> set (show_nat (unat n))"
    by (auto dest: set_show_nat [THEN subsetD])
  then show ?thesis
    unfolding x print_index_def index_overflows_def child_index_def parse_index_def Let_def
    by (cases h) (simp_all add: trim_end_matches_absent parse_u32_show not_ends_with add_hardened)
qed

lemma parse_indices_print:
  "parse_indices chk (map print_index xs) =
     (if chk \<and> list_ex index_overflows xs then Panics else Returns (Ok (map child_index xs)))"
  by (induction xs) (auto simp: parse_index_print)

lemma print_index_no_slash: "CHR ''/'' \<notin> set (print_index x)"
  by (auto simp: print_index_def dest: set_show_nat [THEN subsetD])

lemma split_print_path: "str_split (print_path xs) (CHR ''/'') = ''m'' # map print_index xs"
  unfolding print_path_def by (rule str_split_join) (auto simp: print_index_no_slash)

lemma print_path_m: "starts_with (print_path xs) ''m''"
  by (cases xs) (simp_all add: print_path_def starts_with_def)

lemma parse_print_path:
  "parse_derivation_path chk (print_path xs) =
     (if chk \<and> list_ex index_overflows xs then Panics else Returns (Ok (map child_index xs)))"
  by (simp add: parse_derivation_path_def print_path_m split_print_path parse_indices_print)

lemma device_path_print: "device_path i = print_path [(74, True), (0, True), (0, True), (i, True)]"
proof -
  have "show_nat 74 = ''74''" "show_nat 0 = ''0''"
    by code_simp+
  then show ?thesis
    by (simp add: device_path_def print_path_def print_index_def)
qed

lemma known_paths_print:
  "PATHS_IDENTITY = print_path [(74, True), (0, True), (0, True), (0, True)]"
  "PATHS_SSH_HOST = print_path [(74, True), (0, True), (1, True), (0, True)]"
  "PATHS_ENCRYPTION = print_path [(74, True), (2, True), (0, True), (0, True)]"
  "PATHS_ETHEREUM = print_path [(44, True), (60, True), (0, True), (0, False), (0, False)]"
  by code_simp+

section \<open>Sizes\<close>

text \<open>What the types of the primitives say: an extended secret key has 64 bytes, a secret key 32.\<close>

definition derivation_sizes :: "('x, 'sk) derivation_api \<Rightarrow> bool" where
  "derivation_sizes api \<longleftrightarrow>
     (\<forall>x. length (extended_secret_key_bytes api x) = 64) \<and> (\<forall>sk. length (secret_bytes api sk) = 32)"

lemma derive_path_size:
  assumes "derivation_sizes api" "derive_path_from_seed chk api seed path = Returns (Ok k)"
  shows "length (xk_private_key k) = 32"
  using assms
  by (auto simp: derive_path_from_seed_def derivation_sizes_def outcome_bind_Returns_iff
      result_bind_Inr_iff Let_def)

lemma derive_child_size:
  "derivation_sizes api \<Longrightarrow> derive_child api parent i = Ok k \<Longrightarrow> length (sp_private_key k) = 32"
  by (auto simp: derive_child_def derivation_sizes_def result_bind_Inr_iff)

lemma derive_children_size:
  "derivation_sizes api \<Longrightarrow> derive_children api is parent = Ok k \<Longrightarrow> length (sp_private_key parent) = 32 \<Longrightarrow>
     length (sp_private_key k) = 32"
  by (induction "is" arbitrary: parent) (auto simp: result_bind_Inr_iff dest: derive_child_size)

lemma derive_secp256k1_size:
  assumes "derivation_sizes api" "derive_secp256k1_path chk api seed path = Returns (Ok k)"
  shows "length (sp_private_key k) = 32"
proof -
  obtain m "is" where m: "derive_secp256k1_master_key api seed = Ok m" "derive_children api is m = Ok k"
    using assms(2) by (auto simp: derive_secp256k1_path_def outcome_bind_Returns_iff result_bind_Inr_iff)
  then have "length (sp_private_key m) = 32"
    using assms(1) by (auto simp: derive_secp256k1_master_key_def derivation_sizes_def result_bind_Inr_iff)
  then show ?thesis
    by (rule derive_children_size [OF assms(1) m(2)])
qed

section \<open>Properties\<close>

text \<open>C30. Printed derivation paths parse back: a path written as "m" and a list of decimal indices, each
  with or without the hardened mark, is parsed to exactly these indices in order, a hardened one
  offset by 2^31. The one exception is a hardened index of 2^31 or more, on which a build with
  overflow checks panics.\<close>

theorem derivation_path_roundtrip:
  "parse_derivation_path chk (print_path xs) =
     (if chk \<and> list_ex index_overflows xs then Panics else Returns (Ok (map child_index xs)))"
  by (rule parse_print_path)

text \<open>Device paths are hardened only for the first half of the device numbers: for a device below 2^31
  the path parses to four hardened indices ending in that device; for any other device a build with
  overflow checks panics, and a build without silently parses a last index that is not hardened.\<close>

theorem device_path_indices:
  "parse_derivation_path chk (device_path i) =
     (if i < HARDENED_OFFSET then
        Returns (Ok [HARDENED_OFFSET + 74, HARDENED_OFFSET, HARDENED_OFFSET, HARDENED_OFFSET + i])
      else if chk then Panics
      else Returns (Ok [HARDENED_OFFSET + 74, HARDENED_OFFSET, HARDENED_OFFSET, i - HARDENED_OFFSET])) \<and>
   (HARDENED_OFFSET \<le> i \<longrightarrow> i - HARDENED_OFFSET < HARDENED_OFFSET)"
proof -
  have wrap: "i + HARDENED_OFFSET = i - HARDENED_OFFSET"
    by (simp add: HARDENED_OFFSET_def)
  have "i - HARDENED_OFFSET < HARDENED_OFFSET" if "HARDENED_OFFSET \<le> i"
    using that unsigned_less [of i, where ?'a = nat]
    by (simp add: HARDENED_OFFSET_def word_less_nat_alt word_le_nat_alt unat_sub)
  then show ?thesis
    unfolding device_path_print parse_print_path
    by (auto simp: index_overflows_def child_index_def wrap not_le add.commute) (auto simp: HARDENED_OFFSET_def)
qed

theorem device_path_indices_witness:
  "parse_derivation_path False (device_path 0x80000005) =
     Returns (Ok [HARDENED_OFFSET + 74, HARDENED_OFFSET, HARDENED_OFFSET, 5]) \<and> (5 :: u32) < HARDENED_OFFSET"
  using device_path_indices [of False "0x80000005"] by (simp add: HARDENED_OFFSET_def)

end
