(* ===== verification/Secret_Encryption.thy ===== *)
theory Secret_Encryption
  imports Rust_Utf8
begin

text \<open>
  \<open>alknet-secret/src/encryption.rs\<close> and \<open>mnemonic.rs\<close>: encryption of external credentials and the
  mnemonic phrase the seed comes from. The cipher (\<open>aes_gcm\<close>), base64 and BIP-39 (\<open>bip39\<close>) are the
  fields of \<open>cipher_api\<close> and \<open>bip39_api\<close>; random bytes are arguments. \<open>Nonce::from_slice\<close> panics on a slice that
  is not twelve bytes long.
\<close>

section \<open>Encryption\<close>

definition CURRENT_KEY_VERSION :: u32 where
  "CURRENT_KEY_VERSION = 1"

record encrypted_data =
  ed_key_version :: u32
  ed_salt :: string
  ed_iv :: string
  ed_data :: string

record encryption_key =
  key_bytes :: bytes
  key_version :: u32

datatype encryption_error =
  Encryption string
| Decryption string
| Decoding string
| KeyVersionMismatch u32 u32

record 'c cipher_api =
  aes_new :: "bytes \<Rightarrow> string + 'c"
  aes_encrypt :: "'c \<Rightarrow> bytes \<Rightarrow> bytes \<Rightarrow> string + bytes"
  aes_decrypt :: "'c \<Rightarrow> bytes \<Rightarrow> bytes \<Rightarrow> string + bytes"
  b64_encode :: "bytes \<Rightarrow> string"
  b64_decode :: "string \<Rightarrow> string + bytes"
  utf8_error :: "bytes \<Rightarrow> string"

definition encryption_key_new :: "bytes \<Rightarrow> u32 \<Rightarrow> encryption_key" where
  "encryption_key_new bs v = \<lparr>key_bytes = bs, key_version = v\<rparr>"

definition from_derived_bytes :: "bytes \<Rightarrow> u32 \<Rightarrow> encryption_key outcome" where
  "from_derived_bytes bs v =
     (if length bs < 32 then Panics else Returns \<lparr>key_bytes = take 32 bs, key_version = v\<rparr>)"

definition nonce_from_slice :: "bytes \<Rightarrow> bytes outcome" where
  "nonce_from_slice bs = (if length bs = 12 then Returns bs else Panics)"

definition data_encrypt ::
  "'c cipher_api \<Rightarrow> bytes \<Rightarrow> bytes \<Rightarrow> string \<Rightarrow> encryption_key \<Rightarrow> encryption_error + encrypted_data" where
  "data_encrypt api iv_bytes salt_bytes plaintext key =
     result_bind (map_err (\<lambda>e. Encryption (''invalid key length: '' @ e)) (aes_new api (key_bytes key))) (\<lambda>cipher.
     result_bind (map_err Encryption (aes_encrypt api cipher iv_bytes (as_bytes plaintext))) (\<lambda>ciphertext.
       Ok \<lparr>ed_key_version = key_version key, ed_salt = b64_encode api salt_bytes,
           ed_iv = b64_encode api iv_bytes, ed_data = b64_encode api ciphertext\<rparr>))"

definition data_decrypt ::
  "'c cipher_api \<Rightarrow> encrypted_data \<Rightarrow> encryption_key \<Rightarrow> (encryption_error + string) outcome" where
  "data_decrypt api encrypted key =
     (case map_err (\<lambda>e. Decryption (''invalid key length: '' @ e)) (aes_new api (key_bytes key)) of
        Err e \<Rightarrow> Returns (Err e)
      | Ok cipher \<Rightarrow>
     (case map_err Decoding (b64_decode api (ed_iv encrypted)) of
        Err e \<Rightarrow> Returns (Err e)
      | Ok iv_bytes \<Rightarrow>
     outcome_bind (nonce_from_slice iv_bytes) (\<lambda>nonce. Returns (
       result_bind (map_err Decoding (b64_decode api (ed_data encrypted))) (\<lambda>ciphertext.
       result_bind (map_err Decryption (aes_decrypt api cipher nonce ciphertext)) (\<lambda>plaintext.
         if utf8_valid (of_bytes plaintext) then Ok (of_bytes plaintext)
         else Err (Decryption (utf8_error api plaintext))))))))"

text \<open>What the cipher and the encoding promise: a key of 32 bytes is accepted, what was encrypted under a
  key and a nonce decrypts under them, and what was encoded decodes.\<close>

definition cipher_ok :: "'c cipher_api \<Rightarrow> bool" where
  "cipher_ok api \<longleftrightarrow>
     (\<forall>k. length k = 32 \<longrightarrow> (\<exists>c. aes_new api k = Ok c)) \<and>
     (\<forall>c n p x. aes_encrypt api c n p = Ok x \<longrightarrow> aes_decrypt api c n x = Ok p) \<and>
     (\<forall>bs. b64_decode api (b64_encode api bs) = Ok bs)"

section \<open>Mnemonic phrases\<close>

datatype language = English

datatype mnemonic_error = Generation string | InvalidPhrase string

record 'm bip39_api =
  parse_normalized :: "string \<Rightarrow> string + 'm"
  bip39_to_string :: "'m \<Rightarrow> string"
  to_seed_normalized :: "'m \<Rightarrow> string \<Rightarrow> bytes"

record mnemonic =
  phrase :: string

text \<open>\<open>generated\<close> is what the generator returns for the word count, errors included.\<close>

definition mnemonic_generate :: "'m bip39_api \<Rightarrow> string + 'm \<Rightarrow> mnemonic_error + mnemonic" where
  "mnemonic_generate api generated =
     (case generated of Err e \<Rightarrow> Err (Generation e) | Ok m \<Rightarrow> Ok \<lparr>phrase = bip39_to_string api m\<rparr>)"

definition from_phrase :: "'m bip39_api \<Rightarrow> string \<Rightarrow> language \<Rightarrow> mnemonic_error + mnemonic" where
  "from_phrase api p lang =
     (case parse_normalized api p of
        Err e \<Rightarrow> Err (InvalidPhrase e)
      | Ok m \<Rightarrow> Ok \<lparr>phrase = bip39_to_string api m\<rparr>)"

text \<open>The phrase is parsed again; the \<open>unwrap\<close> panics if that fails.\<close>

definition to_seed :: "'m bip39_api \<Rightarrow> mnemonic \<Rightarrow> string option \<Rightarrow> bytes outcome" where
  "to_seed api m passphrase =
     (case parse_normalized api (phrase m) of
        Err _ \<Rightarrow> Panics
      | Ok b \<Rightarrow> Returns (to_seed_normalized api b (case passphrase of Some p \<Rightarrow> p | None \<Rightarrow> '''')))"

text \<open>A mnemonic prints to a phrase that parses to it.\<close>

definition bip39_ok :: "'m bip39_api \<Rightarrow> bool" where
  "bip39_ok api \<longleftrightarrow> (\<forall>m. parse_normalized api (bip39_to_string api m) = Ok m)"

lemma to_seed_from_phrase:
  assumes "bip39_ok api" "from_phrase api p lang = Ok m"
  shows "\<exists>b. parse_normalized api p = Ok b \<and>
    to_seed api m pass = Returns (to_seed_normalized api b (case pass of Some p \<Rightarrow> p | None \<Rightarrow> ''''))"
  using assms by (auto simp: from_phrase_def to_seed_def bip39_ok_def split: sum.splits)

lemma to_seed_generated:
  assumes "bip39_ok api" "mnemonic_generate api g = Ok m"
  shows "\<exists>b. g = Ok b \<and> phrase m = bip39_to_string api b \<and> to_seed api m None = Returns (to_seed_normalized api b '''')"
  using assms by (auto simp: mnemonic_generate_def to_seed_def bip39_ok_def split: sum.splits)

section \<open>Lemmas\<close>

lemma data_decrypt_panics_iff:
  "data_decrypt api d key = Panics \<longleftrightarrow>
     (\<exists>c iv. aes_new api (key_bytes key) = Ok c \<and> b64_decode api (ed_iv d) = Ok iv \<and> length iv \<noteq> 12)"
  by (auto simp: data_decrypt_def nonce_from_slice_def split: sum.split)

lemma decrypt_encrypt:
  assumes "cipher_ok api" "length iv = 12" "utf8_valid plaintext"
    and "data_encrypt api iv salt plaintext key = Ok d" "key_bytes key' = key_bytes key"
  shows "data_decrypt api d key' = Returns (Ok plaintext)"
  using assms
  by (auto simp: data_encrypt_def data_decrypt_def nonce_from_slice_def cipher_ok_def result_bind_Inr_iff)

section \<open>Properties\<close>

text \<open>Encryption round trip, and the key version is not checked: with a cipher and an encoding that
  invert themselves, decrypting encrypted data with the same key bytes returns the plaintext, whatever
  version the decrypting key claims to have; the version in the data is the one of the encrypting key
  and a version mismatch is never reported.\<close>

theorem encryption_roundtrip:
  assumes "cipher_ok api" "length iv = 12" "utf8_valid plaintext"
    and "data_encrypt api iv salt plaintext (encryption_key_new k v) = Ok d"
  shows "ed_key_version d = v \<and> data_decrypt api d (encryption_key_new k w) = Returns (Ok plaintext) \<and>
    data_decrypt api d key \<noteq> Returns (Err (KeyVersionMismatch expected actual))"
proof -
  have "ed_key_version d = v"
    using assms(4) by (auto simp: data_encrypt_def encryption_key_new_def result_bind_Inr_iff)
  moreover have "data_decrypt api d key \<noteq> Returns (Err (KeyVersionMismatch expected actual))"
    by (auto simp: data_decrypt_def nonce_from_slice_def result_bind_def map_err_def split: sum.splits if_splits)
  ultimately show ?thesis
    using decrypt_encrypt [OF assms, of "encryption_key_new k w"] by (simp add: encryption_key_new_def)
qed

text \<open>A cipher for examples: the nonce and the key are put before the text.\<close>

definition plain_cipher :: "bytes cipher_api" where
  "plain_cipher =
     \<lparr>aes_new = (\<lambda>k. if length k = 32 then Ok k else Err ''length''),
      aes_encrypt = (\<lambda>c n p. Ok (c @ n @ p)),
      aes_decrypt = (\<lambda>c n x. if starts_with (of_bytes x) (of_bytes (c @ n)) then Ok (drop (length (c @ n)) x)
                             else Err ''aead''),
      b64_encode = of_bytes, b64_decode = (\<lambda>s. Ok (as_bytes s)), utf8_error = (\<lambda>_. ''utf8'')\<rparr>"

lemma cipher_ok_plain: "cipher_ok plain_cipher"
proof -
  have "of_bytes (a @ b) = of_bytes a @ of_bytes b" for a b
    by (simp add: of_bytes_def)
  then show ?thesis
    by (simp add: cipher_ok_def plain_cipher_def starts_with_iff)
qed

theorem encryption_roundtrip_witness:
  "\<exists>d. data_encrypt plain_cipher (replicate 12 1) [7] ''secret'' (encryption_key_new (replicate 32 9) 1) = Ok d \<and>
     data_decrypt plain_cipher d (encryption_key_new (replicate 32 9) 2) = Returns (Ok ''secret'')"
proof -
  obtain d where d: "data_encrypt plain_cipher (replicate 12 1) [7] ''secret'' (encryption_key_new (replicate 32 9) 1) = Ok d"
    by (auto simp: data_encrypt_def plain_cipher_def encryption_key_new_def)
  have "utf8_valid ''secret''"
    by code_simp
  then show ?thesis
    using encryption_roundtrip [OF cipher_ok_plain _ _ d] d by simp
qed

end
