(* ===== verification/Secret_Service.thy ===== *)
theory Secret_Service
  imports Key_Cache Derivation Secret_Encryption Call_Envelope
begin

text \<open>
  \<open>alknet-secret/src/service.rs\<close> and \<open>protocol.rs\<close>: the secret service with its unlock/lock life cycle,
  its key operations and the actor that serves messages.

  The state is behind an \<open>RwLock\<close>. A call holds the lock to its end, so calls of concurrent tasks are a
  sequence of steps. A panic while the write lock is held poisons the lock, and every later \<open>unwrap\<close> of
  it panics; \<open>with_write\<close> and \<open>with_read\<close> say so. A panic under a read lock does not poison.
\<close>

section \<open>Keys and errors\<close>

record derived_key =
  dk_key_type :: key_type
  dk_private_key :: bytes
  dk_public_key :: bytes

datatype secret_service_error =
  ServiceLocked
| AlreadyUnlocked
| MnemonicFailed string
| DerivationFailed string
| EncryptionFailed string
| InvalidPathError string
| UnsupportedKey

fun show_mnemonic_error :: "mnemonic_error \<Rightarrow> string" where
  "show_mnemonic_error (Generation e) = ''failed to generate mnemonic: '' @ e"
| "show_mnemonic_error (InvalidPhrase e) = ''invalid mnemonic phrase: '' @ e"

fun show_derivation_error :: "derivation_error \<Rightarrow> string" where
  "show_derivation_error (InvalidPath e) = ''invalid derivation path: '' @ e"
| "show_derivation_error (Hmac e) = ''HMAC error: '' @ e"
| "show_derivation_error (KeyDerivation e) = ''key derivation error: '' @ e"
| "show_derivation_error Locked = ''seed is not unlocked''"
| "show_derivation_error (Secp256k1Error e) = ''secp256k1 error: '' @ e"
| "show_derivation_error UnsupportedKeyType = ''unsupported key type''"

fun show_encryption_error :: "encryption_error \<Rightarrow> string" where
  "show_encryption_error (Encryption e) = ''encryption error: '' @ e"
| "show_encryption_error (Decryption e) = ''decryption error: '' @ e"
| "show_encryption_error (Decoding e) = ''base64 decoding error: '' @ e"
| "show_encryption_error (KeyVersionMismatch expected actual) =
     ''key version mismatch: expected '' @ show_nat (unat expected) @ '', got '' @ show_nat (unat actual)"

text \<open>The JSON form of a key hides the private part.\<close>

fun show_key_type :: "key_type \<Rightarrow> string" where
  "show_key_type Ed25519 = ''Ed25519''"
| "show_key_type Aes256Gcm = ''Aes256Gcm''"
| "show_key_type Secp256k1 = ''Secp256k1''"

definition derived_key_json :: "derived_key \<Rightarrow> json" where
  "derived_key_json k =
     JObject [(''key_type'', JString (show_key_type (dk_key_type k))), (''private_key'', JString ''[REDACTED]''),
       (''public_key'', JArray (map (\<lambda>b. JNumber (PosInt (ucast b))) (dk_public_key k)))]"

section \<open>State\<close>

record ('x, 'sk, 'c, 'm) secret_env =
  dapi :: "('x, 'sk) derivation_api"
  capi :: "'c cipher_api"
  mapi :: "'m bip39_api"
  secp256k1_feature :: bool
  overflow_checks :: bool
  url_safe_no_pad :: "bytes \<Rightarrow> string"

record secret_inner =
  si_mnemonic :: "mnemonic option"
  si_seed :: "bytes option"
  si_unlocked :: bool
  si_cache :: key_cache

record secret_service =
  inner :: secret_inner
  poisoned :: bool

text \<open>The readings of the clock in one call: in \<open>is_expired\<close>, in \<open>touch\<close> and for a new entry.\<close>

type_synonym ticks = "nat \<times> nat \<times> nat"

definition with_write :: "(secret_inner \<Rightarrow> 'r outcome \<times> secret_inner) \<Rightarrow> secret_service \<Rightarrow> 'r outcome \<times> secret_service" where
  "with_write f s =
     (if poisoned s then (Panics, s)
      else case f (inner s) of
             (Panics, i) \<Rightarrow> (Panics, \<lparr>inner = i, poisoned = True\<rparr>)
           | (Returns r, i) \<Rightarrow> (Returns r, \<lparr>inner = i, poisoned = False\<rparr>))"

definition with_read :: "(secret_inner \<Rightarrow> 'r outcome) \<Rightarrow> secret_service \<Rightarrow> 'r outcome \<times> secret_service" where
  "with_read f s = (if poisoned s then Panics else f (inner s), s)"

definition with_cache_config :: "cache_config \<Rightarrow> secret_service" where
  "with_cache_config cfg =
     \<lparr>inner = \<lparr>si_mnemonic = None, si_seed = None, si_unlocked = False, si_cache = key_cache_new cfg\<rparr>,
      poisoned = False\<rparr>"

definition secret_service_new :: secret_service where
  "secret_service_new = with_cache_config cache_config_default"

section \<open>Life cycle\<close>

definition unlock_inner ::
  "('x, 'sk, 'c, 'm) secret_env \<Rightarrow> string \<Rightarrow> string option \<Rightarrow> secret_inner \<Rightarrow>
   (secret_service_error + unit) outcome \<times> secret_inner" where
  "unlock_inner env p passphrase i =
     (if si_unlocked i then (Returns (Err AlreadyUnlocked), i)
      else case from_phrase (mapi env) p English of
             Err e \<Rightarrow> (Returns (Err (MnemonicFailed (show_mnemonic_error e))), i)
           | Ok m \<Rightarrow>
               case to_seed (mapi env) m passphrase of
                 Panics \<Rightarrow> (Panics, i)
               | Returns sd \<Rightarrow>
                   (Returns (Ok ()), i\<lparr>si_mnemonic := Some m, si_seed := Some sd, si_unlocked := True\<rparr>))"

definition unlock ::
  "('x, 'sk, 'c, 'm) secret_env \<Rightarrow> string \<Rightarrow> string option \<Rightarrow> secret_service \<Rightarrow>
   (secret_service_error + unit) outcome \<times> secret_service" where
  "unlock env p passphrase = with_write (unlock_inner env p passphrase)"

definition unlock_new ::
  "('x, 'sk, 'c, 'm) secret_env \<Rightarrow> string + 'm \<Rightarrow> secret_service \<Rightarrow>
   (secret_service_error + string) outcome \<times> secret_service" where
  "unlock_new env generated = with_write (\<lambda>i.
     if si_unlocked i then (Returns (Err AlreadyUnlocked), i)
     else case mnemonic_generate (mapi env) generated of
            Err e \<Rightarrow> (Returns (Err (MnemonicFailed (show_mnemonic_error e))), i)
          | Ok m \<Rightarrow>
              case to_seed (mapi env) m None of
                Panics \<Rightarrow> (Panics, i)
              | Returns sd \<Rightarrow>
                  (Returns (Ok (phrase m)), i\<lparr>si_mnemonic := Some m, si_seed := Some sd, si_unlocked := True\<rparr>))"

definition lock :: "secret_service \<Rightarrow> unit outcome \<times> secret_service" where
  "lock = with_write (\<lambda>i.
     (Returns (), i\<lparr>si_cache := cache_clear (si_cache i), si_seed := None, si_mnemonic := None, si_unlocked := False\<rparr>))"

definition is_unlocked :: "secret_service \<Rightarrow> bool outcome \<times> secret_service" where
  "is_unlocked = with_read (\<lambda>i. Returns (si_unlocked i))"

section \<open>Keys\<close>

definition ed25519_pair ::
  "('x, 'sk, 'c, 'm) secret_env \<Rightarrow> bytes \<Rightarrow> string \<Rightarrow> (derivation_error + bytes \<times> bytes) outcome" where
  "ed25519_pair env sd path =
     outcome_bind (derive_path_from_seed (overflow_checks env) (dapi env) sd path) (\<lambda>r.
     Returns (map_sum id (\<lambda>k. (xk_private_key k, xk_public_key k)) r))"

definition secp256k1_pair ::
  "('x, 'sk, 'c, 'm) secret_env \<Rightarrow> bytes \<Rightarrow> string \<Rightarrow> (derivation_error + bytes \<times> bytes) outcome" where
  "secp256k1_pair env sd path =
     outcome_bind (derive_secp256k1_path (overflow_checks env) (dapi env) sd path) (\<lambda>r.
     Returns (map_sum id (\<lambda>k. (sp_private_key k, sp_public_key k)) r))"

text \<open>The common body of the three key operations, with the derivation and the key type as arguments.\<close>

definition derive_through_cache ::
  "(bytes \<Rightarrow> string \<Rightarrow> (derivation_error + bytes \<times> bytes) outcome) \<Rightarrow> key_type \<Rightarrow> ticks \<Rightarrow> string \<Rightarrow>
   secret_inner \<Rightarrow> (secret_service_error + derived_key) outcome \<times> secret_inner" where
  "derive_through_cache derive kt t path i =
     (if \<not> si_unlocked i then (Returns (Err ServiceLocked), i)
      else case cache_get (fst t) (fst (snd t)) path (si_cache i) of
        (Some cached, c) \<Rightarrow>
          (Returns (Ok \<lparr>dk_key_type = ck_key_type cached, dk_private_key = ck_private_key cached,
             dk_public_key = ck_public_key cached\<rparr>), i\<lparr>si_cache := c\<rparr>)
      | (None, c) \<Rightarrow>
          (case si_seed i of
             None \<Rightarrow> (Returns (Err ServiceLocked), i\<lparr>si_cache := c\<rparr>)
           | Some sd \<Rightarrow>
               (case derive sd path of
                  Panics \<Rightarrow> (Panics, i\<lparr>si_cache := c\<rparr>)
                | Returns (Err e) \<Rightarrow> (Returns (Err (DerivationFailed (show_derivation_error e))), i\<lparr>si_cache := c\<rparr>)
                | Returns (Ok (priv, pub)) \<Rightarrow>
                    (Returns (Ok \<lparr>dk_key_type = kt, dk_private_key = priv, dk_public_key = pub\<rparr>),
                     i\<lparr>si_cache := cache_insert path (cached_key_new (snd (snd t)) kt priv pub) c\<rparr>))))"

definition derive_ed25519 ::
  "('x, 'sk, 'c, 'm) secret_env \<Rightarrow> ticks \<Rightarrow> string \<Rightarrow> secret_service \<Rightarrow>
   (secret_service_error + derived_key) outcome \<times> secret_service" where
  "derive_ed25519 env t path = with_write (derive_through_cache (ed25519_pair env) Ed25519 t path)"

definition derive_encryption_key ::
  "('x, 'sk, 'c, 'm) secret_env \<Rightarrow> ticks \<Rightarrow> string \<Rightarrow> secret_service \<Rightarrow>
   (secret_service_error + derived_key) outcome \<times> secret_service" where
  "derive_encryption_key env t path = with_write (derive_through_cache (ed25519_pair env) Aes256Gcm t path)"

definition derive_ethereum_key ::
  "('x, 'sk, 'c, 'm) secret_env \<Rightarrow> ticks \<Rightarrow> string \<Rightarrow> secret_service \<Rightarrow>
   (secret_service_error + derived_key) outcome \<times> secret_service" where
  "derive_ethereum_key env t path s =
     (if secp256k1_feature env then with_write (derive_through_cache (secp256k1_pair env) Secp256k1 t path) s
      else (Returns (Err UnsupportedKey), s))"

definition derive_password ::
  "('x, 'sk, 'c, 'm) secret_env \<Rightarrow> string \<Rightarrow> nat \<Rightarrow> secret_service \<Rightarrow>
   (secret_service_error + bytes) outcome \<times> secret_service" where
  "derive_password env path len = with_read (\<lambda>i.
     if \<not> si_unlocked i then Returns (Err ServiceLocked)
     else case si_seed i of
            None \<Rightarrow> Returns (Err ServiceLocked)
          | Some sd \<Rightarrow>
              outcome_bind (derive_path_from_seed (overflow_checks env) (dapi env) sd path) (\<lambda>r.
              case r of
                Err e \<Rightarrow> Returns (Err (DerivationFailed (show_derivation_error e)))
              | Ok key \<Rightarrow> Returns (Ok (take (min len (length (xk_private_key key))) (xk_private_key key)))))"

definition derive_password_string ::
  "('x, 'sk, 'c, 'm) secret_env \<Rightarrow> string \<Rightarrow> nat \<Rightarrow> secret_service \<Rightarrow>
   (secret_service_error + string) outcome \<times> secret_service" where
  "derive_password_string env path len s =
     (case derive_password env path len s of (r, s') \<Rightarrow>
        (outcome_bind r (\<lambda>x. Returns (map_sum id (url_safe_no_pad env) x)), s'))"

section \<open>Encryption\<close>

text \<open>The key for credentials: the cached one under its path, or a new one that is then cached.\<close>

definition encryption_private_key ::
  "('x, 'sk, 'c, 'm) secret_env \<Rightarrow> ticks \<Rightarrow> secret_inner \<Rightarrow> (secret_service_error + bytes) outcome \<times> secret_inner" where
  "encryption_private_key env t i =
     (case derive_through_cache (ed25519_pair env) Aes256Gcm t PATHS_ENCRYPTION i of
        (r, i') \<Rightarrow> (outcome_bind r (\<lambda>x. Returns (map_sum id dk_private_key x)), i'))"

definition service_encrypt ::
  "('x, 'sk, 'c, 'm) secret_env \<Rightarrow> ticks \<Rightarrow> bytes \<Rightarrow> bytes \<Rightarrow> string \<Rightarrow> u32 \<Rightarrow> secret_service \<Rightarrow>
   (secret_service_error + encrypted_data) outcome \<times> secret_service" where
  "service_encrypt env t iv salt plaintext v = with_write (\<lambda>i.
     case encryption_private_key env t i of
       (Panics, i') \<Rightarrow> (Panics, i')
     | (Returns (Err e), i') \<Rightarrow> (Returns (Err e), i')
     | (Returns (Ok private_key), i') \<Rightarrow>
         (outcome_bind (from_derived_bytes private_key v) (\<lambda>enc_key.
            Returns (map_err (\<lambda>e. EncryptionFailed (show_encryption_error e))
              (data_encrypt (capi env) iv salt plaintext enc_key))), i'))"

definition service_decrypt ::
  "('x, 'sk, 'c, 'm) secret_env \<Rightarrow> ticks \<Rightarrow> encrypted_data \<Rightarrow> secret_service \<Rightarrow>
   (secret_service_error + string) outcome \<times> secret_service" where
  "service_decrypt env t encrypted = with_write (\<lambda>i.
     case encryption_private_key env t i of
       (Panics, i') \<Rightarrow> (Panics, i')
     | (Returns (Err e), i') \<Rightarrow> (Returns (Err e), i')
     | (Returns (Ok private_key), i') \<Rightarrow>
         (outcome_bind (from_derived_bytes private_key (ed_key_version encrypted)) (\<lambda>enc_key.
          outcome_bind (data_decrypt (capi env) encrypted enc_key) (\<lambda>r.
            Returns (map_err (\<lambda>e. EncryptionFailed (show_encryption_error e)) r))), i'))"

section \<open>The actor\<close>

datatype secret_message =
  DeriveEd25519 string
| DeriveEncryptionKey string
| DeriveEthereumKey string
| DerivePassword string nat
| Encrypt string u32
| Decrypt encrypted_data
| Lock
| Unlock string "string option"

datatype secret_reply =
  KeyReply "secret_service_error + derived_key"
| PasswordReply "secret_service_error + bytes"
| DataReply "secret_service_error + encrypted_data"
| TextReply "secret_service_error + string"
| UnitReply "secret_service_error + unit"

text \<open>What a call reads from its surroundings: the clock and random bytes.\<close>

record call_inputs =
  in_ticks :: ticks
  in_iv :: bytes
  in_salt :: bytes

definition reply_with :: "('r \<Rightarrow> secret_reply) \<Rightarrow> 'r outcome \<times> secret_service \<Rightarrow> secret_reply outcome \<times> secret_service" where
  "reply_with f rs = (outcome_bind (fst rs) (\<lambda>r. Returns (f r)), snd rs)"

fun handle_message ::
  "('x, 'sk, 'c, 'm) secret_env \<Rightarrow> call_inputs \<Rightarrow> secret_message \<Rightarrow> secret_service \<Rightarrow>
   secret_reply outcome \<times> secret_service" where
  "handle_message env inp (DeriveEd25519 path) s = reply_with KeyReply (derive_ed25519 env (in_ticks inp) path s)"
| "handle_message env inp (DeriveEncryptionKey path) s =
     reply_with KeyReply (derive_encryption_key env (in_ticks inp) path s)"
| "handle_message env inp (DeriveEthereumKey path) s =
     reply_with KeyReply (derive_ethereum_key env (in_ticks inp) path s)"
| "handle_message env inp (DerivePassword path len) s = reply_with PasswordReply (derive_password env path len s)"
| "handle_message env inp (Encrypt plaintext v) s =
     reply_with DataReply (service_encrypt env (in_ticks inp) (in_iv inp) (in_salt inp) plaintext v s)"
| "handle_message env inp (Decrypt encrypted) s =
     reply_with TextReply (service_decrypt env (in_ticks inp) encrypted s)"
| "handle_message env inp Lock s = reply_with (\<lambda>_. UnitReply (Ok ())) (lock s)"
| "handle_message env inp (Unlock p passphrase) s = reply_with UnitReply (unlock env p passphrase s)"

text \<open>The loop of the actor: a panic ends its task, and the messages after it get no answer.\<close>

fun actor_run ::
  "('x, 'sk, 'c, 'm) secret_env \<Rightarrow> (call_inputs \<times> secret_message) list \<Rightarrow> secret_service \<Rightarrow>
   secret_reply list \<times> secret_service" where
  "actor_run env [] s = ([], s)"
| "actor_run env ((inp, msg) # msgs) s =
     (case handle_message env inp msg s of
        (Panics, s') \<Rightarrow> ([], s')
      | (Returns r, s') \<Rightarrow> (case actor_run env msgs s' of (rs, s'') \<Rightarrow> (r # rs, s'')))"

section \<open>Reachable states\<close>

text \<open>The calls that tasks and the actor can make, and the states they lead to from a new service. \<open>ok\<close>
  restricts the calls.\<close>

datatype 'm service_call =
  Message secret_message
| UnlockNew "string + 'm"
| DerivePasswordString string nat

fun call_state ::
  "('x, 'sk, 'c, 'm) secret_env \<Rightarrow> call_inputs \<Rightarrow> 'm service_call \<Rightarrow> secret_service \<Rightarrow> secret_service" where
  "call_state env inp (Message msg) s = snd (handle_message env inp msg s)"
| "call_state env inp (UnlockNew generated) s = snd (unlock_new env generated s)"
| "call_state env inp (DerivePasswordString path len) s = snd (derive_password_string env path len s)"

inductive reachable ::
  "('x, 'sk, 'c, 'm) secret_env \<Rightarrow> ('m service_call \<Rightarrow> bool) \<Rightarrow> cache_config \<Rightarrow> secret_service \<Rightarrow> bool"
  for env ok cfg where
  start: "reachable env ok cfg (with_cache_config cfg)"
| call: "reachable env ok cfg s \<Longrightarrow> ok c \<Longrightarrow> reachable env ok cfg (call_state env inp c s)"

lemma with_write_state [simp]:
  "inner (snd (with_write f s)) = (if poisoned s then inner s else snd (f (inner s)))"
  by (auto simp: with_write_def split: prod.splits outcome.splits)

lemma reply_with_state [simp]: "snd (reply_with f rs) = snd rs"
  by (simp add: reply_with_def)

lemma with_read_state [simp]: "snd (with_read f s) = s"
  by (simp add: with_read_def)

lemma derive_password_state [simp]:
  "snd (derive_password env path len s) = s" "snd (derive_password_string env path len s) = s"
  by (simp_all add: derive_password_def derive_password_string_def with_read_def)

definition pair_of ::
  "('x, 'sk, 'c, 'm) secret_env \<Rightarrow> key_type \<Rightarrow> bytes \<Rightarrow> string \<Rightarrow> (derivation_error + bytes \<times> bytes) outcome" where
  "pair_of env kt = (if kt = Secp256k1 then secp256k1_pair env else ed25519_pair env)"

definition unlocked_with :: "mnemonic \<Rightarrow> bytes \<Rightarrow> secret_inner \<Rightarrow> secret_inner" where
  "unlocked_with m sd i = i\<lparr>si_mnemonic := Some m, si_seed := Some sd, si_unlocked := True\<rparr>"

definition locked_again :: "secret_inner \<Rightarrow> secret_inner" where
  "locked_again i =
     i\<lparr>si_cache := cache_clear (si_cache i), si_seed := None, si_mnemonic := None, si_unlocked := False\<rparr>"

text \<open>The derivations a call may make.\<close>

fun derivations_of :: "'m service_call \<Rightarrow> (key_type \<times> string) set" where
  "derivations_of (Message (DeriveEd25519 p)) = {(Ed25519, p)}"
| "derivations_of (Message (DeriveEncryptionKey p)) = {(Aes256Gcm, p)}"
| "derivations_of (Message (DeriveEthereumKey p)) = {(Secp256k1, p)}"
| "derivations_of (Message (Encrypt _ _)) = {(Aes256Gcm, PATHS_ENCRYPTION)}"
| "derivations_of (Message (Decrypt _)) = {(Aes256Gcm, PATHS_ENCRYPTION)}"
| "derivations_of _ = {}"

lemma unlock_inner_state:
  "snd (unlock_inner env p pass i) = i \<or>
   (\<not> si_unlocked i \<and> (\<exists>m sd. snd (unlock_inner env p pass i) = unlocked_with m sd i))"
  by (auto simp: unlock_inner_def unlocked_with_def split: sum.splits outcome.splits)

lemma unlock_new_state:
  "inner (snd (unlock_new env g s)) = inner s \<or>
   (\<not> si_unlocked (inner s) \<and> (\<exists>m sd. inner (snd (unlock_new env g s)) = unlocked_with m sd (inner s)))"
  by (auto simp: unlock_new_def unlocked_with_def split: sum.splits outcome.splits)

lemma encryption_private_key_state:
  "snd (encryption_private_key env t i) = snd (derive_through_cache (pair_of env Aes256Gcm) Aes256Gcm t PATHS_ENCRYPTION i)"
  by (simp add: encryption_private_key_def pair_of_def split: prod.split)

lemma encrypt_state:
  "inner (snd (service_encrypt env t iv salt pt v s)) =
     (if poisoned s then inner s else snd (encryption_private_key env t (inner s)))"
  "inner (snd (service_decrypt env t d s)) =
     (if poisoned s then inner s else snd (encryption_private_key env t (inner s)))"
  by (auto simp: service_encrypt_def service_decrypt_def split: prod.split outcome.split sum.split)

lemma message_inner:
  "inner (snd (handle_message env inp msg s)) =
     (if poisoned s then inner s
      else case msg of
        DeriveEd25519 p \<Rightarrow> snd (derive_through_cache (pair_of env Ed25519) Ed25519 (in_ticks inp) p (inner s))
      | DeriveEncryptionKey p \<Rightarrow> snd (derive_through_cache (pair_of env Aes256Gcm) Aes256Gcm (in_ticks inp) p (inner s))
      | DeriveEthereumKey p \<Rightarrow>
          if secp256k1_feature env
          then snd (derive_through_cache (pair_of env Secp256k1) Secp256k1 (in_ticks inp) p (inner s)) else inner s
      | DerivePassword _ _ \<Rightarrow> inner s
      | Encrypt _ _ \<Rightarrow>
          snd (derive_through_cache (pair_of env Aes256Gcm) Aes256Gcm (in_ticks inp) PATHS_ENCRYPTION (inner s))
      | Decrypt _ \<Rightarrow>
          snd (derive_through_cache (pair_of env Aes256Gcm) Aes256Gcm (in_ticks inp) PATHS_ENCRYPTION (inner s))
      | Lock \<Rightarrow> locked_again (inner s)
      | Unlock p pass \<Rightarrow> snd (unlock_inner env p pass (inner s)))"
  by (cases msg) (simp_all add: derive_ed25519_def derive_encryption_key_def derive_ethereum_key_def
      lock_def unlock_def encrypt_state encryption_private_key_state pair_of_def locked_again_def)

text \<open>Every call leaves the inner state alone, unlocks it, locks it, or derives a key through the cache.\<close>

inductive inner_step ::
  "('x, 'sk, 'c, 'm) secret_env \<Rightarrow> (key_type \<times> string) set \<Rightarrow> secret_inner \<Rightarrow> secret_inner \<Rightarrow> bool"
  for env ds i where
  same: "inner_step env ds i i"
| unlocked: "\<not> si_unlocked i \<Longrightarrow> inner_step env ds i (unlocked_with m sd i)"
| locked: "inner_step env ds i (locked_again i)"
| derived: "(kt, p) \<in> ds \<Longrightarrow> inner_step env ds i (snd (derive_through_cache (pair_of env kt) kt t p i))"

lemma inner_step_unlock: "inner_step env ds i (snd (unlock_inner env p pass i))"
  using unlock_inner_state [of env p pass i] by (auto intro: inner_step.intros)

lemma inner_step_message:
  "inner_step env (derivations_of (Message msg :: 'm service_call)) (inner s) (inner (snd (handle_message env inp msg s)))"
  unfolding message_inner
  by (cases msg) (auto intro: inner_step.intros inner_step_unlock)

lemma inner_step_call: "inner_step env (derivations_of c) (inner s) (inner (call_state env inp c s))"
proof (cases c)
  case (Message msg)
  then show ?thesis
    using inner_step_message by simp
next
  case (UnlockNew g)
  then show ?thesis
    using unlock_new_state [of env g s] by (auto intro: inner_step.intros)
qed (simp add: inner_step.same)

lemma reachable_inner:
  assumes "reachable env ok cfg s" "P (inner (with_cache_config cfg))"
    and "\<And>c i i'. P i \<Longrightarrow> ok c \<Longrightarrow> inner_step env (derivations_of c) i i' \<Longrightarrow> P i'"
  shows "P (inner s)"
  using assms(1) by induction (auto intro: assms(2) assms(3) inner_step_call)

section \<open>The life cycle invariant\<close>

definition life_ok :: "secret_inner \<Rightarrow> bool" where
  "life_ok i \<longleftrightarrow>
     (si_unlocked i \<longleftrightarrow> si_seed i \<noteq> None) \<and> (si_unlocked i \<longleftrightarrow> si_mnemonic i \<noteq> None) \<and>
     (\<not> si_unlocked i \<longrightarrow> si_cache i = cache_clear (si_cache i))"

lemma derive_keeps:
  assumes "derive_through_cache d kt t p i = (r, i')"
  shows "si_unlocked i' = si_unlocked i" "si_seed i' = si_seed i" "si_mnemonic i' = si_mnemonic i"
    "\<not> si_unlocked i \<Longrightarrow> i' = i"
  using assms
  by (auto simp: derive_through_cache_def split: prod.splits option.splits outcome.splits sum.splits if_splits)

lemma life_ok_new: "life_ok (inner (with_cache_config cfg))"
  by (simp add: life_ok_def with_cache_config_def cache_clear_def key_cache_new_def)

lemma life_ok_step: "life_ok i \<Longrightarrow> inner_step env ds i i' \<Longrightarrow> life_ok i'"
proof (erule inner_step.cases)
  fix kt p t
  assume "life_ok i" "i' = snd (derive_through_cache (pair_of env kt) kt t p i)"
  then show "life_ok i'"
    using derive_keeps [of "pair_of env kt" kt t p i _ i'] by (auto simp: life_ok_def) (metis surjective_pairing)+
qed (auto simp: life_ok_def unlocked_with_def locked_again_def cache_clear_def)

lemma reachable_life_ok: "reachable env ok cfg s \<Longrightarrow> life_ok (inner s)"
  by (erule reachable_inner) (auto intro: life_ok_new life_ok_step)

section \<open>The cache is transparent\<close>

text \<open>What a key operation answers without a cache.\<close>

definition fresh_answer ::
  "('x, 'sk, 'c, 'm) secret_env \<Rightarrow> key_type \<Rightarrow> bytes \<Rightarrow> string \<Rightarrow> (secret_service_error + derived_key) outcome" where
  "fresh_answer env kt sd path =
     (case pair_of env kt sd path of
        Panics \<Rightarrow> Panics
      | Returns (Err e) \<Rightarrow> Returns (Err (DerivationFailed (show_derivation_error e)))
      | Returns (Ok (priv, pub)) \<Rightarrow> Returns (Ok \<lparr>dk_key_type = kt, dk_private_key = priv, dk_public_key = pub\<rparr>))"

text \<open>A discipline for paths: every path, or every path of a set, is used for one type of key.\<close>

definition one_type_per_path :: "(string \<Rightarrow> key_type) \<Rightarrow> 'm service_call \<Rightarrow> bool" where
  "one_type_per_path kind c \<longleftrightarrow> (\<forall>(kt, p) \<in> derivations_of c. kt = kind p)"

definition one_type_on :: "string set \<Rightarrow> (string \<Rightarrow> key_type) \<Rightarrow> 'm service_call \<Rightarrow> bool" where
  "one_type_on D kind c \<longleftrightarrow> (\<forall>(kt, p) \<in> derivations_of c. p \<in> D \<longrightarrow> kt = kind p)"

definition encryption_path_kept :: "'m service_call \<Rightarrow> bool" where
  "encryption_path_kept c \<longleftrightarrow> (\<forall>(kt, p) \<in> derivations_of c. p = PATHS_ENCRYPTION \<longrightarrow> kt = Aes256Gcm)"

lemma one_type_per_path_on: "one_type_per_path kind = one_type_on UNIV kind"
  by (simp add: fun_eq_iff one_type_per_path_def one_type_on_def)

lemma encryption_path_kept_on: "encryption_path_kept = one_type_on {PATHS_ENCRYPTION} (\<lambda>_. Aes256Gcm)"
  by (simp add: fun_eq_iff encryption_path_kept_def one_type_on_def)

definition material_ok ::
  "('x, 'sk, 'c, 'm) secret_env \<Rightarrow> string set \<Rightarrow> (string \<Rightarrow> key_type) \<Rightarrow> bytes option \<Rightarrow> string \<Rightarrow>
   key_type \<times> bytes \<times> bytes \<Rightarrow> bool" where
  "material_ok env D kind sd p m \<longleftrightarrow>
     (\<exists>s. sd = Some s \<and>
        (p \<in> D \<longrightarrow> (\<exists>priv pub. m = (kind p, priv, pub) \<and> pair_of env (kind p) s p = Returns (Ok (priv, pub)))))"

definition cache_faithful ::
  "('x, 'sk, 'c, 'm) secret_env \<Rightarrow> string set \<Rightarrow> (string \<Rightarrow> key_type) \<Rightarrow> secret_inner \<Rightarrow> bool" where
  "cache_faithful env D kind i \<longleftrightarrow> life_ok i \<and> kc.sound (material_ok env D kind (si_seed i)) (si_cache i)"

lemma derive_through_cache_faithful:
  assumes "cache_faithful env D kind i" "p \<in> D \<Longrightarrow> kind p = kt"
    and "derive_through_cache (pair_of env kt) kt t p i = (r, i')"
  shows "kc.sound (material_ok env D kind (si_seed i)) (si_cache i')"
    "p \<in> D \<Longrightarrow> si_seed i = Some sd \<Longrightarrow> r = fresh_answer env kt sd p"
proof -
  let ?Q = "material_ok env D kind (si_seed i)"
  obtain c' k where c': "cache_get (fst t) (fst (snd t)) p (si_cache i) = (k, c')"
    by fastforce
  have s: "kc.sound ?Q (si_cache i)" and s': "kc.sound ?Q c'"
    using assms(1) kc.sound_get [OF _ c'] by (auto simp: cache_faithful_def)
  have hit: "?Q p (material cached)" if "k = Some cached" for cached
    using kc.sound_hit [OF s] c' that by auto
  have put: "kc.sound ?Q (cache_insert p (cached_key_new n kt priv pub) c')"
    if "si_seed i = Some sd" "pair_of env kt sd p = Returns (Ok (priv, pub))" for n priv pub sd
    using that assms(2) by (intro kc.sound_ins [OF s']) (auto simp: material_ok_def)
  have life: "si_unlocked i \<longleftrightarrow> si_seed i \<noteq> None"
    using assms(1) by (simp add: cache_faithful_def life_ok_def)
  show "kc.sound ?Q (si_cache i')"
    using assms(3) s s' put
    by (auto simp: derive_through_cache_def c' split: option.splits outcome.splits sum.splits prod.splits if_splits)
  show "r = fresh_answer env kt sd p" if D: "p \<in> D" and sd: "si_seed i = Some sd"
  proof (cases k)
    case None
    then show ?thesis
      using assms(3) life sd
      by (auto simp: derive_through_cache_def c' fresh_answer_def split: outcome.splits sum.splits prod.splits)
  next
    case (Some cached)
    then show ?thesis
      using assms(2) [OF D] assms(3) life sd hit [OF Some] D
      by (auto simp: derive_through_cache_def c' fresh_answer_def material_ok_def material_def)
  qed
qed

lemma cache_faithful_step:
  assumes "cache_faithful env D kind i" "one_type_on D kind c" "inner_step env (derivations_of c) i i'"
  shows "cache_faithful env D kind i'"
  using assms(3)
proof cases
  case (unlocked m sd)
  have "si_seed i = None"
    using assms(1) unlocked(2) by (simp add: cache_faithful_def life_ok_def)
  moreover have "kc.sound (material_ok env D kind (si_seed i)) (si_cache i)"
    using assms(1) by (simp only: cache_faithful_def)
  ultimately have "kc.sound (material_ok env D kind None) (si_cache i)"
    by simp
  then have "kc.sound (material_ok env D kind (si_seed i')) (si_cache i')"
    using unlocked by (simp add: kc.sound_def material_ok_def unlocked_with_def)
  then show ?thesis
    using life_ok_step [OF _ assms(3)] assms(1) by (simp add: cache_faithful_def)
next
  case (derived kt p t)
  obtain r where d: "derive_through_cache (pair_of env kt) kt t p i = (r, i')"
    using derived(1) by (metis surjective_pairing)
  have "kind p = kt" if "p \<in> D"
    using that assms(2) derived(2) by (auto simp: one_type_on_def)
  then have "kc.sound (material_ok env D kind (si_seed i)) (si_cache i')"
    by (rule derive_through_cache_faithful(1) [OF assms(1) _ d])
  then show ?thesis
    using life_ok_step [OF _ assms(3)] assms(1) derive_keeps(2) [OF d] by (simp add: cache_faithful_def)
qed (use life_ok_step [OF _ assms(3)] assms(1) in \<open>auto simp: cache_faithful_def locked_again_def kc.sound_clr\<close>)

lemma reachable_faithful:
  assumes "reachable env (one_type_on D kind) cfg s"
  shows "cache_faithful env D kind (inner s)"
proof -
  have "cache_faithful env D kind (inner (with_cache_config cfg))"
    using life_ok_new [of cfg]
    by (simp add: cache_faithful_def kc.sound_def with_cache_config_def key_cache_new_def cache_holds_def)
  then show ?thesis
    by (rule reachable_inner [OF assms]) (rule cache_faithful_step)
qed

section \<open>The encryption key\<close>

lemma fst_with_write:
  "\<not> poisoned s \<Longrightarrow> fst (with_write f s) = fst (f (inner s))"
  by (auto simp: with_write_def split: prod.split outcome.split)

lemma encryption_key_fresh:
  assumes "cache_faithful env {PATHS_ENCRYPTION} (\<lambda>_. Aes256Gcm) i" "si_seed i = Some sd"
  shows "fst (encryption_private_key env t i) =
    outcome_bind (fresh_answer env Aes256Gcm sd PATHS_ENCRYPTION) (\<lambda>x. Returns (map_sum id dk_private_key x))"
proof -
  obtain r i' where d: "derive_through_cache (pair_of env Aes256Gcm) Aes256Gcm t PATHS_ENCRYPTION i = (r, i')"
    by fastforce
  then have "r = fresh_answer env Aes256Gcm sd PATHS_ENCRYPTION"
    using derive_through_cache_faithful(2) [OF assms(1) _ d] assms(2) by simp
  with d show ?thesis
    by (simp add: encryption_private_key_def pair_of_def)
qed

lemma map_sum_Inr_iff: "map_sum id f x = Inr y \<longleftrightarrow> (\<exists>a. x = Inr a \<and> y = f a)"
  by (cases x) auto

lemma fresh_answer_size:
  assumes "derivation_sizes (dapi env)" "fresh_answer env kt sd p = Returns (Ok k)"
  shows "length (dk_private_key k) = 32"
  using assms
  by (auto simp: fresh_answer_def pair_of_def ed25519_pair_def secp256k1_pair_def outcome_bind_Returns_iff
      map_sum_Inr_iff split: outcome.splits sum.splits if_splits
      intro: derive_path_size derive_secp256k1_size)

section \<open>Examples\<close>

text \<open>Stand-ins for the primitives: a keyed function that prepends its key, and identities elsewhere.\<close>

definition example_derivation :: "(bytes, bytes) derivation_api" where
  "example_derivation =
     \<lparr>hmac_sha512 = (\<lambda>k d. Ok (take 64 (k @ d @ replicate 64 0))),
      from_nonextended_force = (\<lambda>k c. k), xprv_derive = (\<lambda>x i. ucast i # x),
      extended_secret_key_bytes = (\<lambda>x. take 64 (x @ replicate 64 0)), xprv_public = (\<lambda>x. x),
      xprv_chain_code = (\<lambda>x. x), secret_key_from_slice = (\<lambda>k. Ok k), add_tweak = (\<lambda>a b. Ok b),
      secret_bytes = (\<lambda>k. take 32 (k @ replicate 32 0)), public_serialize = (\<lambda>k. k)\<rparr>"

definition example_bip39 :: "string bip39_api" where
  "example_bip39 =
     \<lparr>parse_normalized = (\<lambda>p. if p = [] then Err ''empty'' else Ok p), bip39_to_string = (\<lambda>p. p),
      to_seed_normalized = (\<lambda>p pass. as_bytes (p @ pass))\<rparr>"

definition example_env :: "(bytes, bytes, bytes, string) secret_env" where
  "example_env =
     \<lparr>dapi = example_derivation, capi = plain_cipher, mapi = example_bip39, secp256k1_feature = True,
      overflow_checks = True, url_safe_no_pad = of_bytes\<rparr>"

definition example_inputs :: "nat \<Rightarrow> call_inputs" where
  "example_inputs now = \<lparr>in_ticks = (now, now, now), in_iv = replicate 12 1, in_salt = replicate 32 2\<rparr>"

definition example_unlocked :: "nat \<Rightarrow> secret_service" where
  "example_unlocked now = call_state example_env (example_inputs now) (Message (Unlock ''word'' None)) secret_service_new"

lemma reachable_new: "reachable env ok cache_config_default secret_service_new"
  unfolding secret_service_new_def by (rule reachable.start)

lemma example_unlocked_reachable:
  "reachable example_env (one_type_per_path kind) cache_config_default (example_unlocked now)"
  "reachable example_env encryption_path_kept cache_config_default (example_unlocked now)"
  unfolding example_unlocked_def
  by (rule reachable.call [OF reachable_new]; simp add: one_type_per_path_def encryption_path_kept_def)+

lemma derivation_sizes_example: "derivation_sizes example_derivation"
  by (simp add: derivation_sizes_def example_derivation_def min_def)

section \<open>Properties\<close>

text \<open>C15. The life cycle of the secret service: in every state that calls can reach, in any order, from any
  number of tasks and also after a call panicked, the service is unlocked exactly when it holds a seed
  and exactly when it holds a mnemonic, and a locked service has no cached key.\<close>

theorem secret_lifecycle:
  assumes "reachable env ok cfg s"
  shows "(si_unlocked (inner s) \<longleftrightarrow> si_seed (inner s) \<noteq> None) \<and>
    (si_unlocked (inner s) \<longleftrightarrow> si_mnemonic (inner s) \<noteq> None) \<and>
    (si_unlocked (inner s) \<or> entries (si_cache (inner s)) = hm_empty \<and> order (si_cache (inner s)) = [])"
proof -
  have "life_ok (inner s)"
    by (rule reachable_life_ok [OF assms])
  moreover have "entries c = hm_empty \<and> order c = []" if "c = cache_clear c" for c
    using arg_cong [OF that, of entries] arg_cong [OF that, of order] by (simp add: cache_clear_def)
  ultimately show ?thesis
    unfolding life_ok_def by blast
qed

theorem secret_lifecycle_witness:
  "let s = call_state example_env (example_inputs 5) (Message Lock)
      (call_state example_env (example_inputs 3) (Message (DeriveEd25519 PATHS_IDENTITY)) (example_unlocked 1)) in
   si_seed (inner s) = None \<and> entries (si_cache (inner s)) = hm_empty"
proof -
  let ?s1 = "call_state example_env (example_inputs 3) (Message (DeriveEd25519 PATHS_IDENTITY)) (example_unlocked 1)"
  have "reachable example_env (one_type_per_path (\<lambda>_. Ed25519)) cache_config_default
      (call_state example_env (example_inputs 5) (Message Lock) ?s1)"
    by (intro reachable.call example_unlocked_reachable) (simp_all add: one_type_per_path_def)
  moreover have "\<not> si_unlocked (inner (call_state example_env (example_inputs 5) (Message Lock) ?s1))"
    by code_simp
  ultimately show ?thesis
    using secret_lifecycle by (auto simp: Let_def)
qed

text \<open>The answer of a locked service. A build without the secp256k1 feature, which is the default one, knows
  no Ethereum keys.\<close>

fun locked_reply :: "('x, 'sk, 'c, 'm) secret_env \<Rightarrow> secret_message \<Rightarrow> secret_reply option" where
  "locked_reply env (DeriveEd25519 _) = Some (KeyReply (Err ServiceLocked))"
| "locked_reply env (DeriveEncryptionKey _) = Some (KeyReply (Err ServiceLocked))"
| "locked_reply env (DeriveEthereumKey _) =
     Some (KeyReply (Err (if secp256k1_feature env then ServiceLocked else UnsupportedKey)))"
| "locked_reply env (DerivePassword _ _) = Some (PasswordReply (Err ServiceLocked))"
| "locked_reply env (Encrypt _ _) = Some (DataReply (Err ServiceLocked))"
| "locked_reply env (Decrypt _) = Some (TextReply (Err ServiceLocked))"
| "locked_reply env _ = None"

text \<open>C28. A locked service gives nothing away: after a lock, as long as no earlier call panicked while it held
  the lock of the state, every request for a key, a password, an encryption or a decryption is answered
  with the error that the service is locked, and leaves the state as it is. The one other answer is that
  of a build without the secp256k1 feature to a request for an Ethereum key: the error that the type of
  key is not supported, also without a change of the state.\<close>

theorem locked_service_refuses:
  assumes "\<not> poisoned s" "locked_reply env msg = Some r"
  shows "handle_message env inp msg (snd (lock s)) = (Returns r, snd (lock s))"
proof -
  obtain i where l: "snd (lock s) = \<lparr>inner = i, poisoned = False\<rparr>" "\<not> si_unlocked i"
    using assms(1) by (auto simp: lock_def with_write_def)
  show ?thesis
    using assms(2) l(2)
    by (cases msg) (auto simp: l(1) reply_with_def derive_ed25519_def derive_encryption_key_def
        derive_ethereum_key_def derive_password_def service_encrypt_def service_decrypt_def
        encryption_private_key_def with_write_def with_read_def derive_through_cache_def)
qed

theorem locked_service_refuses_witness:
  "handle_message example_env (example_inputs 9) (DeriveEd25519 PATHS_IDENTITY) (snd (lock (example_unlocked 1))) =
     (Returns (KeyReply (Err ServiceLocked)), snd (lock (example_unlocked 1)))"
proof -
  have "\<not> poisoned (example_unlocked 1)"
    by code_simp
  then show ?thesis
    by (rule locked_service_refuses) simp
qed

text \<open>The message that asks for a key of a type.\<close>

fun derive_message :: "key_type \<Rightarrow> string \<Rightarrow> secret_message" where
  "derive_message Ed25519 p = DeriveEd25519 p"
| "derive_message Aes256Gcm p = DeriveEncryptionKey p"
| "derive_message Secp256k1 p = DeriveEthereumKey p"

text \<open>C16. The cache is transparent: as long as every path is used for one type of key, and whatever was
  derived, encrypted, locked and unlocked before and at whatever times, a key request on an unlocked
  service is answered exactly as a service without a cache would answer it from the present seed. The
  hypotheses are that no earlier call panicked while it held the lock, and, for an Ethereum key, that the
  secp256k1 feature is built in.\<close>

theorem cache_transparent:
  assumes "reachable env (one_type_per_path kind) cfg s" "\<not> poisoned s" "si_seed (inner s) = Some sd"
    and "kind p = Secp256k1 \<Longrightarrow> secp256k1_feature env"
  shows "fst (handle_message env inp (derive_message (kind p) p) s) =
    outcome_bind (fresh_answer env (kind p) sd p) (\<lambda>r. Returns (KeyReply r))"
proof -
  let ?d = "derive_through_cache (pair_of env (kind p)) (kind p) (in_ticks inp) p"
  have "fst (?d (inner s)) = fresh_answer env (kind p) sd p"
    using derive_through_cache_faithful(2) [OF reachable_faithful [OF assms(1) [unfolded one_type_per_path_on]] refl _ UNIV_I assms(3)]
    by (metis surjective_pairing)
  moreover have "fst (handle_message env inp (derive_message (kind p) p) s) =
      outcome_bind (fst (?d (inner s))) (\<lambda>r. Returns (KeyReply r))"
    using assms(2,4)
    by (cases "kind p") (simp_all add: reply_with_def derive_ed25519_def derive_encryption_key_def
        derive_ethereum_key_def fst_with_write pair_of_def)
  ultimately show ?thesis
    by simp
qed

theorem cache_transparent_witness:
  "let s = call_state example_env (example_inputs 3) (Message (DeriveEd25519 PATHS_IDENTITY)) (example_unlocked 1) in
   fst (handle_message example_env (example_inputs 4) (DeriveEd25519 PATHS_IDENTITY) s) =
     outcome_bind (fresh_answer example_env Ed25519 (as_bytes ''word'') PATHS_IDENTITY) (\<lambda>r. Returns (KeyReply r))"
proof -
  let ?s = "call_state example_env (example_inputs 3) (Message (DeriveEd25519 PATHS_IDENTITY)) (example_unlocked 1)"
  have "reachable example_env (one_type_per_path (\<lambda>_. Ed25519)) cache_config_default ?s"
    by (intro reachable.call example_unlocked_reachable) (simp add: one_type_per_path_def)
  moreover have "\<not> poisoned ?s" "si_seed (inner ?s) = Some (as_bytes ''word'')"
    by code_simp+
  ultimately show ?thesis
    using cache_transparent [of example_env "\<lambda>_. Ed25519"] by (simp add: Let_def)
qed

text \<open>C27. Encrypted credentials survive: what a service encrypted in one state is decrypted to the same text in
  any other state with the same seed, of this service or of another one, whatever was derived, encrypted,
  locked and unlocked in between and at whatever times, whether the key is cached or not. In both
  histories the path of the encryption key is only used for that type of key, the other paths are used in
  any way, and no call panicked while it held the lock. The text is valid UTF-8, as a Rust string is; the
  cipher decrypts what it encrypted, and the derivation gives keys of the documented sizes.\<close>

theorem credentials_survive:
  assumes "cipher_ok (capi env)" "derivation_sizes (dapi env)" "length iv = 12" "utf8_valid plaintext"
    and "reachable env encryption_path_kept cfg s" "\<not> poisoned s" "si_seed (inner s) = Some sd"
    and "fst (service_encrypt env t iv salt plaintext v s) = Returns (Ok d)"
    and "reachable env encryption_path_kept cfg' s'" "\<not> poisoned s'" "si_seed (inner s') = Some sd"
  shows "fst (service_decrypt env t' d s') = Returns (Ok plaintext)"
proof -
  let ?key = "outcome_bind (fresh_answer env Aes256Gcm sd PATHS_ENCRYPTION) (\<lambda>x. Returns (map_sum id dk_private_key x))"
  have key: "fst (encryption_private_key env t (inner s)) = ?key"
      "fst (encryption_private_key env t' (inner s')) = ?key"
    using encryption_key_fresh [OF reachable_faithful] assms(5,7,9,11) unfolding encryption_path_kept_on by blast+
  obtain k where k: "fresh_answer env Aes256Gcm sd PATHS_ENCRYPTION = Returns (Ok k)"
    and e: "data_encrypt (capi env) iv salt plaintext \<lparr>key_bytes = take 32 (dk_private_key k), key_version = v\<rparr> = Ok d"
    using assms(8) key(1) fresh_answer_size [OF assms(2)] assms(6)
    by (auto simp: service_encrypt_def fst_with_write from_derived_bytes_def outcome_bind_Returns_iff
        map_sum_Inr_iff split: prod.splits outcome.splits sum.splits if_splits)
  have "data_decrypt (capi env) d \<lparr>key_bytes = take 32 (dk_private_key k), key_version = ed_key_version d\<rparr> =
      Returns (Ok plaintext)"
    by (rule decrypt_encrypt [OF assms(1,3,4) e]) simp
  moreover have "fst (encryption_private_key env t' (inner s')) = Returns (Ok (dk_private_key k))"
    using key(2) k by simp
  ultimately show ?thesis
    using assms(10) fresh_answer_size [OF assms(2) k]
    by (auto simp: service_decrypt_def fst_with_write from_derived_bytes_def split: prod.splits)
qed

definition example_other :: secret_service where
  "example_other =
     call_state example_env (example_inputs 9) (Message (DeriveEthereumKey PATHS_IDENTITY))
       (call_state example_env (example_inputs 8) (Message (DeriveEd25519 PATHS_IDENTITY)) (example_unlocked 7))"

lemma example_other_reachable: "reachable example_env encryption_path_kept cache_config_default example_other"
proof -
  have "PATHS_IDENTITY \<noteq> PATHS_ENCRYPTION"
    by code_simp
  then show ?thesis
    unfolding example_other_def
    by (intro reachable.call example_unlocked_reachable) (simp_all add: encryption_path_kept_def)
qed

theorem credentials_survive_witness:
  "\<exists>d. fst (service_encrypt example_env (1, 1, 1) (replicate 12 1) [] ''token'' 1 (example_unlocked 1)) = Returns (Ok d) \<and>
     fst (service_decrypt example_env (10, 10, 10) d example_other) = Returns (Ok ''token'')"
proof -
  obtain d where d: "fst (service_encrypt example_env (1, 1, 1) (replicate 12 1) [] ''token'' 1 (example_unlocked 1)) = Returns (Ok d)"
  proof -
    have "(case fst (service_encrypt example_env (1, 1, 1) (replicate 12 1) [] ''token'' 1 (example_unlocked 1)) of
        Returns (Ok d) \<Rightarrow> True | _ \<Rightarrow> False)"
      by code_simp
    then show ?thesis
      using that by (auto split: outcome.splits sum.splits)
  qed
  have ok: "cipher_ok (capi example_env)" "derivation_sizes (dapi example_env)"
    by (simp_all add: example_env_def cipher_ok_plain derivation_sizes_example)
  have st: "\<not> poisoned (example_unlocked 1)" "\<not> poisoned example_other" "utf8_valid ''token''"
    "si_seed (inner (example_unlocked 1)) = Some (as_bytes ''word'')"
    "si_seed (inner example_other) = Some (as_bytes ''word'')"
    by code_simp+
  have "fst (service_decrypt example_env (10, 10, 10) d example_other) = Returns (Ok ''token'')"
    by (rule credentials_survive [OF ok _ st(3) example_unlocked_reachable(2) st(1,4) d
          example_other_reachable st(2,5)]) simp
  with d show ?thesis
    by blast
qed

text \<open>C38. The cache confuses types of keys: it is looked up by path only, so after an Ethereum key was derived
  at a path, a request for an Ed25519 key at that path within the time to live is answered with the
  Ethereum key, of the wrong type.\<close>

theorem cache_confuses_key_types:
  assumes "secp256k1_feature env" "hm_get (entries (si_cache (inner s))) path = None"
    and "derive_ethereum_key env t path s = (Returns (Ok k), s')"
    and "fst t' - snd (snd t) \<le> ttl (cc_config (si_cache (inner s)))"
  shows "fst (derive_ed25519 env t' path s') = Returns (Ok k) \<and> dk_key_type k = Secp256k1"
proof -
  let ?c = "si_cache (inner s)"
  have miss: "cache_get n n' path ?c = (None, ?c)" for n n'
    using assms(2) by (simp add: cache_get_def)
  obtain priv pub where k: "k = \<lparr>dk_key_type = Secp256k1, dk_private_key = priv, dk_public_key = pub\<rparr>"
    and s': "\<not> poisoned s'" "si_unlocked (inner s')"
      "si_cache (inner s') = cache_insert path (cached_key_new (snd (snd t)) Secp256k1 priv pub) ?c"
    using assms(1,3)
    by (auto simp: derive_ethereum_key_def with_write_def derive_through_cache_def miss
        split: if_splits prod.splits option.splits outcome.splits sum.splits)
  have "hm_get (entries (si_cache (inner s'))) path = Some (cached_key_new (snd (snd t)) Secp256k1 priv pub)"
    "cc_config (si_cache (inner s')) = cc_config ?c"
    by (simp_all add: s'(3) cache_insert_def Let_def)
  then show ?thesis
    using s'(1,2) assms(4)
    by (simp add: derive_ed25519_def fst_with_write derive_through_cache_def cache_get_def is_expired_def
        cached_key_new_def touch_def Let_def k)
qed

theorem cache_confuses_key_types_witness:
  "\<exists>k s'. derive_ethereum_key example_env (1, 1, 1) PATHS_IDENTITY (example_unlocked 1) = (Returns (Ok k), s') \<and>
     fst (derive_ed25519 example_env (2, 2, 2) PATHS_IDENTITY s') = Returns (Ok k) \<and> dk_key_type k = Secp256k1"
proof -
  obtain k s' where d: "derive_ethereum_key example_env (1, 1, 1) PATHS_IDENTITY (example_unlocked 1) = (Returns (Ok k), s')"
  proof -
    have "(case fst (derive_ethereum_key example_env (1, 1, 1) PATHS_IDENTITY (example_unlocked 1)) of
        Returns (Ok k) \<Rightarrow> True | _ \<Rightarrow> False)"
      by code_simp
    then show ?thesis
      using that by (cases "derive_ethereum_key example_env (1, 1, 1) PATHS_IDENTITY (example_unlocked 1)")
        (auto split: outcome.splits sum.splits)
  qed
  have "secp256k1_feature example_env" "hm_get (entries (si_cache (inner (example_unlocked 1)))) PATHS_IDENTITY = None"
    by code_simp+
  moreover have "fst (2 :: nat, 2 :: nat, 2 :: nat) - snd (snd (1 :: nat, 1, 1)) \<le> ttl (cc_config (si_cache (inner (example_unlocked 1))))"
    by code_simp
  ultimately show ?thesis
    using cache_confuses_key_types [OF _ _ d] d by blast
qed

text \<open>C37. One malformed ciphertext disables the service for good: on a service that is not yet in that state
  and has an encryption key of at least 32 bytes, with a cipher that accepts keys of 32 bytes, decrypting data whose initialisation vector decodes to a length other than twelve bytes panics while the
  lock is held. From then on every operation panics: every message, the call that would lock the service,
  the question whether it is unlocked, unlocking it with a new mnemonic, and the password as a string. So
  the seed stays in memory, and the actor that received the message answers neither it nor any later one.
  The one call that still returns is the request for an Ethereum key in a build without the secp256k1
  feature, which is refused as unsupported without a look at the state.\<close>

theorem bad_iv_disables_service:
  assumes "\<not> poisoned s" "fst (encryption_private_key env (in_ticks inp) (inner s)) = Returns (Ok pk)"
    and "32 \<le> length pk" "cipher_ok (capi env)"
    and "b64_decode (capi env) (ed_iv d) = Ok iv" "length iv \<noteq> 12"
  shows "\<exists>s'. actor_run env ((inp, Decrypt d) # msgs) s = ([], s') \<and>
    si_seed (inner s') = si_seed (inner s) \<and>
    (\<forall>inp' msg. handle_message env inp' msg s' =
       (case msg of
          DeriveEthereumKey _ \<Rightarrow>
            if secp256k1_feature env then Panics else Returns (KeyReply (Err UnsupportedKey))
        | _ \<Rightarrow> Panics, s')) \<and>
    lock s' = (Panics, s') \<and> is_unlocked s' = (Panics, s') \<and>
    (\<forall>generated. unlock_new env generated s' = (Panics, s')) \<and>
    (\<forall>path len. derive_password_string env path len s' = (Panics, s'))"
proof -
  obtain i' where k: "encryption_private_key env (in_ticks inp) (inner s) = (Returns (Ok pk), i')"
    using assms(2) by (metis surjective_pairing)
  let ?s' = "\<lparr>inner = i', poisoned = True\<rparr>"
  have "length (take 32 pk) = 32"
    using assms(3) by simp
  then obtain c where "aes_new (capi env) (take 32 pk) = Ok c"
    using assms(4) unfolding cipher_ok_def by blast
  then have "data_decrypt (capi env) d \<lparr>key_bytes = take 32 pk, key_version = ed_key_version d\<rparr> = Panics"
    using assms(5,6) by (simp add: data_decrypt_panics_iff)
  then have "service_decrypt env (in_ticks inp) d s = (Panics, ?s')"
    using assms(1,3) k by (simp add: service_decrypt_def with_write_def from_derived_bytes_def)
  moreover have "si_seed i' = si_seed (inner s)"
    using encryption_private_key_state [of env "in_ticks inp" "inner s"] k
      derive_keeps(2) [of "pair_of env Aes256Gcm" Aes256Gcm "in_ticks inp" PATHS_ENCRYPTION "inner s" _ i']
    by (metis prod.collapse snd_conv)
  moreover have "handle_message env inp' msg ?s' =
      (case msg of
         DeriveEthereumKey _ \<Rightarrow> if secp256k1_feature env then Panics else Returns (KeyReply (Err UnsupportedKey))
       | _ \<Rightarrow> Panics, ?s')" for inp' msg
    by (cases msg) (simp_all add: reply_with_def derive_ed25519_def derive_encryption_key_def
        derive_ethereum_key_def derive_password_def service_encrypt_def service_decrypt_def lock_def unlock_def
        with_write_def with_read_def)
  moreover have "lock ?s' = (Panics, ?s')" "is_unlocked ?s' = (Panics, ?s')" "unlock_new env generated ?s' = (Panics, ?s')"
      "derive_password_string env path len ?s' = (Panics, ?s')" for generated path len
    by (simp_all add: lock_def is_unlocked_def unlock_new_def derive_password_string_def derive_password_def
        with_write_def with_read_def)
  ultimately show ?thesis
    by (intro exI [of _ ?s']) (simp add: reply_with_def)
qed

theorem bad_iv_disables_service_witness:
  "\<exists>s'. actor_run example_env [(example_inputs 2, Decrypt \<lparr>ed_key_version = 1, ed_salt = [], ed_iv = ''short'', ed_data = []\<rparr>),
      (example_inputs 3, Lock)] (example_unlocked 1) = ([], s') \<and> si_seed (inner s') = Some (as_bytes ''word'')"
proof -
  let ?d = "\<lparr>ed_key_version = 1, ed_salt = [], ed_iv = ''short'', ed_data = []\<rparr>"
  obtain pk where pk: "fst (encryption_private_key example_env (in_ticks (example_inputs 2)) (inner (example_unlocked 1))) = Returns (Ok pk)"
    "32 \<le> length pk"
  proof -
    have "(case fst (encryption_private_key example_env (in_ticks (example_inputs 2)) (inner (example_unlocked 1))) of
        Returns (Ok pk) \<Rightarrow> 32 \<le> length pk | _ \<Rightarrow> False)"
      by code_simp
    then show ?thesis
      using that by (auto split: outcome.splits sum.splits)
  qed
  have c: "cipher_ok (capi example_env)" "b64_decode (capi example_env) (ed_iv ?d) = Ok (as_bytes ''short'')"
    by (simp_all add: example_env_def cipher_ok_plain) (simp add: plain_cipher_def)
  have u: "\<not> poisoned (example_unlocked 1)" "si_seed (inner (example_unlocked 1)) = Some (as_bytes ''word'')"
    by code_simp+
  show ?thesis
    using bad_iv_disables_service [OF u(1) pk c(1,2), of "[(example_inputs 3, Lock)]"] u(2)
    by (simp del: actor_run.simps) blast
qed

end
