(* ===== verification/Rate_Limit.thy ===== *)
theory Rate_Limit
  imports Rust_Net
begin

text \<open>
  \<open>server/rate_limit.rs\<close>: the limiter of connections per address and the limiter of authentication
  attempts per connection, and the contract under which the three SSH handlers use the first one:
  a handler asks \<open>check\<close>, registers with \<open>on_connect\<close> if it may, and gives its place back with
  \<open>on_disconnect\<close> when it is dropped. The lemmas of the contract say that such a pool of handlers is
  counted exactly, however connections open and close.
\<close>

section \<open>Connections per address\<close>

record connection_rate_limiter =
  max_per_ip :: nat
  active :: "(ip_addr, nat) hashmap"

definition connection_rate_limiter_new :: "nat \<Rightarrow> connection_rate_limiter" where
  "connection_rate_limiter_new n = \<lparr>max_per_ip = n, active = hm_empty\<rparr>"

definition check_connection :: "connection_rate_limiter \<Rightarrow> ip_addr \<Rightarrow> bool" where
  "check_connection l ip =
     (if max_per_ip l = 0 then True
      else let count = (case hm_get (active l) ip of Some c \<Rightarrow> c | None \<Rightarrow> 0) in
           count < max_per_ip l)"

definition on_connect :: "ip_addr \<Rightarrow> connection_rate_limiter \<Rightarrow> connection_rate_limiter" where
  "on_connect ip l =
     (let count = (case hm_get (active l) ip of Some c \<Rightarrow> c | None \<Rightarrow> 0) in
      l\<lparr>active := hm_insert ip (count + 1) (active l)\<rparr>)"

definition on_disconnect :: "ip_addr \<Rightarrow> connection_rate_limiter \<Rightarrow> connection_rate_limiter" where
  "on_disconnect ip l =
     (case hm_get (active l) ip of
        Some count \<Rightarrow>
          if 1 < count then l\<lparr>active := hm_insert ip (count - 1) (active l)\<rparr>
          else l\<lparr>active := hm_remove ip (active l)\<rparr>
      | None \<Rightarrow> l)"

text \<open>The number of registered connections of an address; the entries of the map are positive and
  its keys distinct.\<close>

definition active_count :: "connection_rate_limiter \<Rightarrow> ip_addr \<Rightarrow> nat" where
  "active_count l ip = (case hm_get (active l) ip of Some c \<Rightarrow> c | None \<Rightarrow> 0)"

definition limiter_wf :: "connection_rate_limiter \<Rightarrow> bool" where
  "limiter_wf l \<longleftrightarrow> hm_wf (active l) \<and> (\<forall>ip. hm_get (active l) ip \<noteq> Some 0)"

section \<open>The contract of the handlers\<close>

locale connection_pool =
  fixes chk :: "'l \<Rightarrow> 'ip \<Rightarrow> bool"
    and conn :: "'ip \<Rightarrow> 'l \<Rightarrow> 'l"
    and disc :: "'ip \<Rightarrow> 'l \<Rightarrow> 'l"
    and count :: "'l \<Rightarrow> 'ip \<Rightarrow> nat"
    and cap :: "'l \<Rightarrow> nat"
    and wf :: "'l \<Rightarrow> bool"
  assumes chk_iff: "chk l ip \<longleftrightarrow> cap l = 0 \<or> count l ip < cap l"
    and count_conn: "count (conn ip l) ip' = (if ip' = ip then count l ip + 1 else count l ip')"
    and count_disc: "wf l \<Longrightarrow> count (disc ip l) ip' = (if ip' = ip then count l ip - 1 else count l ip')"
    and cap_conn: "cap (conn ip l) = cap l"
    and cap_disc: "cap (disc ip l) = cap l"
    and wf_conn: "wf l \<Longrightarrow> wf (conn ip l)"
    and wf_disc: "wf l \<Longrightarrow> wf (disc ip l)"
begin

text \<open>A handler is its peer address and whether it was allowed. \<open>admit\<close> is what a constructor does with the limiter,
  \<open>release\<close> what dropping the handler does.\<close>

definition admit :: "'ip option \<Rightarrow> 'l \<Rightarrow> bool \<times> 'l" where
  "admit addr l =
     (case addr of None \<Rightarrow> (True, l)
      | Some ip \<Rightarrow> if chk l ip then (True, conn ip l) else (False, l))"

definition release :: "'ip option \<Rightarrow> bool \<Rightarrow> 'l \<Rightarrow> 'l" where
  "release addr allowed l =
     (case addr of None \<Rightarrow> l | Some ip \<Rightarrow> if allowed then disc ip l else l)"

definition live_from :: "('ip option \<times> bool) list \<Rightarrow> 'ip \<Rightarrow> nat" where
  "live_from hs ip = length (filter (\<lambda>h. h = (Some ip, True)) hs)"

definition tracks :: "'l \<Rightarrow> ('ip option \<times> bool) list \<Rightarrow> bool" where
  "tracks l hs \<longleftrightarrow> wf l \<and> (\<forall>ip. count l ip = live_from hs ip) \<and>
     (0 < cap l \<longrightarrow> (\<forall>ip. live_from hs ip \<le> cap l))"

lemma tracks_admit:
  assumes "tracks l hs" "admit addr l = (ok, l')"
  shows "tracks l' ((addr, ok) # hs) \<and> cap l' = cap l"
  using assms
  by (auto simp: tracks_def admit_def live_from_def chk_iff count_conn cap_conn wf_conn
      split: option.splits if_splits)

lemma tracks_admit_reject:
  assumes "tracks l hs" "admit addr l = (False, l')"
  shows "l' = l \<and> (\<exists>ip. addr = Some ip \<and> 0 < cap l \<and> live_from hs ip = cap l)"
proof -
  from assms(2) obtain ip where ip: "addr = Some ip" "\<not> chk l ip" "l' = l"
    by (auto simp: admit_def split: option.splits if_splits)
  then have "0 < cap l" "cap l \<le> live_from hs ip"
    using assms(1) by (auto simp: chk_iff tracks_def)
  moreover from this have "live_from hs ip \<le> cap l"
    using assms(1) by (simp add: tracks_def)
  ultimately show ?thesis
    using ip by auto
qed

lemma live_from_remove:
  "live_from (hs1 @ h # hs2) ip = live_from (hs1 @ hs2) ip + (if h = (Some ip, True) then 1 else 0)"
  by (simp add: live_from_def)

lemma tracks_release:
  assumes "tracks l (hs1 @ (addr, ok) # hs2)"
  shows "tracks (release addr ok l) (hs1 @ hs2) \<and> cap (release addr ok l) = cap l"
proof (cases "\<exists>ip. addr = Some ip \<and> ok")
  case True
  then obtain ip where ip: "addr = Some ip" "ok"
    by blast
  have le: "live_from (hs1 @ hs2) ip' \<le> live_from (hs1 @ (addr, ok) # hs2) ip'" for ip'
    by (simp add: live_from_remove)
  have "count (disc ip l) ip' = live_from (hs1 @ hs2) ip'" for ip'
    using assms ip by (auto simp: tracks_def count_disc live_from_remove)
  moreover have "live_from (hs1 @ hs2) ip' \<le> cap l" if "0 < cap l" for ip'
    using assms that order_trans [OF le] by (simp add: tracks_def)
  ultimately show ?thesis
    using assms ip unfolding tracks_def release_def by (auto simp: cap_disc wf_disc)
next
  case False
  then have "release addr ok l = l" "live_from (hs1 @ (addr, ok) # hs2) = live_from (hs1 @ hs2)"
    by (auto simp: release_def live_from_remove fun_eq_iff split: option.split)
  then show ?thesis
    using assms by (simp add: tracks_def)
qed

lemma tracks_empty: "tracks l hs \<Longrightarrow> hs = [] \<Longrightarrow> count l ip = 0"
  by (simp add: tracks_def live_from_def)

end

lemma limiter_wf_new: "limiter_wf (connection_rate_limiter_new n)"
  by (simp add: limiter_wf_def connection_rate_limiter_new_def)

interpretation crl: connection_pool check_connection on_connect on_disconnect active_count
  max_per_ip limiter_wf
proof unfold_locales
  fix l ip ip'
  show "check_connection l ip \<longleftrightarrow> max_per_ip l = 0 \<or> active_count l ip < max_per_ip l"
    by (simp add: check_connection_def active_count_def)
  show "active_count (on_connect ip l) ip' =
      (if ip' = ip then active_count l ip + 1 else active_count l ip')"
    by (simp add: active_count_def on_connect_def Let_def)
  show "active_count (on_disconnect ip l) ip' =
      (if ip' = ip then active_count l ip - 1 else active_count l ip')" if "limiter_wf l"
    by (auto simp: active_count_def on_disconnect_def split: option.split)
  show "max_per_ip (on_connect ip l) = max_per_ip l"
    by (simp add: on_connect_def Let_def)
  show "max_per_ip (on_disconnect ip l) = max_per_ip l"
    by (simp add: on_disconnect_def split: option.split)
  show "limiter_wf (on_connect ip l)" if "limiter_wf l"
    using that by (simp add: limiter_wf_def on_connect_def Let_def hm_wf_insert)
  show "limiter_wf (on_disconnect ip l)" if "limiter_wf l"
    using that by (auto simp: limiter_wf_def on_disconnect_def hm_wf_insert hm_wf_remove split: option.split)
qed

section \<open>Authentication attempts per connection\<close>

record auth_attempt_limiter =
  max_attempts :: nat
  failures :: nat

definition auth_attempt_limiter_new :: "nat \<Rightarrow> auth_attempt_limiter" where
  "auth_attempt_limiter_new n = \<lparr>max_attempts = n, failures = 0\<rparr>"

definition check_attempts :: "auth_attempt_limiter \<Rightarrow> bool" where
  "check_attempts l = (if max_attempts l = 0 then True else failures l < max_attempts l)"

definition on_failure :: "auth_attempt_limiter \<Rightarrow> auth_attempt_limiter" where
  "on_failure l = l\<lparr>failures := failures l + 1\<rparr>"

lemma on_failure_simps [simp]:
  "max_attempts (on_failure l) = max_attempts l"
  "failures (on_failure l) = failures l + 1"
  by (simp_all add: on_failure_def)

end
