(* ===== verification/Control_Channel.thy ===== *)
theory Control_Channel
  imports Rust_Io Forwarding
begin

text \<open>
  \<open>server/control_channel.rs\<close> and \<open>server/stealth.rs\<close>: destinations reserved for the control
  protocol, and the disguise of a TLS server as a web server. A control channel handler is code the
  application supplies; a value \<open>'c\<close> names it and the router records whether there is one.
\<close>

section \<open>Reserved destinations\<close>

definition ALKNET_CONTROL_DESTINATION :: string where
  "ALKNET_CONTROL_DESTINATION = ''alknet-control''"

definition is_reserved_destination :: "string \<Rightarrow> bool" where
  "is_reserved_destination host \<longleftrightarrow> starts_with host ALKNET_PREFIX"

record 'c control_channel_router =
  router_handler :: "'c option"

definition router_without_handler :: "'c control_channel_router" where
  "router_without_handler = \<lparr>router_handler = None\<rparr>"

definition router_with_handler :: "'c \<Rightarrow> 'c control_channel_router" where
  "router_with_handler h = \<lparr>router_handler = Some h\<rparr>"

definition has_handler :: "'c control_channel_router \<Rightarrow> bool" where
  "has_handler r \<longleftrightarrow> router_handler r \<noteq> None"

text \<open>\<open>route\<close>: the handler that received the stream, or the refusal.\<close>

definition route :: "'c control_channel_router \<Rightarrow> io_error + 'c" where
  "route r =
     (case router_handler r of
        Some h \<Rightarrow> Ok h
      | None \<Rightarrow> Err (IoError ConnectionRefused ''no control channel handler configured''))"

definition take_handler :: "'c control_channel_router \<Rightarrow> 'c option \<times> 'c control_channel_router" where
  "take_handler r = (router_handler r, r\<lparr>router_handler := None\<rparr>)"

section \<open>Stealth mode\<close>

definition SSH_BANNER_PREFIX :: bytes where
  "SSH_BANNER_PREFIX = as_bytes ''SSH-2.0-''"

definition FAKE_NGINX_404 :: bytes where
  "FAKE_NGINX_404 = as_bytes (''HTTP/1.1 404 Not Found'' @ [CHR 13, CHR 10] @ ''Server: nginx'' @
     [CHR 13, CHR 10, CHR 13, CHR 10])"

datatype protocol_detection = Ssh | Http

text \<open>
  \<open>fill_buf\<close> of a \<open>BufReader\<close> with its default of 8192 bytes waits until the first read has something to
  report. Here an empty script is a peer that is connected and has sent nothing: the call has not
  returned, and the value is \<open>None\<close>. What a read brings stays in the buffer, so the stream is unchanged
  for the protocol that reads it next; an error or the end of the stream, an empty chunk, is met once.
\<close>

definition fill_buf :: "stream \<Rightarrow> ((io_error + bytes) \<times> stream) option" where
  "fill_buf s =
     (if rx s = [] then None
      else let (r, evs) = read_some 8192 (rx s) in
        Some (r, case r of Ok (b # bs) \<Rightarrow> s | _ \<Rightarrow> s\<lparr>rx := evs\<rparr>))"

definition detect_protocol :: "stream \<Rightarrow> (protocol_detection \<times> stream) option" where
  "detect_protocol s =
     (case fill_buf s of
        None \<Rightarrow> None
      | Some (r, reader) \<Rightarrow> Some (
          case r of
            Ok buf \<Rightarrow>
              if length SSH_BANNER_PREFIX \<le> length buf then
                (if take (length SSH_BANNER_PREFIX) buf = SSH_BANNER_PREFIX then Ssh else Http)
              else if buf \<noteq> [] then
                (if starts_with (of_bytes buf) (of_bytes SSH_BANNER_PREFIX) then Ssh else Http)
              else Http
          | Err _ \<Rightarrow> Http, reader))"

definition send_fake_nginx_404 :: "stream \<Rightarrow> stream" where
  "send_fake_nginx_404 s = st_shutdown (snd (st_write_all FAKE_NGINX_404 s))"

definition validate_stealth_config :: "bool \<Rightarrow> bool \<Rightarrow> string + unit" where
  "validate_stealth_config stealth transport_is_tls =
     (if stealth \<and> \<not> transport_is_tls
      then Err ''stealth mode requires TLS transport (--transport tls)'' else Ok ())"

lemma detect_protocol_iff:
  "detect_protocol s =
     (case rx s of
        [] \<Rightarrow> None
      | ev # evs \<Rightarrow> Some (
          if \<exists>rest. ev = Chunk (SSH_BANNER_PREFIX @ rest) then Ssh else Http,
          case ev of Chunk (b # bs) \<Rightarrow> s | _ \<Rightarrow> s\<lparr>rx := evs\<rparr>))"
proof (cases "(8192 :: nat, rx s)" rule: read_some.cases)
  case (3 n bs evs)
  have len: "length SSH_BANNER_PREFIX = 8"
    by (simp add: SSH_BANNER_PREFIX_def)
  have ssh: "take 8 (take 8192 bs) = SSH_BANNER_PREFIX \<longleftrightarrow> (\<exists>rest. bs = SSH_BANNER_PREFIX @ rest)"
    by (simp add: len) (metis append_eq_conv_conj append_take_drop_id len)
  have short: "\<not> starts_with (of_bytes b) (of_bytes SSH_BANNER_PREFIX)" if "length b < 8" for b
    using that len by (auto simp: starts_with_def of_bytes_def dest!: map_eq_imp_length_eq)
  have "\<nexists>rest. bs = SSH_BANNER_PREFIX @ rest" if "length bs < 8"
    using that len by auto
  moreover have "(case take 8192 bs of [] \<Rightarrow> s\<lparr>rx := e\<rparr> | b # x \<Rightarrow> s) = (case bs of [] \<Rightarrow> s\<lparr>rx := e\<rparr> | b # x \<Rightarrow> s)" for e
    by (cases bs) simp_all
  ultimately show ?thesis
    using 3 len short ssh [symmetric]
    by (cases "bs = []") (auto simp: detect_protocol_def fill_buf_def split: list.split)
qed (auto simp: detect_protocol_def fill_buf_def SSH_BANNER_PREFIX_def as_bytes_def)

end
