(* ===== verification/Socks5.thy ===== *)
theory Socks5
  imports Errors Rust_Utf8 Rust_Net
begin

text \<open>
  \<open>socks5/protocol.rs\<close> and \<open>socks5/mod.rs\<close>: the SOCKS5 server the client runs locally. The messages
  are read from and written to a \<open>stream\<close>; the channel behind it is opened by \<open>opener\<close>, and \<open>copy\<close> is
  the result of \<open>tokio::io::copy_bidirectional\<close> once it is open.
\<close>

section \<open>Messages\<close>

datatype socks5_address =
  Ipv4 u8 u8 u8 u8
| Ipv6 u16 u16 u16 u16 u16 u16 u16 u16
| Domain string

record socks5_version_method =
  vm_version :: u8
  methods :: bytes

record socks5_request =
  req_version :: u8
  command :: u8
  req_address :: socks5_address
  req_port :: u16

record socks5_reply =
  rep_version :: u8
  reply :: u8
  rep_address :: socks5_address
  rep_port :: u16

abbreviation Ipv4_UNSPECIFIED :: socks5_address where
  "Ipv4_UNSPECIFIED \<equiv> Ipv4 0 0 0 0"

definition version_method_read_from :: "stream \<Rightarrow> (io_error + socks5_version_method) \<times> stream" where
  "version_method_read_from =
     io_bind st_read_u8 (\<lambda>version.
     io_bind st_read_u8 (\<lambda>nmethods.
     io_bind (st_read_exact (unat nmethods)) (\<lambda>ms.
     io_return \<lparr>vm_version = version, methods = ms\<rparr>)))"

definition ipv6_of_octets :: "bytes \<Rightarrow> socks5_address" where
  "ipv6_of_octets o8 =
     Ipv6 (u16_from_be_bytes (o8 ! 0) (o8 ! 1)) (u16_from_be_bytes (o8 ! 2) (o8 ! 3))
          (u16_from_be_bytes (o8 ! 4) (o8 ! 5)) (u16_from_be_bytes (o8 ! 6) (o8 ! 7))
          (u16_from_be_bytes (o8 ! 8) (o8 ! 9)) (u16_from_be_bytes (o8 ! 10) (o8 ! 11))
          (u16_from_be_bytes (o8 ! 12) (o8 ! 13)) (u16_from_be_bytes (o8 ! 14) (o8 ! 15))"

definition read_address :: "u8 \<Rightarrow> stream \<Rightarrow> (io_error + socks5_address) \<times> stream" where
  "read_address atyp =
     (if atyp = 1 then
        io_bind (st_read_exact 4) (\<lambda>b. io_return (Ipv4 (b ! 0) (b ! 1) (b ! 2) (b ! 3)))
      else if atyp = 4 then
        io_bind (st_read_exact 16) (\<lambda>b. io_return (ipv6_of_octets b))
      else if atyp = 3 then
        io_bind st_read_u8 (\<lambda>len.
        io_bind (st_read_exact (unat len)) (\<lambda>b. io_return (Domain (from_utf8_lossy b))))
      else io_fail (IoError InvalidData (''unsupported address type: '' @ show_nat (unat atyp))))"

definition request_read_from :: "stream \<Rightarrow> (io_error + socks5_request) \<times> stream" where
  "request_read_from =
     io_bind st_read_u8 (\<lambda>version.
     io_bind st_read_u8 (\<lambda>cmd.
     io_bind st_read_u8 (\<lambda>_.
     io_bind st_read_u8 (\<lambda>atyp.
     io_bind (read_address atyp) (\<lambda>addr.
     io_bind st_read_u16 (\<lambda>p.
     io_return \<lparr>req_version = version, command = cmd, req_address = addr, req_port = p\<rparr>))))))"

definition reply_success :: "socks5_address \<Rightarrow> u16 \<Rightarrow> socks5_reply" where
  "reply_success addr p = \<lparr>rep_version = 5, reply = 0, rep_address = addr, rep_port = p\<rparr>"

definition reply_connection_refused :: socks5_reply where
  "reply_connection_refused =
     \<lparr>rep_version = 5, reply = 5, rep_address = Ipv4_UNSPECIFIED, rep_port = 0\<rparr>"

definition reply_command_not_supported :: socks5_reply where
  "reply_command_not_supported =
     \<lparr>rep_version = 5, reply = 7, rep_address = Ipv4_UNSPECIFIED, rep_port = 0\<rparr>"

fun octets :: "socks5_address \<Rightarrow> bytes" where
  "octets (Ipv4 a b c d) = [a, b, c, d]"
| "octets (Ipv6 a b c d e f g h) = concat (map u16_to_be_bytes [a, b, c, d, e, f, g, h])"
| "octets (Domain name) = as_bytes name"

definition write_address :: "socks5_address \<Rightarrow> stream \<Rightarrow> (io_error + unit) \<times> stream" where
  "write_address addr =
     (case addr of
        Ipv4 _ _ _ _ \<Rightarrow> io_bind (st_write_all [1]) (\<lambda>_. st_write_all (octets addr))
      | Ipv6 _ _ _ _ _ _ _ _ \<Rightarrow> io_bind (st_write_all [4]) (\<lambda>_. st_write_all (octets addr))
      | Domain name \<Rightarrow>
          io_bind (st_write_all [3]) (\<lambda>_.
          io_bind (st_write_all [of_nat (length name)]) (\<lambda>_. st_write_all (octets addr))))"

definition reply_write_to :: "socks5_reply \<Rightarrow> stream \<Rightarrow> (io_error + unit) \<times> stream" where
  "reply_write_to r =
     io_bind (st_write_all [rep_version r]) (\<lambda>_.
     io_bind (st_write_all [reply r]) (\<lambda>_.
     io_bind (st_write_all [0]) (\<lambda>_.
     io_bind (write_address (rep_address r)) (\<lambda>_.
     st_write_flush (u16_to_be_bytes (rep_port r))))))"

section \<open>The connection handler\<close>

datatype channel_open_error = SessionClosed | OpenFailed | OpenRefused

datatype socks5_error =
  InvalidVersion u8
| NoAcceptableAuth
| UnsupportedCommand u8
| Socks5ChannelOpenFailed
| Socks5Io io_error

type_synonym opener = "string \<Rightarrow> u16 \<Rightarrow> channel_open_error + unit"

definition socks5_io :: "(stream \<Rightarrow> (io_error + 'a) \<times> stream) \<Rightarrow> stream \<Rightarrow> (socks5_error + 'a) \<times> stream" where
  "socks5_io m = io_map_err Socks5Io m"

definition send_error_reply :: "socks5_reply \<Rightarrow> stream \<Rightarrow> (socks5_error + unit) \<times> stream" where
  "send_error_reply r = io_bind (socks5_io (reply_write_to r)) (\<lambda>_ s. (Ok (), st_shutdown s))"

definition target_of :: "socks5_address \<Rightarrow> string" where
  "target_of addr =
     (case addr of
        Ipv4 a b c d \<Rightarrow> show_ip_addr (V4 a b c d)
      | Ipv6 a b c d e f g h \<Rightarrow> show_ip_addr (V6 a b c d e f g h)
      | Domain name \<Rightarrow> name)"

text \<open>The greeting: version and methods, answered by the method chosen.\<close>

definition socks5_greeting :: "stream \<Rightarrow> (socks5_error + unit) \<times> stream" where
  "socks5_greeting =
     io_bind (socks5_io version_method_read_from) (\<lambda>vm.
     if vm_version vm \<noteq> 5 then io_fail (InvalidVersion (vm_version vm))
     else if 0 \<notin> set (methods vm) then
       io_bind (socks5_io (st_write_all [5, 255])) (\<lambda>_.
       io_bind (socks5_io st_close) (\<lambda>_. io_fail NoAcceptableAuth))
     else socks5_io (st_write_all [5, 0]))"

text \<open>The request, and the address it asks for.\<close>

definition socks5_request_phase :: "stream \<Rightarrow> (socks5_error + socks5_request) \<times> stream" where
  "socks5_request_phase =
     io_bind (socks5_io request_read_from) (\<lambda>req.
     if req_version req \<noteq> 5 then io_fail (InvalidVersion (req_version req))
     else if command req \<noteq> 1 then
       io_bind (send_error_reply reply_command_not_supported) (\<lambda>_.
       io_fail (UnsupportedCommand (command req)))
     else io_return req)"

text \<open>The whole handler; the list holds the channels it asked \<open>opener\<close> for.\<close>

definition handle_socks5_connection ::
  "opener \<Rightarrow> (io_error + unit) \<Rightarrow> stream \<Rightarrow> (socks5_error + unit) \<times> stream \<times> (string \<times> u16) list" where
  "handle_socks5_connection opener copy s =
     (case io_bind socks5_greeting (\<lambda>_. socks5_request_phase) s of
        (Err e, s') \<Rightarrow> (Err e, s', [])
      | (Ok req, s') \<Rightarrow>
          let host = target_of (req_address req); p = req_port req in
          case opener host p of
            Ok _ \<Rightarrow>
              let (r, s2) = io_bind (socks5_io (reply_write_to (reply_success Ipv4_UNSPECIFIED 0)))
                              (\<lambda>_ s3. (map_err Socks5Io copy, s3)) s' in
              (r, s2, [(host, p)])
          | Err _ \<Rightarrow>
              let (r, s2) = io_bind (send_error_reply reply_connection_refused)
                              (\<lambda>_. io_fail Socks5ChannelOpenFailed) s' in
              (r, s2, [(host, p)]))"

text \<open>\<open>HandleChannelOpener::open_channel\<close>: a closed session is reported as such, any failure of the SSH
  channel as \<open>OpenFailed\<close>; \<open>open_direct\<close> is the call into \<open>russh\<close>, whose port argument is 32 bits wide.\<close>

definition open_channel :: "bool \<Rightarrow> (string \<Rightarrow> u32 \<Rightarrow> bool) \<Rightarrow> opener" where
  "open_channel session_closed open_direct host p =
     (if session_closed then Err SessionClosed
      else if open_direct host (ucast p) then Ok () else Err OpenFailed)"

definition DEFAULT_SOCKS5_ADDR :: string where
  "DEFAULT_SOCKS5_ADDR = ''127.0.0.1:1080''"

text \<open>\<open>Socks5Server::with_addr\<close> panics on an address that does not parse.\<close>

definition socks5_server_with_addr :: "string \<Rightarrow> socket_addr outcome" where
  "socks5_server_with_addr addr =
     (case parse_socket_addr addr of Some a \<Rightarrow> Returns a | None \<Rightarrow> Panics)"

text \<open>\<open>Socks5Server::run\<close>: a task for every connection, and the end at the first connection that cannot be
  accepted. \<open>accepts\<close> is what the listener yields; the result is \<open>None\<close> while the server waits for more.\<close>

fun socks5_accept_loop ::
  "(io_error + stream) list \<Rightarrow> stream list \<times> (io_error + unit) option" where
  "socks5_accept_loop [] = ([], None)"
| "socks5_accept_loop (Err e # accepts) = ([], Some (Err e))"
| "socks5_accept_loop (Ok s # accepts) = apfst (Cons s) (socks5_accept_loop accepts)"

definition socks5_run ::
  "opener \<Rightarrow> (stream \<Rightarrow> io_error + unit) \<Rightarrow> io_error + unit \<Rightarrow> (io_error + stream) list \<Rightarrow>
   ((socks5_error + unit) \<times> stream \<times> (string \<times> u16) list) list \<times> (io_error + unit) option" where
  "socks5_run opener copy bound accepts =
     (case bound of
        Err e \<Rightarrow> ([], Some (Err e))
      | Ok _ \<Rightarrow> apfst (map (\<lambda>s. handle_socks5_connection opener (copy s) s)) (socks5_accept_loop accepts))"

lemma socks5_run_never_ok: "snd (socks5_run opener copy bound accepts) \<noteq> Some (Ok ())"
proof -
  have "snd (socks5_accept_loop accepts) \<noteq> Some (Ok ())"
    by (induction accepts rule: socks5_accept_loop.induct) auto
  then show ?thesis
    by (simp add: socks5_run_def split: sum.split)
qed

text \<open>One connection that cannot be accepted ends the server, whatever would come after it.\<close>

lemma socks5_run_accept_error:
  "socks5_run opener copy (Ok ()) (map Inr ss @ Err e # accepts) =
     (map (\<lambda>s. handle_socks5_connection opener (copy s) s) ss, Some (Err e))"
proof -
  have "socks5_accept_loop (map Inr ss @ Err e # accepts) = (ss, Some (Err e))"
    by (induction ss) auto
  then show ?thesis
    by (simp add: socks5_run_def)
qed

section \<open>Reading what was sent, in any chunks\<close>

fun addr_bytes :: "socks5_address \<Rightarrow> bytes" where
  "addr_bytes (Ipv4 a b c d) = 1 # octets (Ipv4 a b c d)"
| "addr_bytes (Ipv6 a b c d e f g h) = 4 # octets (Ipv6 a b c d e f g h)"
| "addr_bytes (Domain name) = 3 # of_nat (length name) # as_bytes name"

fun addr_ok :: "socks5_address \<Rightarrow> bool" where
  "addr_ok (Domain name) \<longleftrightarrow> length name < 256 \<and> utf8_valid name"
| "addr_ok _ \<longleftrightarrow> True"

lemma length_octets_Ipv6 [simp]: "length (octets (Ipv6 a b c d e f g h)) = 16"
  by (simp add: u16_to_be_bytes_def)

lemma ipv6_of_octets_octets [simp]:
  "ipv6_of_octets (octets (Ipv6 a b c d e f g h)) = Ipv6 a b c d e f g h"
  by (simp add: ipv6_of_octets_def u16_to_be_bytes_def)

lemma read_address_feeds:
  assumes "addr_ok addr" "feeds s (tl (addr_bytes addr) @ r)"
  shows "\<exists>evs. read_address (hd (addr_bytes addr)) s = (Ok addr, s\<lparr>rx := evs\<rparr>) \<and> feeds (s\<lparr>rx := evs\<rparr>) r"
proof (cases addr)
  case (Ipv4 a b c d)
  then show ?thesis
    using assms st_read_exact_feeds [of s "octets (Ipv4 a b c d)" r]
    by (auto simp: read_address_def eval_nat_numeral)
next
  case (Ipv6 a b c d e f g h)
  obtain evs where "st_read_exact 16 s = (Ok (octets (Ipv6 a b c d e f g h)), s\<lparr>rx := evs\<rparr>)"
    "feeds (s\<lparr>rx := evs\<rparr>) r"
    using assms Ipv6 st_read_exact_feeds [of s "octets (Ipv6 a b c d e f g h)" r]
    by (auto simp del: octets.simps)
  then show ?thesis
    using Ipv6 by (auto simp: read_address_def simp del: octets.simps)
next
  case (Domain name)
  then obtain e1 where e1: "st_read_u8 s = (Ok (of_nat (length name)), s\<lparr>rx := e1\<rparr>)"
    "feeds (s\<lparr>rx := e1\<rparr>) (as_bytes name @ r)"
    using assms st_read_u8_feeds by fastforce
  obtain e2 where "st_read_exact (length name) (s\<lparr>rx := e1\<rparr>) = (Ok (as_bytes name), s\<lparr>rx := e2\<rparr>)"
    "feeds (s\<lparr>rx := e2\<rparr>) r"
    using st_read_exact_feeds [OF e1(2)] by auto
  moreover have "unat (of_nat (length name) :: u8) = length name"
    using assms Domain by (simp add: unat_of_nat)
  ultimately show ?thesis
    using assms Domain e1 by (auto simp: read_address_def from_utf8_lossy_as_bytes)
qed

lemma request_read_from_feeds:
  assumes "addr_ok addr" "feeds s (v # c # z # addr_bytes addr @ u16_to_be_bytes p @ r)"
  shows "\<exists>evs. request_read_from s =
      (Ok \<lparr>req_version = v, command = c, req_address = addr, req_port = p\<rparr>, s\<lparr>rx := evs\<rparr>) \<and>
    feeds (s\<lparr>rx := evs\<rparr>) r"
proof -
  have bytes: "addr_bytes addr = hd (addr_bytes addr) # tl (addr_bytes addr)"
    by (cases addr) auto
  obtain e1 where e1: "st_read_u8 s = (Ok v, s\<lparr>rx := e1\<rparr>)"
    "feeds (s\<lparr>rx := e1\<rparr>) (c # z # addr_bytes addr @ u16_to_be_bytes p @ r)"
    using st_read_u8_feeds [OF assms(2)] by blast
  obtain e2 where e2: "st_read_u8 (s\<lparr>rx := e1\<rparr>) = (Ok c, s\<lparr>rx := e2\<rparr>)"
    "feeds (s\<lparr>rx := e2\<rparr>) (z # addr_bytes addr @ u16_to_be_bytes p @ r)"
    using st_read_u8_feeds [OF e1(2)] by auto
  obtain e3 where e3: "st_read_u8 (s\<lparr>rx := e2\<rparr>) = (Ok z, s\<lparr>rx := e3\<rparr>)"
    "feeds (s\<lparr>rx := e3\<rparr>) (hd (addr_bytes addr) # tl (addr_bytes addr) @ u16_to_be_bytes p @ r)"
    using st_read_u8_feeds [OF e2(2)] by (metis append_Cons bytes stream.update_convs(1) stream.surjective)
  obtain e4 where e4: "st_read_u8 (s\<lparr>rx := e3\<rparr>) = (Ok (hd (addr_bytes addr)), s\<lparr>rx := e4\<rparr>)"
    "feeds (s\<lparr>rx := e4\<rparr>) (tl (addr_bytes addr) @ u16_to_be_bytes p @ r)"
    using st_read_u8_feeds [OF e3(2)] by auto
  obtain e5 where e5: "read_address (hd (addr_bytes addr)) (s\<lparr>rx := e4\<rparr>) = (Ok addr, s\<lparr>rx := e5\<rparr>)"
    "feeds (s\<lparr>rx := e5\<rparr>) (u16_to_be_bytes p @ r)"
    using read_address_feeds [OF assms(1) e4(2)] by auto
  obtain e6 where e6: "st_read_u16 (s\<lparr>rx := e5\<rparr>) = (Ok p, s\<lparr>rx := e6\<rparr>)" "feeds (s\<lparr>rx := e6\<rparr>) r"
    using st_read_u16_feeds [OF e5(2)] by auto
  show ?thesis
    using e1 e2 e3 e4 e5 e6 by (auto simp: request_read_from_def)
qed

lemma version_method_read_from_feeds:
  assumes "length ms < 256" "feeds s (v # of_nat (length ms) # ms @ r)"
  shows "\<exists>evs. version_method_read_from s = (Ok \<lparr>vm_version = v, methods = ms\<rparr>, s\<lparr>rx := evs\<rparr>) \<and>
    feeds (s\<lparr>rx := evs\<rparr>) r"
proof -
  obtain e1 where e1: "st_read_u8 s = (Ok v, s\<lparr>rx := e1\<rparr>)"
    "feeds (s\<lparr>rx := e1\<rparr>) (of_nat (length ms) # ms @ r)"
    using st_read_u8_feeds [OF assms(2)] by blast
  obtain e2 where e2: "st_read_u8 (s\<lparr>rx := e1\<rparr>) = (Ok (of_nat (length ms)), s\<lparr>rx := e2\<rparr>)"
    "feeds (s\<lparr>rx := e2\<rparr>) (ms @ r)"
    using st_read_u8_feeds [OF e1(2)] by auto
  obtain e3 where e3: "st_read_exact (length ms) (s\<lparr>rx := e2\<rparr>) = (Ok ms, s\<lparr>rx := e3\<rparr>)"
    "feeds (s\<lparr>rx := e3\<rparr>) r"
    using st_read_exact_feeds [OF e2(2)] by auto
  have "unat (of_nat (length ms) :: u8) = length ms"
    using assms(1) by (simp add: unat_of_nat)
  then show ?thesis
    using e1 e2 e3 by (auto simp: version_method_read_from_def)
qed

section \<open>Writing\<close>

definition reply_bytes :: "socks5_reply \<Rightarrow> bytes" where
  "reply_bytes r = [rep_version r, reply r, 0] @ addr_bytes (rep_address r) @ u16_to_be_bytes (rep_port r)"

lemma reply_write_to_ok:
  assumes "wr s = []"
  shows "reply_write_to r s = (Ok (), s\<lparr>tx := tx s @ reply_bytes r\<rparr>)"
  using assms
  by (cases "rep_address r") (simp_all add: reply_write_to_def write_address_def reply_bytes_def)

lemma send_error_reply_ok:
  assumes "wr s = []"
  shows "send_error_reply r s = (Ok (), s\<lparr>tx := tx s @ reply_bytes r, shut := True\<rparr>)"
  using assms
  by (simp add: send_error_reply_def socks5_io_def io_map_err_def io_bind_def reply_write_to_ok st_shutdown_def)

section \<open>The handler on every request\<close>

lemma socks5_greeting_ok:
  assumes "wr s = []" "length ms < 256" "0 \<in> set ms" "feeds s (5 # of_nat (length ms) # ms @ r)"
  shows "\<exists>evs. socks5_greeting s = (Ok (), s\<lparr>rx := evs, tx := tx s @ [5, 0]\<rparr>) \<and>
    feeds (s\<lparr>rx := evs, tx := tx s @ [5, 0]\<rparr>) r"
proof -
  obtain evs where "version_method_read_from s = (Ok \<lparr>vm_version = 5, methods = ms\<rparr>, s\<lparr>rx := evs\<rparr>)"
    "feeds (s\<lparr>rx := evs\<rparr>) r"
    using version_method_read_from_feeds [OF assms(2,4)] by blast
  then show ?thesis
    using assms by (auto simp: socks5_greeting_def socks5_io_def io_map_err_def io_bind_def feeds_def)
qed

lemma socks5_request_phase_feeds:
  assumes "wr s = []" "addr_ok addr"
    and "feeds s (v # c # z # addr_bytes addr @ u16_to_be_bytes p @ r)"
  shows "\<exists>evs. socks5_request_phase s =
    (if v \<noteq> 5 then (Err (InvalidVersion v), s\<lparr>rx := evs\<rparr>)
     else if c \<noteq> 1 then (Err (UnsupportedCommand c),
       s\<lparr>rx := evs, tx := tx s @ reply_bytes reply_command_not_supported, shut := True\<rparr>)
     else (Ok \<lparr>req_version = v, command = c, req_address = addr, req_port = p\<rparr>, s\<lparr>rx := evs\<rparr>))"
proof -
  obtain evs where "request_read_from s =
      (Ok \<lparr>req_version = v, command = c, req_address = addr, req_port = p\<rparr>, s\<lparr>rx := evs\<rparr>)"
    using request_read_from_feeds [OF assms(2,3)] by blast
  then have "socks5_request_phase s =
    (if v \<noteq> 5 then (Err (InvalidVersion v), s\<lparr>rx := evs\<rparr>)
     else if c \<noteq> 1 then (Err (UnsupportedCommand c),
       s\<lparr>rx := evs, tx := tx s @ reply_bytes reply_command_not_supported, shut := True\<rparr>)
     else (Ok \<lparr>req_version = v, command = c, req_address = addr, req_port = p\<rparr>, s\<lparr>rx := evs\<rparr>))"
    using assms(1) send_error_reply_ok [of "s\<lparr>rx := evs\<rparr>" reply_command_not_supported]
    by (simp add: socks5_request_phase_def socks5_io_def io_map_err_def io_bind_def)
  then show ?thesis
    by blast
qed

lemma handle_socks5_request:
  assumes "wr s = []" "length ms < 256" "0 \<in> set ms" "addr_ok addr"
    and "feeds s (5 # of_nat (length ms) # ms @ v # c # z # addr_bytes addr @ u16_to_be_bytes p @ r)"
  shows "\<exists>evs. handle_socks5_connection opener copy s =
    (if v \<noteq> 5 then (Err (InvalidVersion v), s\<lparr>rx := evs, tx := tx s @ [5, 0]\<rparr>, [])
     else if c \<noteq> 1 then
       (Err (UnsupportedCommand c),
        s\<lparr>rx := evs, tx := tx s @ [5, 0] @ reply_bytes reply_command_not_supported, shut := True\<rparr>, [])
     else if opener (target_of addr) p = Ok () then
       (map_err Socks5Io copy,
        s\<lparr>rx := evs, tx := tx s @ [5, 0] @ reply_bytes (reply_success Ipv4_UNSPECIFIED 0)\<rparr>,
        [(target_of addr, p)])
     else
       (Err Socks5ChannelOpenFailed,
        s\<lparr>rx := evs, tx := tx s @ [5, 0] @ reply_bytes reply_connection_refused, shut := True\<rparr>,
        [(target_of addr, p)]))"
proof -
  obtain e1 where e1: "socks5_greeting s = (Ok (), s\<lparr>rx := e1, tx := tx s @ [5, 0]\<rparr>)"
    "feeds (s\<lparr>rx := e1, tx := tx s @ [5, 0]\<rparr>) (v # c # z # addr_bytes addr @ u16_to_be_bytes p @ r)"
    using socks5_greeting_ok [OF assms(1-3,5)] by blast
  let ?s1 = "s\<lparr>rx := e1, tx := tx s @ [5, 0]\<rparr>"
  obtain e2 where e2: "socks5_request_phase ?s1 =
    (if v \<noteq> 5 then (Err (InvalidVersion v), ?s1\<lparr>rx := e2\<rparr>)
     else if c \<noteq> 1 then (Err (UnsupportedCommand c),
       ?s1\<lparr>rx := e2, tx := tx ?s1 @ reply_bytes reply_command_not_supported, shut := True\<rparr>)
     else (Ok \<lparr>req_version = v, command = c, req_address = addr, req_port = p\<rparr>, ?s1\<lparr>rx := e2\<rparr>))"
    using socks5_request_phase_feeds [OF _ assms(4) e1(2)] assms(1) by auto
  have both: "io_bind socks5_greeting (\<lambda>_. socks5_request_phase) s = socks5_request_phase ?s1"
    using e1(1) by (simp add: io_bind_def)
  show ?thesis
    unfolding handle_socks5_connection_def both e2
    using assms(1)
    by (intro exI [of _ e2], cases "opener (target_of addr) p")
       (simp_all add: socks5_io_def io_map_err_def io_bind_def reply_write_to_ok send_error_reply_ok
         Let_def io_fail_def)
qed

text \<open>C12. The SOCKS5 handler on every well-formed exchange, however the bytes are split: after a
  greeting that offers "no authentication" it confirms that method; a request of another version is
  refused without an answer, a command other than CONNECT is answered with reply 7 and a closed
  socket, and in both cases no channel is opened. A CONNECT opens exactly one channel, to the
  requested host and port, and is answered with success or with reply 5 and a closed socket as the
  channel opens or not.\<close>

theorem socks5_serves_request:
  assumes "wr s = []" "length ms < 256" "0 \<in> set ms" "addr_ok addr"
    and "feeds s (5 # of_nat (length ms) # ms @ v # c # z # addr_bytes addr @ u16_to_be_bytes p @ r)"
  shows "\<exists>evs. handle_socks5_connection opener copy s =
    (if v \<noteq> 5 then (Err (InvalidVersion v), s\<lparr>rx := evs, tx := tx s @ [5, 0]\<rparr>, [])
     else if c \<noteq> 1 then
       (Err (UnsupportedCommand c),
        s\<lparr>rx := evs, tx := tx s @ [5, 0] @ reply_bytes reply_command_not_supported, shut := True\<rparr>, [])
     else if opener (target_of addr) p = Ok () then
       (map_err Socks5Io copy,
        s\<lparr>rx := evs, tx := tx s @ [5, 0] @ reply_bytes (reply_success Ipv4_UNSPECIFIED 0)\<rparr>,
        [(target_of addr, p)])
     else
       (Err Socks5ChannelOpenFailed,
        s\<lparr>rx := evs, tx := tx s @ [5, 0] @ reply_bytes reply_connection_refused, shut := True\<rparr>,
        [(target_of addr, p)]))"
  using assms by (rule handle_socks5_request)

theorem socks5_serves_request_witness:
  "\<exists>evs. handle_socks5_connection (\<lambda>h p. if h = ''ab'' \<and> p = 80 then Ok () else Err OpenFailed) (Ok ())
     \<lparr>rx = [Chunk [5, 1], Chunk [0, 5, 1, 0, 3, 2, 97], Chunk [98, 0, 80]], tx = [], wr = [], shut = False\<rparr> =
   (Ok (), \<lparr>rx = evs, tx = [5, 0, 5, 0, 0, 1, 0, 0, 0, 0, 0, 0], wr = [], shut = False\<rparr>, [(''ab'', 80)])"
proof -
  have "utf8_valid ''ab''"
    by code_simp
  then show ?thesis
    using socks5_serves_request [where ms = "[0]" and addr = "Domain ''ab''" and v = 5 and c = 1
        and z = 0 and p = 80 and r = "[]" and copy = "Ok ()"
        and opener = "\<lambda>h p. if h = ''ab'' \<and> p = 80 then Ok () else Err OpenFailed"
        and s = "\<lparr>rx = [Chunk [5, 1], Chunk [0, 5, 1, 0, 3, 2, 97], Chunk [98, 0, 80]], tx = [], wr = [], shut = False\<rparr>"]
    by (simp add: feeds_def target_of_def reply_bytes_def reply_success_def u16_to_be_bytes_def
        as_bytes_def byte_of_def)
qed

text \<open>A client that speaks another version gets no answer, and one that does not offer "no
  authentication" gets 0xFF and a closed socket; no channel is opened for either.\<close>

theorem socks5_refuses_greeting:
  assumes "wr s = []" "length ms < 256" "feeds s (v # of_nat (length ms) # ms @ r)"
    and "v \<noteq> 5 \<or> 0 \<notin> set ms"
  shows "\<exists>evs. handle_socks5_connection opener copy s =
    (if v \<noteq> 5 then (Err (InvalidVersion v), s\<lparr>rx := evs\<rparr>, [])
     else (Err NoAcceptableAuth, s\<lparr>rx := evs, tx := tx s @ [5, 255], shut := True\<rparr>, []))"
proof -
  obtain evs where "version_method_read_from s = (Ok \<lparr>vm_version = v, methods = ms\<rparr>, s\<lparr>rx := evs\<rparr>)"
    using version_method_read_from_feeds [OF assms(2,3)] by blast
  then have "socks5_greeting s =
      (if v \<noteq> 5 then (Err (InvalidVersion v), s\<lparr>rx := evs\<rparr>)
       else (Err NoAcceptableAuth, s\<lparr>rx := evs, tx := tx s @ [5, 255], shut := True\<rparr>))"
    using assms by (auto simp: socks5_greeting_def socks5_io_def io_map_err_def io_bind_def st_shutdown_def)
  then show ?thesis
    by (intro exI [of _ evs]) (simp add: handle_socks5_connection_def io_bind_def)
qed

theorem socks5_refuses_greeting_witness:
  "\<exists>evs. handle_socks5_connection (\<lambda>_ _. Ok ()) (Ok ())
     \<lparr>rx = [Chunk [5, 1], Chunk [2]], tx = [], wr = [], shut = False\<rparr> =
   (Err NoAcceptableAuth, \<lparr>rx = evs, tx = [5, 255], wr = [], shut = True\<rparr>, [])"
  using socks5_refuses_greeting [where ms = "[2]" and v = 5 and r = "[]" and copy = "Ok ()"
      and opener = "\<lambda>_ _. Ok ()"
      and s = "\<lparr>rx = [Chunk [5, 1], Chunk [2]], tx = [], wr = [], shut = False\<rparr>"]
  by (simp add: feeds_def)

end
