(* ===== verification/Channel_Proxy.thy ===== *)
theory Channel_Proxy
  imports Errors Rust_Net Rust_Utf8 Socks5
begin

text \<open>
  \<open>server/channel_proxy.rs\<close>: the outbound side of a forwarded channel. \<open>connect\<close> is
  \<open>TcpStream::connect\<close>: for each address the stream the network gives, with its script, or an error.
  The handshakes with a SOCKS5 or HTTP proxy run on that stream, and \<open>proxy_channel\<close> then copies both
  ways.
\<close>

datatype proxy_mode = Direct | Socks5Proxy socket_addr | HttpConnect socket_addr

record proxy_config =
  proxy_mode_of :: proxy_mode

datatype channel_proxy_error =
  CpConnectionRefused
| CpTargetUnreachable
| Socks5HandshakeFailed
| Socks5ProxyRejected
| HttpConnectHandshakeFailed
| HttpConnectProxyRejected string
| CpIo io_error

type_synonym connector = "socket_addr \<Rightarrow> io_error + stream"

definition map_connection_error :: "io_error \<Rightarrow> socket_addr \<Rightarrow> channel_proxy_error" where
  "map_connection_error e tgt =
     (if io_kind e = ConnectionRefused then CpConnectionRefused
      else if io_kind e \<in> {AddrNotAvailable, NetworkUnreachable, HostUnreachable} then CpTargetUnreachable
      else CpIo e)"

definition connect_direct :: "connector \<Rightarrow> socket_addr \<Rightarrow> channel_proxy_error + stream" where
  "connect_direct connect tgt = map_err (\<lambda>e. map_connection_error e tgt) (connect tgt)"

definition cp_io :: "(stream \<Rightarrow> (io_error + 'a) \<times> stream) \<Rightarrow> stream \<Rightarrow> (channel_proxy_error + 'a) \<times> stream" where
  "cp_io m = io_map_err CpIo m"

section \<open>SOCKS5 proxy\<close>

definition socks5_connect_request :: "socket_addr \<Rightarrow> bytes" where
  "socks5_connect_request tgt =
     (let ip_bytes = show_ip_addr (sa_ip tgt) in
      [5, 1, 0, 3] @ [of_nat (length ip_bytes)] @ as_bytes ip_bytes @ u16_to_be_bytes (sa_port tgt))"

definition socks5_skip_address :: "u8 \<Rightarrow> stream \<Rightarrow> (channel_proxy_error + unit) \<times> stream" where
  "socks5_skip_address atyp =
     (if atyp = 1 then io_bind (cp_io (st_read_exact 4)) (\<lambda>_. io_return ())
      else if atyp = 4 then io_bind (cp_io (st_read_exact 16)) (\<lambda>_. io_return ())
      else if atyp = 3 then
        io_bind (cp_io st_read_u8) (\<lambda>len. io_bind (cp_io (st_read_exact (unat len))) (\<lambda>_. io_return ()))
      else io_fail Socks5HandshakeFailed)"

definition socks5_handshake :: "socket_addr \<Rightarrow> stream \<Rightarrow> (channel_proxy_error + unit) \<times> stream" where
  "socks5_handshake tgt =
     io_bind (cp_io (st_write_flush [5, 1, 0])) (\<lambda>_.
     io_bind (cp_io (st_read_exact 2)) (\<lambda>resp.
     if resp ! 0 \<noteq> 5 \<or> resp ! 1 \<noteq> 0 then io_fail Socks5HandshakeFailed
     else
       io_bind (cp_io (st_write_flush (socks5_connect_request tgt))) (\<lambda>_.
       io_bind (cp_io (st_read_exact 4)) (\<lambda>hdr.
       if hdr ! 0 \<noteq> 5 then io_fail Socks5HandshakeFailed
       else if hdr ! 1 \<noteq> 0 then io_fail Socks5ProxyRejected
       else
         io_bind (socks5_skip_address (hdr ! 3)) (\<lambda>_.
         io_bind (cp_io (st_read_exact 2)) (\<lambda>_. io_return ()))))))"

definition connect_socks5 :: "connector \<Rightarrow> socket_addr \<Rightarrow> socket_addr \<Rightarrow> channel_proxy_error + stream" where
  "connect_socks5 connect tgt proxy_addr =
     (case connect proxy_addr of
        Err e \<Rightarrow> Err (CpIo e)
      | Ok s \<Rightarrow> (case socks5_handshake tgt s of (Ok _, s') \<Rightarrow> Ok s' | (Err e, _) \<Rightarrow> Err e))"

section \<open>HTTP proxy\<close>

definition crlf :: string where
  "crlf = [CHR 13, CHR 10]"

definition http_connect_request :: "socket_addr \<Rightarrow> string" where
  "http_connect_request tgt =
     (let authority = show_ip_addr (sa_ip tgt) @ '':'' @ show_nat (unat (sa_port tgt)) in
      ''CONNECT '' @ authority @ '' HTTP/1.1'' @ crlf @ ''Host: '' @ authority @ crlf @ crlf)"

definition has_header_end :: "bytes \<Rightarrow> bool" where
  "has_header_end response \<longleftrightarrow> str_contains (of_bytes response) (crlf @ crlf)"

function read_http_response :: "bytes \<Rightarrow> stream \<Rightarrow> (channel_proxy_error + bytes) \<times> stream" where
  "read_http_response response s =
     (case st_read 1024 s of
        (Err e, s') \<Rightarrow> (Err (CpIo e), s')
      | (Ok buf, s') \<Rightarrow>
          if buf = [] then (Err HttpConnectHandshakeFailed, s')
          else if has_header_end (response @ buf) then (Ok (response @ buf), s')
          else read_http_response (response @ buf) s')"
  by pat_completeness auto
termination
  by (relation "measure (\<lambda>(_, s). script_size (rx s))")
     (auto simp: st_read_def split: prod.splits dest: read_some_script_size)

declare read_http_response.simps [simp del]

definition status_line :: "bytes \<Rightarrow> string" where
  "status_line response =
     (case str_lines (from_utf8_lossy response) of [] \<Rightarrow> [] | l # _ \<Rightarrow> l)"

definition connect_http_connect :: "connector \<Rightarrow> socket_addr \<Rightarrow> socket_addr \<Rightarrow> channel_proxy_error + stream" where
  "connect_http_connect connect tgt proxy_addr =
     (case connect proxy_addr of
        Err e \<Rightarrow> Err (CpIo e)
      | Ok s \<Rightarrow>
          (case cp_io (st_write_flush (as_bytes (http_connect_request tgt))) s of
             (Err e, _) \<Rightarrow> Err e
           | (Ok _, s1) \<Rightarrow>
               (case read_http_response [] s1 of
                  (Err e, _) \<Rightarrow> Err e
                | (Ok response, s2) \<Rightarrow>
                    if str_contains (status_line response) ''200'' then Ok s2
                    else Err (HttpConnectProxyRejected (status_line response)))))"

definition connect_outbound :: "connector \<Rightarrow> socket_addr \<Rightarrow> proxy_config \<Rightarrow> channel_proxy_error + stream" where
  "connect_outbound connect tgt proxy =
     (case proxy_mode_of proxy of
        Direct \<Rightarrow> connect_direct connect tgt
      | Socks5Proxy addr \<Rightarrow> connect_socks5 connect tgt addr
      | HttpConnect addr \<Rightarrow> connect_http_connect connect tgt addr)"

section \<open>Copying\<close>

text \<open>\<open>tokio::io::copy\<close>: reads until the end of the stream or an error on either side.\<close>

fun st_copy :: "read_event list \<Rightarrow> stream \<Rightarrow> read_event list \<times> stream" where
  "st_copy [] dst = ([], dst)"
| "st_copy (ReadErr e # evs) dst = (evs, dst)"
| "st_copy (Chunk bs # evs) dst =
     (if bs = [] then (evs, dst)
      else case st_write_all bs dst of (Ok _, dst') \<Rightarrow> st_copy evs dst' | (Err _, dst') \<Rightarrow> (evs, dst'))"

text \<open>The channel afterwards, and the outbound stream if there is one. Both directions run as tasks of
  their own; each ends by shutting down the side it writes to.\<close>

definition proxy_channel :: "connector \<Rightarrow> stream \<Rightarrow> socket_addr \<Rightarrow> proxy_config \<Rightarrow> stream \<times> stream option" where
  "proxy_channel connect channel tgt proxy =
     (case connect_outbound connect tgt proxy of
        Ok outbound \<Rightarrow>
          let (up_rest, outbound') = st_copy (rx channel) outbound;
              (down_rest, channel') = st_copy (rx outbound) channel in
          (st_shutdown (channel'\<lparr>rx := up_rest\<rparr>), Some (st_shutdown (outbound'\<lparr>rx := down_rest\<rparr>)))
      | Err _ \<Rightarrow> (channel, None))"

section \<open>Relaying\<close>

lemma st_copy_all:
  assumes "wr dst = []" "all_chunks evs"
  shows "st_copy evs dst = ([], dst\<lparr>tx := tx dst @ chunk_bytes evs\<rparr>)"
  using assms by (induction evs dst rule: st_copy.induct) simp_all

text \<open>A forwarded channel relays faithfully: once the outbound connection is there and neither side
  fails, every byte of the channel reaches the target and every byte of the target reaches the
  channel, in order and nothing else, and both sides are shut down when the data ends.\<close>

theorem proxy_channel_relays:
  assumes "connect_outbound connect tgt proxy = Ok outbound"
    and "wr channel = []" "wr outbound = []" "feeds channel up" "feeds outbound down"
  shows "proxy_channel connect channel tgt proxy =
    (channel\<lparr>rx := [], tx := tx channel @ down, shut := True\<rparr>,
     Some (outbound\<lparr>rx := [], tx := tx outbound @ up, shut := True\<rparr>))"
  using assms by (simp add: proxy_channel_def st_copy_all feeds_def st_shutdown_def)

theorem proxy_channel_relays_witness:
  "proxy_channel (\<lambda>_. Ok \<lparr>rx = [Chunk [7], Chunk [8]], tx = [], wr = [], shut = False\<rparr>)
     \<lparr>rx = [Chunk [1, 2], Chunk [3]], tx = [], wr = [], shut = False\<rparr>
     (SocketAddr (V4 127 0 0 1) 80) \<lparr>proxy_mode_of = Direct\<rparr> =
   (\<lparr>rx = [], tx = [7, 8], wr = [], shut = True\<rparr>,
    Some \<lparr>rx = [], tx = [1, 2, 3], wr = [], shut = True\<rparr>)"
  using proxy_channel_relays [where connect = "\<lambda>_. Ok \<lparr>rx = [Chunk [7], Chunk [8]], tx = [], wr = [], shut = False\<rparr>"
      and tgt = "SocketAddr (V4 127 0 0 1) 80" and proxy = "\<lparr>proxy_mode_of = Direct\<rparr>"
      and outbound = "\<lparr>rx = [Chunk [7], Chunk [8]], tx = [], wr = [], shut = False\<rparr>"
      and channel = "\<lparr>rx = [Chunk [1, 2], Chunk [3]], tx = [], wr = [], shut = False\<rparr>"
      and up = "[1, 2, 3]" and down = "[7, 8]"]
  by (simp add: connect_outbound_def connect_direct_def feeds_def)

section \<open>The SOCKS5 handshake\<close>

lemma cp_io_Ok: "m s = (Ok a, s') \<Longrightarrow> cp_io m s = (Ok a, s')"
  by (simp add: cp_io_def io_map_err_def)

lemma socks5_skip_address_feeds:
  assumes "addr_ok a" "feeds s (tl (addr_bytes a) @ r)"
  shows "\<exists>evs. socks5_skip_address (hd (addr_bytes a)) s = (Ok (), s\<lparr>rx := evs\<rparr>) \<and> feeds (s\<lparr>rx := evs\<rparr>) r"
proof (cases a)
  case (Ipv4 x y z w)
  then show ?thesis
    using assms st_read_exact_feeds [of s "octets (Ipv4 x y z w)" r]
    by (auto simp: socks5_skip_address_def cp_io_Ok eval_nat_numeral)
next
  case (Ipv6 b c d e f g h i)
  then show ?thesis
    using assms st_read_exact_feeds [of s "octets (Ipv6 b c d e f g h i)" r]
    by (auto simp: socks5_skip_address_def cp_io_Ok simp del: octets.simps)
next
  case (Domain name)
  then obtain e1 where e1: "st_read_u8 s = (Ok (of_nat (length name)), s\<lparr>rx := e1\<rparr>)"
    "feeds (s\<lparr>rx := e1\<rparr>) (as_bytes name @ r)"
    using assms st_read_u8_feeds by fastforce
  obtain e2 where "st_read_exact (length name) (s\<lparr>rx := e1\<rparr>) = (Ok (as_bytes name), s\<lparr>rx := e2\<rparr>)"
    "feeds (s\<lparr>rx := e2\<rparr>) r"
    using st_read_exact_feeds [OF e1(2)] by auto
  moreover have "unat (of_nat (length name) :: u8) = length name"
    using assms Domain by (simp add: unat_of_nat)
  ultimately show ?thesis
    using Domain e1 by (auto simp: socks5_skip_address_def cp_io_Ok)
qed

lemma socks5_handshake_ok:
  assumes "wr s = []" "addr_ok a"
    and "feeds s ([5, 0] @ [5, 0, z] @ addr_bytes a @ u16_to_be_bytes bp @ r)"
  shows "\<exists>evs. socks5_handshake tgt s =
      (Ok (), s\<lparr>rx := evs, tx := tx s @ [5, 1, 0] @ socks5_connect_request tgt\<rparr>) \<and>
    feeds (s\<lparr>rx := evs, tx := tx s @ [5, 1, 0] @ socks5_connect_request tgt\<rparr>) r"
proof -
  let ?t1 = "tx s @ [5, 1, 0]" and ?t2 = "tx s @ [5, 1, 0] @ socks5_connect_request tgt"
  let ?h = "[5, 0, z, hd (addr_bytes a)]"
  have bytes: "[5, 0, z] @ addr_bytes a @ w = ?h @ tl (addr_bytes a) @ w" for w
    by (cases a) auto
  have f0: "feeds (s\<lparr>tx := ?t1\<rparr>) ([5, 0] @ ?h @ tl (addr_bytes a) @ u16_to_be_bytes bp @ r)"
    using assms(3) unfolding bytes by simp
  obtain e1 where e1: "st_read_exact 2 (s\<lparr>tx := ?t1\<rparr>) = (Ok [5, 0], s\<lparr>rx := e1, tx := ?t1\<rparr>)"
    "feeds (s\<lparr>rx := e1, tx := ?t2\<rparr>) (?h @ tl (addr_bytes a) @ u16_to_be_bytes bp @ r)"
    using st_read_exact_feeds [OF f0] by (auto simp: numeral_2_eq_2 feeds_def stream_tx_rx)
  obtain e2 where e2: "st_read_exact 4 (s\<lparr>rx := e1, tx := ?t2\<rparr>) = (Ok ?h, s\<lparr>rx := e2, tx := ?t2\<rparr>)"
    "feeds (s\<lparr>rx := e2, tx := ?t2\<rparr>) (tl (addr_bytes a) @ u16_to_be_bytes bp @ r)"
    using st_read_exact_feeds [OF e1(2)] by (auto simp: eval_nat_numeral stream_tx_rx)
  obtain e3 where e3: "socks5_skip_address (hd (addr_bytes a)) (s\<lparr>rx := e2, tx := ?t2\<rparr>) =
      (Ok (), s\<lparr>rx := e3, tx := ?t2\<rparr>)" "feeds (s\<lparr>rx := e3, tx := ?t2\<rparr>) (u16_to_be_bytes bp @ r)"
    using socks5_skip_address_feeds [OF assms(2) e2(2)] by (auto simp: stream_tx_rx)
  obtain e4 where e4: "st_read_exact 2 (s\<lparr>rx := e3, tx := ?t2\<rparr>) =
      (Ok (u16_to_be_bytes bp), s\<lparr>rx := e4, tx := ?t2\<rparr>)" "feeds (s\<lparr>rx := e4, tx := ?t2\<rparr>) r"
    using st_read_exact_feeds [OF e3(2)] by (auto simp: numeral_2_eq_2 stream_tx_rx)
  show ?thesis
    using assms(1) e1 e2 e3 e4
    by (intro exI [of _ e4])
       (simp add: socks5_handshake_def io_bind_def cp_io_def io_map_err_def)
qed

section \<open>Printed addresses fit a SOCKS5 request\<close>

lemma length_show_ipv4: "length (show_ipv4 a b c d) \<le> 15"
proof -
  have "length (show_nat (unat (x :: u8))) \<le> 3" for x
    using unsigned_less [of x, where ?'a = nat]
    by (simp add: show_nat_radix_def length_digits_rev)
  from this [of a] this [of b] this [of c] this [of d] show ?thesis
    by (simp add: show_ipv4_def)
qed

lemma length_fmt_subslice: "length (fmt_subslice gs) \<le> 5 * length gs"
proof (induction gs rule: fmt_subslice.induct)
  case (2 g)
  then show ?case
    using unsigned_less [of g, where ?'a = nat]
    by (simp add: show_nat_radix_def order_trans [OF length_digits_rev [of _ _ 4]])
next
  case (3 g h gs)
  have "length (show_nat_radix 16 (unat g)) \<le> 4"
    using unsigned_less [of g, where ?'a = nat] by (simp add: show_nat_radix_def length_digits_rev)
  with 3 show ?case
    by simp
qed simp

lemma length_show_ipv6:
  assumes "length gs = 8"
  shows "length (show_ipv6 gs) \<le> 100"
proof -
  have t: "length (fmt_subslice (take n gs)) \<le> 40" for n
    using length_fmt_subslice [of "take n gs"] assms by simp
  have d: "length (fmt_subslice (drop n gs)) \<le> 40" for n
    using length_fmt_subslice [of "drop n gs"] assms by simp
  have a: "length (fmt_subslice gs) \<le> 40"
    using length_fmt_subslice [of gs] assms by simp
  obtain st ln where z: "zero_span 0 (0, 0) (0, 0) gs = (st, ln)"
    by fastforce
  show ?thesis
  proof (cases "take 5 gs = replicate 5 0 \<and> gs ! 5 = 65535")
    case True
    then show ?thesis
      unfolding show_ipv6_def by (simp add: order_trans [OF length_show_ipv4])
  next
    case False
    then have "show_ipv6 gs =
        (if 1 < ln then fmt_subslice (take st gs) @ ''::'' @ fmt_subslice (drop (st + ln) gs)
         else fmt_subslice gs)"
      unfolding show_ipv6_def z by (simp only: if_not_P if_False Let_def prod.case)
    then show ?thesis
      using t [of st] d [of "st + ln"] a by simp
  qed
qed

lemma length_show_ip_addr: "length (show_ip_addr ip) < 256"
proof (cases ip)
  case (V4 a b c d)
  then show ?thesis
    using length_show_ipv4 [of a b c d] by simp
next
  case (V6 a b c d e f g h)
  then show ?thesis
    using length_show_ipv6 [of "[a, b, c, d, e, f, g, h]"] by simp
qed

definition ascii :: "string \<Rightarrow> bool" where
  "ascii s \<longleftrightarrow> list_all (\<lambda>c. byte_val c < 128) s"

lemma ascii_simps [simp]: "ascii []" "ascii (c # s) \<longleftrightarrow> byte_val c < 128 \<and> ascii s"
  by (simp_all add: ascii_def)

lemma ascii_append [simp]: "ascii (s @ t) \<longleftrightarrow> ascii s \<and> ascii t"
  by (simp add: ascii_def)

lemma ascii_show_nat_radix: "2 \<le> radix \<Longrightarrow> radix \<le> 16 \<Longrightarrow> ascii (show_nat_radix radix n)"
proof -
  assume r: "2 \<le> radix" "radix \<le> 16"
  have "byte_val (from_digit d) < 128" if "d \<in> set (digits_rev radix n)" for d
    using digits_rev_bound [OF r(1) that] r(2) by (auto simp: byte_val_def from_digit_def)
  then show ?thesis
    by (auto simp: ascii_def show_nat_radix_def list_all_iff)
qed

lemma ascii_show_ipv4: "ascii (show_ipv4 a b c d)"
  by (simp add: show_ipv4_def ascii_show_nat_radix byte_val_def)

lemma ascii_fmt_subslice: "ascii (fmt_subslice gs)"
  by (induction gs rule: fmt_subslice.induct)
     (simp_all add: ascii_show_nat_radix byte_val_def)

lemma ascii_show_ipv6: "ascii (show_ipv6 gs)"
  unfolding show_ipv6_def
  by (simp only: Let_def split: if_split prod.split)
     (simp add: ascii_show_ipv4 ascii_fmt_subslice byte_val_def)

lemma ascii_show_ip_addr: "ascii (show_ip_addr ip)"
  by (cases ip) (simp_all add: ascii_show_ipv4 ascii_show_ipv6)

lemma addr_ok_show_ip_addr: "addr_ok (Domain (show_ip_addr ip))"
  using ascii_show_ip_addr [of ip] by (simp add: length_show_ip_addr ascii_def utf8_valid_ascii)

text \<open>C22. The two SOCKS5 implementations of the program understand each other: what the outbound side
  writes for a target makes the local SOCKS5 server, on any split of the bytes, open one channel to
  the printed address and port of that target, and the answer of that server makes the outbound
  handshake succeed with everything after the answer left in the stream.\<close>

theorem socks5_interoperates:
  assumes "wr srv = []" "tx srv = []" "feeds srv ([5, 1, 0] @ socks5_connect_request tgt @ up)"
    and "opener (show_ip_addr (sa_ip tgt)) (sa_port tgt) = Ok ()"
    and "handle_socks5_connection opener copy srv = (res, srv', opened)"
    and "wr cl = []" "tx cl = []" "feeds cl (tx srv' @ down)"
  shows "opened = [(show_ip_addr (sa_ip tgt), sa_port tgt)] \<and>
    (\<exists>evs. socks5_handshake tgt cl = (Ok (), cl\<lparr>rx := evs, tx := [5, 1, 0] @ socks5_connect_request tgt\<rparr>) \<and>
      feeds (cl\<lparr>rx := evs, tx := [5, 1, 0] @ socks5_connect_request tgt\<rparr>) down)"
proof -
  let ?addr = "Domain (show_ip_addr (sa_ip tgt))"
  have req: "[5, 1, 0] @ socks5_connect_request tgt @ up =
      5 # of_nat (length [0 :: u8]) # [0] @ 5 # 1 # 0 # addr_bytes ?addr @ u16_to_be_bytes (sa_port tgt) @ up"
    by (simp add: socks5_connect_request_def Let_def)
  obtain evs where "handle_socks5_connection opener copy srv =
     (map_err Socks5Io copy,
      srv\<lparr>rx := evs, tx := tx srv @ [5, 0] @ reply_bytes (reply_success Ipv4_UNSPECIFIED 0)\<rparr>,
      [(show_ip_addr (sa_ip tgt), sa_port tgt)])"
    using handle_socks5_request [OF assms(1) _ _ addr_ok_show_ip_addr assms(3) [unfolded req], of opener copy]
      assms(4) by (auto simp: target_of_def)
  then have srv': "opened = [(show_ip_addr (sa_ip tgt), sa_port tgt)]"
    "tx srv' = [5, 0] @ [5, 0, 0] @ addr_bytes Ipv4_UNSPECIFIED @ u16_to_be_bytes 0"
    using assms(2,5) by (auto simp: reply_bytes_def reply_success_def)
  have "feeds cl ([5, 0] @ [5, 0, 0] @ addr_bytes Ipv4_UNSPECIFIED @ u16_to_be_bytes 0 @ down)"
    using assms(8) srv'(2) by simp
  then show ?thesis
    using socks5_handshake_ok [OF assms(6), of Ipv4_UNSPECIFIED 0 0 down tgt] assms(7) srv'(1) by simp
qed

theorem socks5_interoperates_witness:
  "\<exists>evs. socks5_handshake (SocketAddr (V4 10 0 0 1) 443)
     \<lparr>rx = [Chunk [5, 0, 5, 0, 0, 1, 0], Chunk [0, 0, 0, 0, 0, 42]], tx = [], wr = [], shut = False\<rparr> =
     (Ok (), \<lparr>rx = evs, tx = [5, 1, 0, 5, 1, 0, 3, 8, 49, 48, 46, 48, 46, 48, 46, 49, 1, 187], wr = [], shut = False\<rparr>)"
proof -
  have req: "socks5_connect_request (SocketAddr (V4 10 0 0 1) 443) =
      [5, 1, 0, 3, 8, 49, 48, 46, 48, 46, 48, 46, 49, 1, 187]"
    by code_simp
  let ?srv = "\<lparr>rx = [Chunk [5, 1], Chunk [0, 5, 1, 0, 3, 8, 49, 48, 46, 48, 46, 48, 46, 49, 1, 187]],
      tx = [], wr = [], shut = False\<rparr>"
  have run: "handle_socks5_connection (\<lambda>_ _. Ok ()) (Ok ()) ?srv =
      (Ok (), \<lparr>rx = [], tx = [5, 0, 5, 0, 0, 1, 0, 0, 0, 0, 0, 0], wr = [], shut = False\<rparr>, [(''10.0.0.1'', 443)])"
    by code_simp
  show ?thesis
    using socks5_interoperates [where tgt = "SocketAddr (V4 10 0 0 1) 443" and srv = ?srv and up = "[]"
        and down = "[42]" and cl = "\<lparr>rx = [Chunk [5, 0, 5, 0, 0, 1, 0], Chunk [0, 0, 0, 0, 0, 42]],
          tx = [], wr = [], shut = False\<rparr>", OF _ _ _ _ run]
    by (auto simp: req feeds_def)
qed

section \<open>The HTTP handshake\<close>

lemma starts_with_append_right: "starts_with s p \<Longrightarrow> starts_with (s @ t) p"
  by (auto simp: starts_with_iff)

lemma str_contains_append: "str_contains s p \<Longrightarrow> str_contains (s @ t) p"
proof (induction s)
  case Nil
  then show ?case
    by (cases t) (auto simp: starts_with_def)
next
  case (Cons c s)
  then show ?case
    using starts_with_append_right [of "c # s" p t] by auto
qed

lemma has_header_end_append: "has_header_end h \<Longrightarrow> has_header_end (h @ x)"
  by (simp add: has_header_end_def of_bytes_def str_contains_append)

lemma read_http_response_pieces:
  assumes "rx s = map Chunk pieces @ Chunk bs # evs"
    and "list_all (\<lambda>p. p \<noteq> [] \<and> length p \<le> 1024) (pieces @ [bs])"
    and "\<not> has_header_end (response @ concat pieces)" "has_header_end (response @ concat pieces @ bs)"
  shows "read_http_response response s = (Ok (response @ concat pieces @ bs), s\<lparr>rx := evs\<rparr>)"
  using assms
proof (induction pieces arbitrary: response s)
  case Nil
  then show ?case
    by (subst read_http_response.simps) (simp add: st_read_def)
next
  case (Cons p pieces)
  have "\<not> has_header_end (response @ p)"
    using Cons.prems(3) has_header_end_append [of "response @ p" "concat pieces"] by auto
  then have "read_http_response response s =
      read_http_response (response @ p) (s\<lparr>rx := map Chunk pieces @ Chunk bs # evs\<rparr>)"
    using Cons.prems(1,2) by (subst read_http_response.simps) (simp add: st_read_def)
  then show ?case
    using Cons.IH [of "s\<lparr>rx := map Chunk pieces @ Chunk bs # evs\<rparr>" "response @ p"] Cons.prems by simp
qed

text \<open>C40. The HTTP CONNECT handshake loses data: on a connection that takes the request, whatever the proxy sends
  in the read that ends its response header, behind the header, is consumed with it. The header may come in any number of reads, each of at
  most the 1024 bytes of the buffer. The handshake succeeds exactly when the first line of what was read
  contains the text 200 anywhere, and the stream the caller then gets goes on with the next read, without
  the early data; otherwise the handshake fails with that line.\<close>

theorem http_connect_drops_early_data:
  assumes "connect proxy_addr = Ok s" "wr s = []" "rx s = map Chunk pieces @ Chunk (rest @ early) # evs"
    and "list_all (\<lambda>p. p \<noteq> [] \<and> length p \<le> 1024) (pieces @ [rest @ early])"
    and "\<not> has_header_end (concat pieces)" "has_header_end (concat pieces @ rest)"
  shows "connect_http_connect connect tgt proxy_addr =
    (let line = status_line (concat pieces @ rest @ early) in
     if str_contains line ''200'' then Ok (s\<lparr>rx := evs, tx := tx s @ as_bytes (http_connect_request tgt)\<rparr>)
     else Err (HttpConnectProxyRejected line))"
proof -
  let ?s1 = "s\<lparr>tx := tx s @ as_bytes (http_connect_request tgt)\<rparr>"
  have "read_http_response [] ?s1 = (Ok ([] @ concat pieces @ rest @ early), ?s1\<lparr>rx := evs\<rparr>)"
    using assms has_header_end_append [of "concat pieces @ rest" early] by (intro read_http_response_pieces) simp_all
  then show ?thesis
    using assms(1,2) by (simp add: connect_http_connect_def cp_io_def io_map_err_def stream_tx_rx Let_def)
qed

definition example_proxy :: stream where
  "example_proxy =
     \<lparr>rx = [Chunk (as_bytes (''HTTP/1.1 200 OK'' @ [CHR 13])), Chunk (as_bytes ([CHR 10] @ crlf) @ [1, 2, 3]), Chunk [4]],
      tx = [], wr = [], shut = False\<rparr>"

theorem http_connect_drops_early_data_witness:
  "connect_http_connect (\<lambda>_. Ok example_proxy) (SocketAddr (V4 10 0 0 1) 80) (SocketAddr (V4 127 0 0 1) 3128) =
   Ok \<lparr>rx = [Chunk [4]], tx = as_bytes (http_connect_request (SocketAddr (V4 10 0 0 1) 80)), wr = [], shut = False\<rparr>"
proof -
  let ?pieces = "[as_bytes (''HTTP/1.1 200 OK'' @ [CHR 13])]" and ?rest = "as_bytes ([CHR 10] @ crlf)"
  have rx: "rx example_proxy = map Chunk ?pieces @ Chunk (?rest @ [1, 2, 3]) # [Chunk [4]]"
    by (simp add: example_proxy_def)
  have ok: "list_all (\<lambda>p. p \<noteq> [] \<and> length p \<le> 1024) (?pieces @ [?rest @ [1, 2, 3]])"
    "\<not> has_header_end (concat ?pieces)" "has_header_end (concat ?pieces @ ?rest)"
    "str_contains (status_line (concat ?pieces @ ?rest @ [1, 2, 3])) ''200''"
    by code_simp+
  show ?thesis
    using http_connect_drops_early_data [of "\<lambda>_. Ok example_proxy" _ example_proxy, OF refl _ rx ok(1-3)] ok(4)
    by (simp add: Let_def example_proxy_def)
qed

end
