(* ===== verification/Handler_Contract.thy ===== *)
theory Handler_Contract
  imports Rate_Limit Dynamic_Config Control_Channel Channel_Proxy
begin

text \<open>
  What the three SSH handlers of the program share (\<open>ServerHandler\<close>, \<open>SshHandler\<close> and
  \<open>NapiServerHandler\<close>): the answers to the SSH library, the task that serves a forwarded channel, and
  the contract \<open>ssh_handler\<close> of their constructor, their destructor and their public key
  authentication. The contract's lemmas say that a pool of such handlers is counted exactly by the
  connection limiter, that a connection is locked out once it has used up its failures, and that it
  only ever speaks for an identity that was resolved from a key it presented.
\<close>

section \<open>Answers\<close>

datatype auth = Accept | Reject

text \<open>The callbacks the handlers refuse: channels of other kinds, requests on a channel, and requests
  of the connection.\<close>

datatype other_channel = OpenSession | OpenX11 | OpenForwardedTcpip string u32

datatype channel_request =
  ExecRequest bytes | ShellRequest | SubsystemRequest string | PtyRequest string
| EnvRequest string string | X11Request

datatype connection_request =
  AgentRequest | TcpipForward string u32 | CancelTcpipForward string u32
| StreamlocalForward string | Signal string

datatype request_reply = Refuse | ChannelFailure | Ignore

section \<open>Forwarding task\<close>

text \<open>
  The task a handler spawns for an allowed channel: the requested host and port, and the proxy. The
  destination is parsed as a socket address, and otherwise looked up; \<open>lookup\<close> is
  \<open>tokio::net::lookup_host\<close>.
\<close>

record forward_task =
  task_host :: string
  task_port :: u32
  task_proxy :: proxy_config

type_synonym resolver = "string \<Rightarrow> u16 \<Rightarrow> socket_addr list option"

definition resolve_target :: "resolver \<Rightarrow> string \<Rightarrow> u32 \<Rightarrow> socket_addr option" where
  "resolve_target lookup host port =
     (case parse_socket_addr (host @ '':'' @ show_nat (unat port)) of
        Some addr \<Rightarrow> Some addr
      | None \<Rightarrow>
          (case lookup host (ucast port) of
             Some (addr # _) \<Rightarrow> Some addr
           | _ \<Rightarrow> None))"

definition run_forward_task :: "resolver \<Rightarrow> connector \<Rightarrow> stream \<Rightarrow> forward_task \<Rightarrow> stream \<times> stream option" where
  "run_forward_task lookup connect channel t =
     (case resolve_target lookup (task_host t) (task_port t) of
        Some tgt \<Rightarrow> proxy_channel connect channel tgt (task_proxy t)
      | None \<Rightarrow> (channel, None))"

lemma resolve_target_port:
  assumes "resolve_target lookup host port = Some addr"
    and "\<And>h p addrs a. lookup h p = Some addrs \<Longrightarrow> a \<in> set addrs \<Longrightarrow> sa_port a = p"
  shows "sa_port addr = ucast port"
proof (cases "parse_socket_addr (host @ '':'' @ show_nat (unat port))")
  case None
  then have "(case lookup host (ucast port) of Some (addr # _) \<Rightarrow> Some addr | _ \<Rightarrow> None) = Some addr"
    using assms(1) by (simp only: resolve_target_def option.case)
  then obtain addrs where "lookup host (ucast port) = Some (addr # addrs)"
    by (cases "lookup host (ucast port)") (auto split: list.splits)
  then show ?thesis
    by (rule assms(2)) simp
next
  case (Some a)
  then have "a = addr"
    using assms(1) by (simp only: resolve_target_def option.case option.inject)
  then have "sa_port addr = of_nat (unat port)"
    using Some parse_socket_addr_port by blast
  then show ?thesis
    by simp
qed

section \<open>The contract\<close>

text \<open>A sequence of authentication attempts on one connection: the identity provider may change between
  two of them, when the configuration is reloaded.\<close>

primrec run_auths ::
  "((string \<Rightarrow> identity option) \<Rightarrow> string \<Rightarrow> 'h \<Rightarrow> auth \<times> 'h) \<Rightarrow>
   ((string \<Rightarrow> identity option) \<times> string) list \<Rightarrow> 'h \<Rightarrow> auth list \<times> 'h" where
  "run_auths f [] h = ([], h)"
| "run_auths f (a # as) h =
     (let (r, h1) = f (fst a) (snd a) h; (rs, h2) = run_auths f as h1 in (r # rs, h2))"

locale ssh_handler =
  fixes new_handler :: "socket_addr option \<Rightarrow> nat \<Rightarrow> connection_rate_limiter \<Rightarrow> 'h \<times> connection_rate_limiter"
    and drop_handler :: "'h \<Rightarrow> connection_rate_limiter \<Rightarrow> connection_rate_limiter"
    and authenticate :: "(string \<Rightarrow> identity option) \<Rightarrow> string \<Rightarrow> 'h \<Rightarrow> auth \<times> 'h"
    and peer :: "'h \<Rightarrow> socket_addr option"
    and allowed :: "'h \<Rightarrow> bool"
    and attempts :: "'h \<Rightarrow> auth_attempt_limiter"
    and ident :: "'h \<Rightarrow> identity option"
  assumes new_admits: "new_handler addr n l = (h, l') \<Longrightarrow>
      peer h = addr \<and> crl.admit (map_option sa_ip addr) l = (allowed h, l') \<and>
      attempts h = auth_attempt_limiter_new n \<and> ident h = None"
    and drop_releases: "drop_handler h l = crl.release (map_option sa_ip (peer h)) (allowed h) l"
    and auth_locked: "\<not> check_attempts (attempts h) \<Longrightarrow> authenticate prov fp h = (Reject, h)"
    and auth_accepts: "check_attempts (attempts h) \<Longrightarrow> prov fp = Some i \<Longrightarrow>
      authenticate prov fp h = (r, h') \<Longrightarrow> r = Accept \<and> ident h' = Some i \<and> attempts h' = attempts h"
    and auth_rejects: "check_attempts (attempts h) \<Longrightarrow> prov fp = None \<Longrightarrow>
      authenticate prov fp h = (r, h') \<Longrightarrow> r = Reject \<and> ident h' = ident h \<and> attempts h' = on_failure (attempts h)"
    and auth_keeps: "authenticate prov fp h = (r, h') \<Longrightarrow> peer h' = peer h \<and> allowed h' = allowed h"
begin

definition view :: "'h \<Rightarrow> ip_addr option \<times> bool" where
  "view h = (map_option sa_ip (peer h), allowed h)"

definition counted :: "connection_rate_limiter \<Rightarrow> 'h list \<Rightarrow> bool" where
  "counted l hs \<longleftrightarrow> crl.tracks l (map view hs)"

lemma counted_new:
  assumes "counted l hs" "new_handler addr n l = (h, l')"
  shows "counted l' (h # hs) \<and> max_per_ip l' = max_per_ip l"
  using assms new_admits [OF assms(2)] crl.tracks_admit by (auto simp: counted_def view_def)

lemma counted_new_refused:
  assumes "counted l hs" "new_handler addr n l = (h, l')" "\<not> allowed h"
  shows "l' = l"
  using assms new_admits [OF assms(2)] crl.tracks_admit_reject by (auto simp: counted_def)

lemma counted_drop:
  assumes "counted l (hs1 @ h # hs2)"
  shows "counted (drop_handler h l) (hs1 @ hs2) \<and> max_per_ip (drop_handler h l) = max_per_ip l"
  using assms crl.tracks_release by (auto simp: counted_def view_def drop_releases)

lemma counted_update:
  "counted l (hs1 @ h # hs2) \<Longrightarrow> view h' = view h \<Longrightarrow> counted l (hs1 @ h' # hs2)"
  by (simp add: counted_def)

lemma counted_auth:
  "counted l (hs1 @ h # hs2) \<Longrightarrow> authenticate prov fp h = (r, h') \<Longrightarrow> counted l (hs1 @ h' # hs2)"
  by (rule counted_update, assumption) (simp add: view_def auth_keeps)

lemma authenticate_cases:
  assumes "authenticate prov fp h = (r, h')"
  shows "(\<not> check_attempts (attempts h) \<and> r = Reject \<and> h' = h) \<or>
    (check_attempts (attempts h) \<and> (\<exists>i. prov fp = Some i \<and> r = Accept \<and> ident h' = Some i \<and> attempts h' = attempts h)) \<or>
    (check_attempts (attempts h) \<and> prov fp = None \<and> r = Reject \<and> ident h' = ident h \<and>
     attempts h' = on_failure (attempts h))"
proof (cases "check_attempts (attempts h)")
  case True
  show ?thesis
  proof (cases "prov fp")
    case None
    then show ?thesis
      using True auth_rejects [OF True None assms] by simp
  next
    case (Some i)
    then show ?thesis
      using True auth_accepts [OF True Some assms] by simp
  qed
next
  case False
  then show ?thesis
    using auth_locked [OF False] assms by simp
qed

lemma auths_ident:
  assumes "run_auths authenticate as h = (rs, h')"
  shows "ident h' = ident h \<or> (\<exists>a \<in> set as. fst a (snd a) = ident h' \<and> ident h' \<noteq> None)"
  using assms
proof (induction as arbitrary: h rs)
  case (Cons a as)
  obtain r h1 where h1: "authenticate (fst a) (snd a) h = (r, h1)"
    by fastforce
  obtain rs' where "run_auths authenticate as h1 = (rs', h')"
    using Cons.prems h1 by (auto split: prod.splits)
  note IH = Cons.IH [OF this]
  then show ?case
    using authenticate_cases [OF h1] by auto
qed simp

text \<open>The failures counted never exceed the maximum, and the counter is the number of rejections that
  it let through.\<close>

lemma auths_failures:
  assumes "run_auths authenticate as h = (rs, h')" "0 < max_attempts (attempts h)" "failures (attempts h) \<le> max_attempts (attempts h)"
  shows "failures (attempts h') \<le> max_attempts (attempts h') \<and> max_attempts (attempts h') = max_attempts (attempts h) \<and>
    failures (attempts h') = min (max_attempts (attempts h)) (failures (attempts h) + count_list rs Reject)"
  using assms
proof (induction as arbitrary: h rs)
  case (Cons a as)
  obtain r h1 where h1: "authenticate (fst a) (snd a) h = (r, h1)"
    by fastforce
  obtain rs' where rs': "run_auths authenticate as h1 = (rs', h')" "rs = r # rs'"
    using Cons.prems(1) h1 by (auto split: prod.splits)
  have step: "max_attempts (attempts h1) = max_attempts (attempts h)"
    "failures (attempts h1) \<le> max_attempts (attempts h1)"
    "failures (attempts h1) = min (max_attempts (attempts h)) (failures (attempts h) + count_list [r] Reject)"
    using authenticate_cases [OF h1] Cons.prems(2,3) by (auto simp: check_attempts_def)
  show ?case
    using Cons.IH [OF rs'(1)] Cons.prems(2) step rs'(2) by auto
qed simp

lemma locked_out:
  assumes "0 < max_attempts (attempts h)" "max_attempts (attempts h) \<le> failures (attempts h)"
  shows "run_auths authenticate as h = (replicate (length as) Reject, h)"
proof -
  have "\<not> check_attempts (attempts h)"
    using assms by (simp add: check_attempts_def)
  then show ?thesis
    by (induction as) (simp_all add: auth_locked)
qed

end

end
