(* ===== verification/Ssh_Interface.thy ===== *)
theory Ssh_Interface
  imports Handler_Contract Raw_Framing
begin

text \<open>
  \<open>interface/ssh.rs\<close>: SSH as an interface of the call protocol. \<open>SshHandler\<close> is a second handler of SSH
  connections, like the one of \<open>Server_Handler\<close> but with a bridge: the first channel to the control
  destination is connected to the queues of the session, and a bridge task carries frames from the
  channel to the event queue and from the envelope queue to the channel. A queue of \<open>tokio::sync::mpsc\<close>
  is named by a value \<open>'q\<close>.
\<close>

section \<open>The handler\<close>

record ('c, 'q) ssh_handler_state =
  ssh_outbound_proxy :: "proxy_config option"
  ssh_remote_addr :: "socket_addr option"
  ssh_transport :: transport_kind
  ssh_connection_allowed :: bool
  ssh_auth_limiter :: auth_attempt_limiter
  ssh_identity :: "identity option"
  ssh_router :: "'c control_channel_router"
  bridge_event_tx :: "'q option"
  bridge_envelope_rx :: "'q option"

definition ssh_handler_new ::
  "proxy_config option \<Rightarrow> transport_kind \<Rightarrow> socket_addr option \<Rightarrow> nat \<Rightarrow> connection_rate_limiter \<Rightarrow>
   ('c, 'q) ssh_handler_state \<times> connection_rate_limiter" where
  "ssh_handler_new proxy transport addr n l =
     (let (ok, l') =
        (case addr of
           Some a \<Rightarrow>
             if check_connection l (sa_ip a) then (True, on_connect (sa_ip a) l) else (False, l)
         | None \<Rightarrow> (True, l)) in
      (\<lparr>ssh_outbound_proxy = proxy, ssh_remote_addr = addr, ssh_transport = transport,
        ssh_connection_allowed = ok, ssh_auth_limiter = auth_attempt_limiter_new n, ssh_identity = None,
        ssh_router = router_without_handler, bridge_event_tx = None, bridge_envelope_rx = None\<rparr>, l'))"

definition with_control_channel_router ::
  "'c control_channel_router \<Rightarrow> ('c, 'q) ssh_handler_state \<Rightarrow> ('c, 'q) ssh_handler_state" where
  "with_control_channel_router r h = h\<lparr>ssh_router := r\<rparr>"

definition with_bridge_channels :: "'q \<Rightarrow> 'q \<Rightarrow> ('c, 'q) ssh_handler_state \<Rightarrow> ('c, 'q) ssh_handler_state" where
  "with_bridge_channels event_tx envelope_rx h =
     h\<lparr>bridge_event_tx := Some event_tx, bridge_envelope_rx := Some envelope_rx\<rparr>"

definition has_control_channel_bridge :: "('c, 'q) ssh_handler_state \<Rightarrow> bool" where
  "has_control_channel_bridge h \<longleftrightarrow> bridge_event_tx h \<noteq> None \<and> bridge_envelope_rx h \<noteq> None"

definition ssh_handler_drop :: "('c, 'q) ssh_handler_state \<Rightarrow> connection_rate_limiter \<Rightarrow> connection_rate_limiter" where
  "ssh_handler_drop h l =
     (case ssh_remote_addr h of
        Some a \<Rightarrow> if ssh_connection_allowed h then on_disconnect (sa_ip a) l else l
      | None \<Rightarrow> l)"

definition ssh_auth_publickey ::
  "(string \<Rightarrow> identity option) \<Rightarrow> string \<Rightarrow> ('c, 'q) ssh_handler_state \<Rightarrow> auth \<times> ('c, 'q) ssh_handler_state" where
  "ssh_auth_publickey prov fp h =
     (if \<not> check_attempts (ssh_auth_limiter h) then (Reject, h)
      else case prov fp of
             Some i \<Rightarrow> (Accept, h\<lparr>ssh_identity := Some i\<rparr>)
           | None \<Rightarrow> (Reject, h\<lparr>ssh_auth_limiter := on_failure (ssh_auth_limiter h)\<rparr>))"

text \<open>The task spawned for a channel: the bridge with its two queues and the identity at that moment, the
  control handler of the application, or a forwarding.\<close>

datatype ('c, 'q) ssh_channel_task =
  BridgeTask 'q 'q "identity option"
| ControlTask 'c
| ForwardTask forward_task

definition ssh_channel_open_direct_tcpip ::
  "('net \<Rightarrow> ip_addr \<Rightarrow> bool) \<Rightarrow> ('key, 'net) dynamic_config \<Rightarrow> string \<Rightarrow> u32 \<Rightarrow> ('c, 'q) ssh_handler_state \<Rightarrow>
   bool \<times> ('c, 'q) ssh_channel_task option \<times> ('c, 'q) ssh_handler_state" where
  "ssh_channel_open_direct_tcpip contains cfg host port h =
     (if starts_with host ALKNET_PREFIX then
        if host = ALKNET_CONTROL_DESTINATION \<and> has_control_channel_bridge h then
          (True, Some (BridgeTask (the (bridge_event_tx h)) (the (bridge_envelope_rx h)) (ssh_identity h)),
           h\<lparr>bridge_event_tx := None, bridge_envelope_rx := None\<rparr>)
        else if has_handler (ssh_router h) then
          (let (c, r) = take_handler (ssh_router h) in
           (True, map_option ControlTask c, h\<lparr>ssh_router := r\<rparr>))
        else (False, None, h)
      else
        let i = (case ssh_identity h of Some i \<Rightarrow> i | None \<Rightarrow> anonymous_identity) in
        if \<not> policy_check contains (forwarding cfg) host (ucast port) i (ssh_transport h) then (False, None, h)
        else (True, Some (ForwardTask \<lparr>task_host = host, task_port = port,
               task_proxy = (case ssh_outbound_proxy h of Some p \<Rightarrow> p | None \<Rightarrow> \<lparr>proxy_mode_of = Direct\<rparr>)\<rparr>), h))"

fun ssh_channel_open_other :: "other_channel \<Rightarrow> ('c, 'q) ssh_handler_state \<Rightarrow> bool" where
  "ssh_channel_open_other OpenSession h = False"
| "ssh_channel_open_other OpenX11 h = False"
| "ssh_channel_open_other (OpenForwardedTcpip host port) h = False"

fun ssh_channel_request :: "channel_request \<Rightarrow> ('c, 'q) ssh_handler_state \<Rightarrow> request_reply" where
  "ssh_channel_request (ExecRequest data) h = ChannelFailure"
| "ssh_channel_request ShellRequest h = ChannelFailure"
| "ssh_channel_request (SubsystemRequest name) h = ChannelFailure"
| "ssh_channel_request (PtyRequest term) h = ChannelFailure"
| "ssh_channel_request (EnvRequest name val) h = ChannelFailure"
| "ssh_channel_request X11Request h = ChannelFailure"

fun ssh_connection_request :: "connection_request \<Rightarrow> ('c, 'q) ssh_handler_state \<Rightarrow> request_reply" where
  "ssh_connection_request AgentRequest h = Refuse"
| "ssh_connection_request (TcpipForward addr port) h = Refuse"
| "ssh_connection_request (CancelTcpipForward addr port) h = Refuse"
| "ssh_connection_request (StreamlocalForward path) h = Refuse"
| "ssh_connection_request (Signal sig) h = Ignore"

section \<open>The interface\<close>

record ssh_interface =
  ifc_outbound_proxy :: "proxy_config option"
  ifc_max_auth_attempts :: nat

definition ssh_interface_new :: ssh_interface where
  "ssh_interface_new = \<lparr>ifc_outbound_proxy = None, ifc_max_auth_attempts = 10\<rparr>"

definition ssh_interface_limiter :: connection_rate_limiter where
  "ssh_interface_limiter = connection_rate_limiter_new 0"

definition with_outbound_proxy :: "proxy_config option \<Rightarrow> ssh_interface \<Rightarrow> ssh_interface" where
  "with_outbound_proxy proxy ifc = ifc\<lparr>ifc_outbound_proxy := proxy\<rparr>"

definition with_max_auth_attempts :: "nat \<Rightarrow> ssh_interface \<Rightarrow> ssh_interface" where
  "with_max_auth_attempts n ifc = ifc\<lparr>ifc_max_auth_attempts := n\<rparr>"

text \<open>The handler for a new stream, with the ends of two new queues; the other ends make the session.\<close>

definition accept_inner ::
  "ssh_interface \<Rightarrow> 'q \<Rightarrow> 'q \<Rightarrow> socket_addr option \<Rightarrow> transport_kind \<Rightarrow> connection_rate_limiter \<Rightarrow>
   ('c, 'q) ssh_handler_state \<times> connection_rate_limiter" where
  "accept_inner ifc event_q envelope_q addr transport l =
     (let (h, l') = ssh_handler_new (ifc_outbound_proxy ifc) transport addr (ifc_max_auth_attempts ifc) l in
      (with_bridge_channels event_q envelope_q h, l'))"

definition ssh_accept ::
  "ssh_interface \<Rightarrow> 'q \<Rightarrow> 'q \<Rightarrow> ('prov, 'key, 'net, 'sk) stream_interface_config \<Rightarrow> connection_rate_limiter \<Rightarrow>
   (string + ('c, 'q) ssh_handler_state) \<times> connection_rate_limiter" where
  "ssh_accept ifc event_q envelope_q config l =
     (case config of
        SshConfig c \<Rightarrow> (let (h, l') = accept_inner ifc event_q envelope_q None Tcp l in (Ok h, l'))
      | RawFramingConfig _ \<Rightarrow> (Err ''SshInterface received RawFramingConfig'', l))"

text \<open>The session holds the other ends of the queues: the events that have arrived, whether the bridge can
  send more, the envelopes that were sent, and whether the bridge still takes them. \<open>None\<close> is a receive
  that waits.\<close>

record ssh_session =
  ses_events :: "interface_event list"
  ses_event_senders :: bool
  ses_envelopes :: "event_envelope list"
  ses_envelope_receiver :: bool

definition ssh_recv :: "ssh_session \<Rightarrow> (interface_event option \<times> ssh_session) option" where
  "ssh_recv s =
     (case ses_events s of
        e # es \<Rightarrow> Some (Some e, s\<lparr>ses_events := es\<rparr>)
      | [] \<Rightarrow> if ses_event_senders s then None else Some (None, s))"

definition ssh_send :: "event_envelope \<Rightarrow> ssh_session \<Rightarrow> (string + unit) \<times> ssh_session" where
  "ssh_send e s =
     (if ses_envelope_receiver s then (Ok (), s\<lparr>ses_envelopes := ses_envelopes s @ [e]\<rparr>)
      else (Err ''control channel bridge closed'', s))"

section \<open>The bridge\<close>

text \<open>
  Each round of the loop waits for a frame and for an envelope. A round is the branch that won:
  \<open>FrameReady\<close> is a completed \<open>read_frame\<close>, \<open>EnvelopeReady\<close> a value (or the end) of the envelope queue,
  and \<open>FramePolled\<close> says that the frame branch took a chunk into its buffer before the other branch
  won, whereupon the pending \<open>read_frame\<close> is dropped. The result says whether the loop goes on.
  \<open>open_events\<close> says whether the receiver of the event queue still exists.
\<close>

datatype bridge_choice = FrameReady | EnvelopeReady | FramePolled

record bridge =
  br_buf :: bytes
  br_stream :: stream
  br_events :: "interface_event list"
  br_envelopes :: "event_envelope list"

definition tag_event :: "identity option \<Rightarrow> event_envelope \<Rightarrow> interface_event" where
  "tag_event ident e =
     (case ident of Some i \<Rightarrow> interface_event_with_identity e i | None \<Rightarrow> interface_event_new e)"

fun bridge_round ::
  "('je \<Rightarrow> string) \<Rightarrow> (bytes \<Rightarrow> 'je + event_envelope) \<Rightarrow> (event_envelope \<Rightarrow> bytes) \<Rightarrow> bool \<Rightarrow> identity option \<Rightarrow>
   bridge_choice \<Rightarrow> bridge \<Rightarrow> bool \<times> bridge" where
  "bridge_round disp de ser open_events ident FrameReady b =
     (let (res, buf, evs) = framed_reader_rd disp de (br_buf b) (rx (br_stream b));
          b' = b\<lparr>br_buf := buf, br_stream := (br_stream b)\<lparr>rx := evs\<rparr>\<rparr> in
      case res of
        Ok (Some e) \<Rightarrow>
          if open_events then (True, b'\<lparr>br_events := br_events b @ [tag_event ident e]\<rparr>) else (False, b')
      | Ok None \<Rightarrow> (False, b')
      | Err _ \<Rightarrow> (False, b'))"
| "bridge_round disp de ser open_events ident EnvelopeReady b =
     (case br_envelopes b of
        [] \<Rightarrow> (False, b)
      | e # q \<Rightarrow>
          (case write_frame ser e (br_stream b) of
             (Ok _, s) \<Rightarrow> (True, b\<lparr>br_stream := s, br_envelopes := q\<rparr>)
           | (Err _, s) \<Rightarrow> (False, b\<lparr>br_stream := s, br_envelopes := q\<rparr>)))"
| "bridge_round disp de ser open_events ident FramePolled b =
     (case read_some 4096 (rx (br_stream b)) of
        (Ok bs, evs) \<Rightarrow> (True, b\<lparr>br_buf := br_buf b @ bs, br_stream := (br_stream b)\<lparr>rx := evs\<rparr>\<rparr>)
      | (Err _, evs) \<Rightarrow> (True, b))"

fun run_bridge ::
  "('je \<Rightarrow> string) \<Rightarrow> (bytes \<Rightarrow> 'je + event_envelope) \<Rightarrow> (event_envelope \<Rightarrow> bytes) \<Rightarrow> bool \<Rightarrow> identity option \<Rightarrow>
   bridge_choice list \<Rightarrow> bridge \<Rightarrow> bool \<times> bridge" where
  "run_bridge disp de ser open_events ident [] b = (True, b)"
| "run_bridge disp de ser open_events ident (r # rs) b =
     (case bridge_round disp de ser open_events ident r b of
        (True, b') \<Rightarrow> run_bridge disp de ser open_events ident rs b'
      | (False, b') \<Rightarrow> (False, b'))"

definition bridge_new :: "stream \<Rightarrow> event_envelope list \<Rightarrow> bridge" where
  "bridge_new s q = \<lparr>br_buf = [], br_stream = s, br_events = [], br_envelopes = q\<rparr>"

text \<open>\<open>ControlChannelBridge\<close>: it makes both queues itself and drops their other ends when it returns.\<close>

definition control_channel_bridge ::
  "('je \<Rightarrow> string) \<Rightarrow> (bytes \<Rightarrow> 'je + event_envelope) \<Rightarrow> (event_envelope \<Rightarrow> bytes) \<Rightarrow> identity option \<Rightarrow>
   bridge_choice list \<Rightarrow> stream \<Rightarrow> bool \<times> bridge" where
  "control_channel_bridge disp de ser ident rs s = run_bridge disp de ser False ident rs (bridge_new s [])"

section \<open>The contract holds\<close>

interpretation ssh: ssh_handler "ssh_handler_new proxy transport" ssh_handler_drop ssh_auth_publickey
  ssh_remote_addr ssh_connection_allowed ssh_auth_limiter ssh_identity for proxy transport
proof unfold_locales
  fix addr n l h l'
  assume "ssh_handler_new proxy transport addr n l = (h, l')"
  then show "ssh_remote_addr h = addr \<and> crl.admit (map_option sa_ip addr) l = (ssh_connection_allowed h, l') \<and>
      ssh_auth_limiter h = auth_attempt_limiter_new n \<and> ssh_identity h = None"
    by (auto simp: ssh_handler_new_def crl.admit_def split: option.splits if_splits)
next
  fix h l
  show "ssh_handler_drop h l =
      crl.release (map_option sa_ip (ssh_remote_addr h)) (ssh_connection_allowed h) l"
    by (simp add: ssh_handler_drop_def crl.release_def split: option.split)
qed (auto simp: ssh_auth_publickey_def split: if_splits option.splits)

section \<open>What the bridge carries\<close>

lemma read_some_chunks:
  assumes "all_chunks evs" "0 < n"
  obtains bs evs' where "read_some n evs = (Ok bs, evs')" "all_chunks evs'" "chunk_bytes evs = bs @ chunk_bytes evs'"
  using assms read_some_all_chunks [OF assms(1), of n] by (cases "evs = []") auto

lemma run_bridge_exact:
  assumes "list_all (frame_ok ser de) es" "all_chunks (rx (br_stream b))" "wr (br_stream b) = []"
    and "br_buf b @ chunk_bytes (rx (br_stream b)) = concat (map (encode ser) es)"
    and "count_list rs FrameReady \<le> length es" "count_list rs EnvelopeReady \<le> length (br_envelopes b)"
  shows "\<exists>b'. run_bridge disp de ser True ident rs b = (True, b') \<and>
    br_events b' = br_events b @ map (tag_event ident) (take (count_list rs FrameReady) es) \<and>
    tx (br_stream b') = tx (br_stream b) @
      concat (map (encode ser) (take (count_list rs EnvelopeReady) (br_envelopes b))) \<and>
    br_envelopes b' = drop (count_list rs EnvelopeReady) (br_envelopes b)"
  using assms
proof (induction rs arbitrary: b es)
  case (Cons r rs)
  show ?case
  proof (cases r)
    case FrameReady
    then obtain e es' where es: "es = e # es'"
      using Cons.prems(5) by (cases es) auto
    obtain buf evs where rd: "framed_reader_rd disp de (br_buf b) (rx (br_stream b)) = (Ok (Some e), buf, evs)"
      "all_chunks evs" "buf @ chunk_bytes evs = concat (map (encode ser) es')"
      using fr.read_one_frame [of ser de e "rx (br_stream b)" "br_buf b" "concat (map (encode ser) es')" disp]
        Cons.prems(1,2,4) es by auto
    let ?b = "b\<lparr>br_buf := buf, br_stream := (br_stream b)\<lparr>rx := evs\<rparr>, br_events := br_events b @ [tag_event ident e]\<rparr>"
    have step: "bridge_round disp de ser True ident FrameReady b = (True, ?b)"
      using rd(1) by simp
    show ?thesis
      using Cons.IH [of es' ?b] Cons.prems rd(2,3) es FrameReady step by simp
  next
    case EnvelopeReady
    then obtain e q where q: "br_envelopes b = e # q"
      using Cons.prems(6) by (cases "br_envelopes b") auto
    let ?b = "b\<lparr>br_stream := (br_stream b)\<lparr>tx := tx (br_stream b) @ encode ser e\<rparr>, br_envelopes := q\<rparr>"
    have step: "bridge_round disp de ser True ident EnvelopeReady b = (True, ?b)"
      using q Cons.prems(3) by (simp add: write_frame_def)
    show ?thesis
      using Cons.IH [of es ?b] Cons.prems q EnvelopeReady step by simp
  next
    case FramePolled
    obtain bs evs where rd: "read_some 4096 (rx (br_stream b)) = (Ok bs, evs)" "all_chunks evs"
      "chunk_bytes (rx (br_stream b)) = bs @ chunk_bytes evs"
      by (rule read_some_chunks [OF Cons.prems(2), of 4096]) simp_all
    let ?b = "b\<lparr>br_buf := br_buf b @ bs, br_stream := (br_stream b)\<lparr>rx := evs\<rparr>\<rparr>"
    have step: "bridge_round disp de ser True ident FramePolled b = (True, ?b)"
      using rd(1) by simp
    show ?thesis
      using Cons.IH [of es ?b] Cons.prems rd(2,3) FramePolled step by simp
  qed
qed simp

section \<open>Properties\<close>

text \<open>C9. The bridge of an SSH session carries every frame once and in order, in both directions: when the
  peer sends frames, split into chunks in any way, and the session queues envelopes, then in every
  interleaving of the two branches of the loop, dropped pending reads included, the session receives
  exactly the first frames, as many as reads completed, each with the identity of the connection, and
  the peer gets exactly the encodings of the first envelopes.\<close>

theorem ssh_bridge_relays:
  assumes "list_all (frame_ok ser de) es" "feeds s (concat (map (encode ser) es))" "wr s = []"
    and "count_list rs FrameReady \<le> length es" "count_list rs EnvelopeReady \<le> length q"
  shows "\<exists>b. run_bridge disp de ser True ident rs (bridge_new s q) = (True, b) \<and>
    br_events b = map (tag_event ident) (take (count_list rs FrameReady) es) \<and>
    tx (br_stream b) = tx s @ concat (map (encode ser) (take (count_list rs EnvelopeReady) q)) \<and>
    br_envelopes b = drop (count_list rs EnvelopeReady) q"
  using run_bridge_exact [OF assms(1), of "bridge_new s q" rs disp ident] assms
  by (simp add: bridge_new_def feeds_def)

theorem ssh_bridge_relays_witness:
  "\<exists>b. run_bridge id text_de text_ser True None [FramePolled, EnvelopeReady, FrameReady]
       (bridge_new \<lparr>rx = [Chunk [0, 0, 0], Chunk [2, 97, 98]], tx = [], wr = [], shut = False\<rparr>
         [call_requested ''1'' (JString ''c'')]) = (True, b) \<and>
     br_events b = [interface_event_new (call_requested ''1'' (JString ''ab''))] \<and> tx (br_stream b) = [0, 0, 0, 1, 99]"
proof -
  let ?s = "\<lparr>rx = [Chunk [0, 0, 0], Chunk [2, 97, 98]], tx = [], wr = [], shut = False\<rparr>"
  let ?es = "[call_requested ''1'' (JString ''ab'')]"
  let ?q = "[call_requested ''1'' (JString ''c'')]"
  have "list_all (frame_ok text_ser text_de) ?es"
    by (simp add: text_codec_ok)
  moreover have "all_chunks (rx ?s)" "chunk_bytes (rx ?s) = concat (map (encode text_ser) ?es)"
    "encode text_ser (call_requested ''1'' (JString ''c'')) = [0, 0, 0, 1, 99]"
    by code_simp+
  ultimately show ?thesis
    using ssh_bridge_relays [of text_ser text_de ?es ?s "[FramePolled, EnvelopeReady, FrameReady]" ?q id None]
    by (simp add: feeds_def tag_event_def del: run_bridge.simps) blast
qed

section \<open>What the interface does not do\<close>

text \<open>A stream that arrives through the interface has no peer address: it is neither limited nor counted,
  whatever the limiter, and it is treated as TCP.\<close>

lemma ssh_accept_not_limited:
  "\<exists>h. ssh_accept ifc event_q envelope_q (SshConfig c) l = (Ok h, l) \<and> ssh_connection_allowed h \<and>
     ssh_transport h = Tcp \<and> ssh_handler_drop h l = l"
  by (simp add: ssh_accept_def accept_inner_def ssh_handler_new_def with_bridge_channels_def ssh_handler_drop_def)

text \<open>The stand-alone bridge delivers no event and writes nothing, whatever the peer sends.\<close>

lemma control_channel_bridge_silent:
  "br_events (snd (control_channel_bridge disp de ser ident rs s)) = [] \<and>
   tx (br_stream (snd (control_channel_bridge disp de ser ident rs s))) = tx s"
proof -
  have "br_events (snd (run_bridge disp de ser False ident rs b)) = br_events b \<and>
      tx (br_stream (snd (run_bridge disp de ser False ident rs b))) = tx (br_stream b)"
    if "br_envelopes b = []" for b
    using that
  proof (induction rs arbitrary: b)
    case (Cons r rs)
    have "br_events b' = br_events b \<and> tx (br_stream b') = tx (br_stream b) \<and> br_envelopes b' = []"
      if "bridge_round disp de ser False ident r b = (go, b')" for go b'
      using that Cons.prems by (cases r) (auto simp: Let_def split: prod.splits sum.splits option.splits)
    then show ?case
      using Cons.IH by (fastforce split: prod.splits bool.splits)
  qed simp
  then show ?thesis
    by (simp add: control_channel_bridge_def bridge_new_def)
qed

text \<open>The bridge is given away once: a second control channel goes to the router.\<close>

lemma bridge_taken_once:
  assumes "ssh_channel_open_direct_tcpip contains cfg host port h = (ok, Some (BridgeTask a b i), h')"
  shows "host = ALKNET_CONTROL_DESTINATION \<and> i = ssh_identity h \<and> \<not> has_control_channel_bridge h'"
  using assms
  by (auto simp: ssh_channel_open_direct_tcpip_def has_control_channel_bridge_def take_handler_def Let_def
      split: if_splits)

end
