(* ===== verification/Http_Interface.thy ===== *)
theory Http_Interface
  imports Interface
begin

text \<open>
  \<open>http/auth.rs\<close>, \<open>http/router.rs\<close>, and the message interfaces of \<open>interface/mod.rs\<close>, \<open>interface/http.rs\<close> and
  \<open>interface/dns.rs\<close>. A request is its \<open>Authorization\<close> header, if there is one that is text; a response is
  its status. Parsing HTTP and TLS belongs to \<open>hyper\<close> and \<open>axum\<close>.
\<close>

section \<open>The router\<close>

datatype status_code = Unauthorized | NotFound

definition BEARER :: string where
  "BEARER = ''Bearer ''"

definition auth_middleware ::
  "(auth_token \<Rightarrow> identity option outcome) \<Rightarrow> (identity \<Rightarrow> status_code) \<Rightarrow> string option \<Rightarrow> status_code outcome" where
  "auth_middleware provider next_handler header =
     (case header of
        None \<Rightarrow> Returns Unauthorized
      | Some h \<Rightarrow>
          if \<not> starts_with h BEARER then Returns Unauthorized
          else
            let token = \<lparr>raw = as_bytes (drop 7 h)\<rparr> in
            outcome_bind (provider token) (\<lambda>r. Returns (
              case r of Some ident \<Rightarrow> next_handler ident | None \<Rightarrow> Unauthorized)))"

definition default_404 :: "identity \<Rightarrow> status_code" where
  "default_404 _ = NotFound"

definition build_router :: "(auth_token \<Rightarrow> identity option outcome) \<Rightarrow> string option \<Rightarrow> status_code outcome" where
  "build_router provider = auth_middleware provider default_404"

text \<open>\<open>hyper\<close> serves a stream with a service and reports how the connection ended, which is only logged.\<close>

definition serve_connection ::
  "((string option \<Rightarrow> status_code outcome) \<Rightarrow> 's \<Rightarrow> (string + unit) \<times> 's) \<Rightarrow> 's \<Rightarrow>
   (auth_token \<Rightarrow> identity option outcome) \<Rightarrow> 's \<times> string list" where
  "serve_connection hyper s provider =
     (case hyper (build_router provider) s of
        (Err e, s') \<Rightarrow> (s', [''http connection error: '' @ e])
      | (Ok _, s') \<Rightarrow> (s', []))"

text \<open>When the library answers a request with what the service returns for its header, a peer that sends
  no header the router admits sees only 401, on a connection that fails too.\<close>

lemma serve_connection_gate:
  assumes "\<And>service. set (answers (snd (hyper service s))) \<subseteq> {c. \<exists>h \<in> set (headers s). service h = Returns c}"
    and "\<And>h. h \<in> set (headers s) \<Longrightarrow> build_router provider h = Returns Unauthorized"
  shows "set (answers (fst (serve_connection hyper s provider))) \<subseteq> {Unauthorized}"
proof -
  have "fst (serve_connection hyper s provider) = snd (hyper (build_router provider) s)"
    by (simp add: serve_connection_def split: prod.split sum.split)
  then show ?thesis
    using assms(1) [of "build_router provider"] assms(2) by fastforce
qed

section \<open>Message interfaces\<close>

record interface_request =
  operation_path :: string
  req_input :: json
  req_auth_token :: "auth_token option"
  req_metadata :: "(string, string) hashmap"

record interface_response =
  ir_result :: "call_error + json"
  ir_status :: u16
  ir_headers :: "(string, string) hashmap"

definition http_handle_request :: "interface_request \<Rightarrow> interface_response" where
  "http_handle_request _ =
     \<lparr>ir_result = Err (call_error_new ''NOT_IMPLEMENTED'' ''HttpInterface is not yet implemented'' False),
      ir_status = 501, ir_headers = hm_empty\<rparr>"

definition dns_handle_request :: "interface_request \<Rightarrow> interface_response" where
  "dns_handle_request _ =
     \<lparr>ir_result = Err (call_error_new ''NOT_IMPLEMENTED'' ''DnsInterface is not yet implemented'' False),
      ir_status = 501, ir_headers = hm_empty\<rparr>"

section \<open>The gate\<close>

definition key_admits :: "(bytes \<Rightarrow> string) \<Rightarrow> u64 \<Rightarrow> 'key auth_policy \<Rightarrow> string \<Rightarrow> bool" where
  "key_admits sha256_hex now p tok \<longleftrightarrow>
     (\<exists>e. find (\<lambda>e. starts_with (take 8 tok) (api_prefix e)) (api_keys p) = Some e \<and>
        api_hash e = ''sha256:'' @ sha256_hex (as_bytes tok) \<and>
        (case expires_at e of None \<Rightarrow> True | Some t \<Rightarrow> now < t))"

lemma resolve_api_key_ascii:
  assumes "list_all (\<lambda>c. byte_val c < 128) tok"
  obtains r where "resolve_api_key sha256_hex now p tok = Returns r"
    "r \<noteq> None \<longleftrightarrow> starts_with tok API_KEY_PREFIX \<and> key_admits sha256_hex now p tok"
proof -
  have cont: "\<not> is_cont (byte_val (tok ! 8))" if "8 < length tok"
    using assms that by (auto simp: list_all_length is_cont_def)
  have bound: "is_char_boundary tok (min (length tok) 8)"
    using cont by (auto simp: is_char_boundary_def min_def)
  have "resolve_api_key sha256_hex now p tok \<noteq> Panics"
    using cont by (auto simp: resolve_api_key_panics_iff)
  then obtain r where r: "resolve_api_key sha256_hex now p tok = Returns r"
    by (cases "resolve_api_key sha256_hex now p tok") auto
  moreover have "r \<noteq> None \<longleftrightarrow> starts_with tok API_KEY_PREFIX \<and> key_admits sha256_hex now p tok"
    using resolve_api_key_Some_iff [of sha256_hex now p tok] bound unfolding r key_admits_def
    by (auto split: option.splits)
  ultimately show ?thesis
    by (rule that)
qed

text \<open>C23. Only a valid API key passes the HTTP router. For a header of plain ASCII text, the router lets a
  request through exactly when the header is Bearer and a token that starts with the prefix of API
  keys, the first configured key whose prefix the first eight bytes of the token start with has the hash
  of the whole token, and that key has not expired; any other request, and one without a header, is
  answered 401. So a key with a prefix of more than eight bytes is never found, of several keys with
  matching prefixes only the first can be used, and a token that is not an API key is never accepted.\<close>

theorem http_auth_gate:
  assumes "\<And>h. header = Some h \<Longrightarrow> list_all (\<lambda>c. byte_val c < 128) h"
  shows "build_router (resolve_from_token sha256_hex now cfg) header = Returns (
     if \<exists>tok e. header = Some (BEARER @ tok) \<and> starts_with tok API_KEY_PREFIX \<and>
        find (\<lambda>e. starts_with (take 8 tok) (api_prefix e)) (api_keys (auth cfg)) = Some e \<and>
        api_hash e = ''sha256:'' @ sha256_hex (as_bytes tok) \<and>
        (case expires_at e of None \<Rightarrow> True | Some t \<Rightarrow> now < t)
     then NotFound else Unauthorized)"
proof (cases "\<exists>tok. header = Some (BEARER @ tok)")
  case False
  then show ?thesis
    by (cases header) (auto simp: build_router_def auth_middleware_def starts_with_iff)
next
  case True
  then obtain tok where tok: "header = Some (BEARER @ tok)"
    by blast
  then have ascii: "list_all (\<lambda>c. byte_val c < 128) tok"
    using assms by simp
  have lossy: "from_utf8_lossy (as_bytes tok) = tok"
    using ascii by (intro from_utf8_lossy_as_bytes utf8_valid_ascii)
  have bearer: "drop 7 BEARER = []" "length BEARER = 7" "starts_with (BEARER @ tok) BEARER"
    by (simp_all add: BEARER_def starts_with_iff)
  have router: "build_router (resolve_from_token sha256_hex now cfg) header =
      (if starts_with tok API_KEY_PREFIX then
         outcome_bind (resolve_api_key sha256_hex now (auth cfg) tok) (\<lambda>r. Returns (
           case r of Some ident \<Rightarrow> NotFound | None \<Rightarrow> Unauthorized))
       else Returns Unauthorized)"
    by (simp add: build_router_def auth_middleware_def tok bearer resolve_from_token_def lossy Let_def
        default_404_def cong: option.case_cong)
  obtain r where r: "resolve_api_key sha256_hex now (auth cfg) tok = Returns r"
      "r \<noteq> None \<longleftrightarrow> starts_with tok API_KEY_PREFIX \<and> key_admits sha256_hex now (auth cfg) tok"
    by (rule resolve_api_key_ascii [OF ascii])
  then show ?thesis
    unfolding router r(1) by (cases r) (auto simp: tok key_admits_def)
qed

definition example_http_config :: "(unit, unit) dynamic_config" where
  "example_http_config =
     (dynamic_config_new \<lparr>authorized_keys = [], cert_authorities = [],
        api_keys = [\<lparr>api_prefix = ''alk_ab'', api_hash = ''sha256:00'', api_scopes = [], api_description = [],
          expires_at = Some 100\<rparr>], encoded_keys = [], fingerprint_to_key = hm_empty\<rparr>)"

theorem http_auth_gate_witness:
  "build_router (resolve_from_token (\<lambda>_. ''00'') 99 example_http_config) (Some ''Bearer alk_abcd'') = Returns NotFound \<and>
   build_router (resolve_from_token (\<lambda>_. ''00'') 100 example_http_config) (Some ''Bearer alk_abcd'') = Returns Unauthorized"
proof -
  let ?h = "''Bearer alk_abcd''"
  have "list_all (\<lambda>c. byte_val c < 128) ?h"
    by code_simp
  then have ascii: "list_all (\<lambda>c. byte_val c < 128) h" if "Some ?h = Some h" for h
    using that by blast
  have split: "?h = BEARER @ tok \<longleftrightarrow> tok = ''alk_abcd''" for tok
    by (auto simp: BEARER_def)
  show ?thesis
    using http_auth_gate [where header = "Some ?h" and sha256_hex = "\<lambda>_. ''00''" and cfg = example_http_config and now = 99,
        OF ascii]
      http_auth_gate [where header = "Some ?h" and sha256_hex = "\<lambda>_. ''00''" and cfg = example_http_config and now = 100,
        OF ascii]
    by (simp add: split example_http_config_def dynamic_config_new_def API_KEY_PREFIX_def starts_with_def)
qed

end
