(* ===== verification/Serve_Options.thy ===== *)
theory Serve_Options
  imports Interface Channel_Proxy Control_Channel
begin

text \<open>
  The configuration half of \<open>server/serve.rs\<close> and \<open>config/static_config.rs\<close>: the listeners, the options
  of a server, their validation, and the static and dynamic configuration made from them. Reading and
  decoding key files is the record \<open>key_env\<close>.
\<close>

section \<open>Listeners\<close>

definition DEFAULT_LISTEN_ADDR :: string where
  "DEFAULT_LISTEN_ADDR = ''0.0.0.0:22''"

datatype serve_transport_mode = ModeTcp | ModeTls | ModeIroh

fun show_serve_transport_mode :: "serve_transport_mode \<Rightarrow> string" where
  "show_serve_transport_mode ModeTcp = ''tcp''"
| "show_serve_transport_mode ModeTls = ''tls''"
| "show_serve_transport_mode ModeIroh = ''iroh''"

record stream_listener_config =
  sl_transport_kind :: transport_kind
  sl_interface :: stream_interface_kind
  sl_listen_addr :: string
  sl_tls_cert :: "string option"
  sl_tls_key :: "string option"
  sl_acme_domain :: "string option"
  sl_stealth :: bool
  sl_iroh_relay :: "string option"

definition stream_listener_validate :: "stream_listener_config \<Rightarrow> config_error + unit" where
  "stream_listener_validate c =
     (if \<not> is_valid_pair (sl_transport_kind c) (sl_interface c) then
        Err (InvalidFlag (''invalid transport/interface pair: '' @ show_transport_kind (sl_transport_kind c) @
          ''/'' @ show_stream_interface_kind (sl_interface c)))
      else if sl_stealth c \<and> \<not> is_tls (sl_transport_kind c) then
        Err (InvalidFlag ''stealth mode requires TLS transport'')
      else case sl_transport_kind c of
        Tls _ \<Rightarrow>
          if sl_tls_cert c = None \<and> sl_acme_domain c = None then
            Err (InvalidFlag ''TLS transport requires tls_cert/tls_key or acme_domain'')
          else if sl_tls_cert c \<noteq> None \<and> sl_tls_key c = None then
            Err (InvalidFlag ''tls_cert requires tls_key'')
          else if sl_tls_key c \<noteq> None \<and> sl_tls_cert c = None then
            Err (InvalidFlag ''tls_key requires tls_cert'')
          else Ok ()
      | _ \<Rightarrow>
          if sl_tls_cert c \<noteq> None \<or> sl_tls_key c \<noteq> None \<or> sl_acme_domain c \<noteq> None then Err IncompatibleOptions
          else Ok ())"

fun show_stream_listener_config :: "stream_listener_config \<Rightarrow> string" where
  "show_stream_listener_config c =
     sl_listen_addr c @ '' ('' @
       (case sl_transport_kind c of
          Iroh _ \<Rightarrow> ''iroh''
        | WebTransport _ \<Rightarrow> ''webtransport''
        | k \<Rightarrow> show_transport_kind k) @ ''/'' @ show_stream_interface_kind (sl_interface c) @ '')''"

record http_listener_config =
  hl_bind_addr :: socket_addr
  hl_tls :: bool
  hl_stealth :: bool

definition http_listener_config_new :: "socket_addr \<Rightarrow> http_listener_config" where
  "http_listener_config_new a = \<lparr>hl_bind_addr = a, hl_tls = False, hl_stealth = False\<rparr>"

definition http_listener_config_tls :: "bool \<Rightarrow> http_listener_config \<Rightarrow> http_listener_config" where
  "http_listener_config_tls b c = c\<lparr>hl_tls := b\<rparr>"

definition http_listener_config_stealth :: "bool \<Rightarrow> http_listener_config \<Rightarrow> http_listener_config" where
  "http_listener_config_stealth b c = c\<lparr>hl_stealth := b\<rparr>"

definition show_http_listener_config :: "http_listener_config \<Rightarrow> string" where
  "show_http_listener_config c = show_socket_addr (hl_bind_addr c) @ '' (http)''"

record dns_listener_config =
  dl_bind_addr :: socket_addr
  dl_tls :: bool

definition dns_listener_config_new :: "socket_addr \<Rightarrow> dns_listener_config" where
  "dns_listener_config_new a = \<lparr>dl_bind_addr = a, dl_tls = False\<rparr>"

definition dns_listener_config_tls :: "bool \<Rightarrow> dns_listener_config \<Rightarrow> dns_listener_config" where
  "dns_listener_config_tls b c = c\<lparr>dl_tls := b\<rparr>"

definition show_dns_listener_config :: "dns_listener_config \<Rightarrow> string" where
  "show_dns_listener_config c = show_socket_addr (dl_bind_addr c) @ '' (dns)''"

datatype listener_config =
  StreamListener stream_listener_config
| HttpListener http_listener_config
| DnsListener dns_listener_config

definition listener_of_kind :: "transport_kind \<Rightarrow> string \<Rightarrow> listener_config" where
  "listener_of_kind k addr =
     StreamListener \<lparr>sl_transport_kind = k, sl_interface = SshKind, sl_listen_addr = addr,
       sl_tls_cert = None, sl_tls_key = None, sl_acme_domain = None, sl_stealth = False, sl_iroh_relay = None\<rparr>"

definition listener_tcp :: "string \<Rightarrow> listener_config" where
  "listener_tcp addr = listener_of_kind Tcp addr"

definition listener_tls :: "string \<Rightarrow> listener_config" where
  "listener_tls addr = listener_of_kind (Tls None) addr"

definition listener_iroh :: "string \<Rightarrow> listener_config" where
  "listener_iroh addr = listener_of_kind (Iroh []) addr"

definition listener_webtransport :: "string \<Rightarrow> listener_config" where
  "listener_webtransport addr = listener_of_kind (WebTransport None) addr"

definition listener_http :: "socket_addr \<Rightarrow> listener_config" where
  "listener_http a = HttpListener \<lparr>hl_bind_addr = a, hl_tls = False, hl_stealth = False\<rparr>"

definition listener_dns :: "socket_addr \<Rightarrow> listener_config" where
  "listener_dns a = DnsListener \<lparr>dl_bind_addr = a, dl_tls = False\<rparr>"

fun listener_tls_cert :: "string \<Rightarrow> listener_config \<Rightarrow> listener_config" where
  "listener_tls_cert p (StreamListener c) = StreamListener (c\<lparr>sl_tls_cert := Some p\<rparr>)"
| "listener_tls_cert p l = l"

fun listener_tls_key :: "string \<Rightarrow> listener_config \<Rightarrow> listener_config" where
  "listener_tls_key p (StreamListener c) = StreamListener (c\<lparr>sl_tls_key := Some p\<rparr>)"
| "listener_tls_key p l = l"

fun listener_acme_domain :: "string \<Rightarrow> listener_config \<Rightarrow> listener_config" where
  "listener_acme_domain d (StreamListener c) = StreamListener (c\<lparr>sl_acme_domain := Some d\<rparr>)"
| "listener_acme_domain d l = l"

fun listener_stealth :: "bool \<Rightarrow> listener_config \<Rightarrow> listener_config" where
  "listener_stealth b (StreamListener c) = StreamListener (c\<lparr>sl_stealth := b\<rparr>)"
| "listener_stealth b (HttpListener c) = HttpListener (c\<lparr>hl_stealth := b\<rparr>)"
| "listener_stealth b (DnsListener c) = DnsListener c"

fun listener_iroh_relay :: "string \<Rightarrow> listener_config \<Rightarrow> listener_config" where
  "listener_iroh_relay u (StreamListener c) = StreamListener (c\<lparr>sl_iroh_relay := Some u\<rparr>)"
| "listener_iroh_relay u l = l"

fun listener_validate :: "listener_config \<Rightarrow> config_error + unit" where
  "listener_validate (StreamListener c) = stream_listener_validate c"
| "listener_validate (HttpListener c) =
     (if hl_stealth c \<and> \<not> hl_tls c then Err (InvalidFlag ''stealth mode requires TLS on HTTP listener'')
      else Ok ())"
| "listener_validate (DnsListener c) = Ok ()"

section \<open>Options\<close>

fun show_listener_config :: "listener_config \<Rightarrow> string" where
  "show_listener_config (StreamListener c) = show_stream_listener_config c"
| "show_listener_config (HttpListener c) = show_http_listener_config c"
| "show_listener_config (DnsListener c) = show_dns_listener_config c"

record serve_options =
  so_key :: key_source
  so_authorized_keys :: "key_source option"
  so_cert_authority :: "key_source option"
  so_transport_mode :: serve_transport_mode
  so_listen_addr :: string
  so_tls_cert :: "string option"
  so_tls_key :: "string option"
  so_acme_domain :: "string option"
  so_stealth :: bool
  so_proxy :: "string option"
  so_iroh_relay :: "string option"
  so_max_connections_per_ip :: nat
  so_max_auth_attempts :: nat
  so_listeners :: "listener_config list option"

definition serve_options_new :: "key_source \<Rightarrow> serve_options" where
  "serve_options_new k =
     \<lparr>so_key = k, so_authorized_keys = None, so_cert_authority = None, so_transport_mode = ModeTcp,
      so_listen_addr = DEFAULT_LISTEN_ADDR, so_tls_cert = None, so_tls_key = None, so_acme_domain = None,
      so_stealth = False, so_proxy = None, so_iroh_relay = None, so_max_connections_per_ip = 0,
      so_max_auth_attempts = 10, so_listeners = None\<rparr>"

definition set_authorized_keys :: "key_source \<Rightarrow> serve_options \<Rightarrow> serve_options" where
  "set_authorized_keys source opts = opts\<lparr>so_authorized_keys := Some source\<rparr>"

definition set_cert_authority :: "key_source \<Rightarrow> serve_options \<Rightarrow> serve_options" where
  "set_cert_authority source opts = opts\<lparr>so_cert_authority := Some source\<rparr>"

definition set_transport_mode :: "serve_transport_mode \<Rightarrow> serve_options \<Rightarrow> serve_options" where
  "set_transport_mode mode opts = opts\<lparr>so_transport_mode := mode\<rparr>"

definition set_listen_addr :: "string \<Rightarrow> serve_options \<Rightarrow> serve_options" where
  "set_listen_addr addr opts = opts\<lparr>so_listen_addr := addr\<rparr>"

definition set_tls_cert :: "string \<Rightarrow> serve_options \<Rightarrow> serve_options" where
  "set_tls_cert path opts = opts\<lparr>so_tls_cert := Some path\<rparr>"

definition set_tls_key :: "string \<Rightarrow> serve_options \<Rightarrow> serve_options" where
  "set_tls_key path opts = opts\<lparr>so_tls_key := Some path\<rparr>"

definition set_acme_domain :: "string \<Rightarrow> serve_options \<Rightarrow> serve_options" where
  "set_acme_domain domain opts = opts\<lparr>so_acme_domain := Some domain\<rparr>"

definition set_stealth :: "bool \<Rightarrow> serve_options \<Rightarrow> serve_options" where
  "set_stealth enabled opts = opts\<lparr>so_stealth := enabled\<rparr>"

definition set_proxy :: "string \<Rightarrow> serve_options \<Rightarrow> serve_options" where
  "set_proxy url opts = opts\<lparr>so_proxy := Some url\<rparr>"

definition set_iroh_relay :: "string \<Rightarrow> serve_options \<Rightarrow> serve_options" where
  "set_iroh_relay url opts = opts\<lparr>so_iroh_relay := Some url\<rparr>"

definition set_max_connections_per_ip :: "nat \<Rightarrow> serve_options \<Rightarrow> serve_options" where
  "set_max_connections_per_ip n opts = opts\<lparr>so_max_connections_per_ip := n\<rparr>"

definition set_max_auth_attempts :: "nat \<Rightarrow> serve_options \<Rightarrow> serve_options" where
  "set_max_auth_attempts n opts = opts\<lparr>so_max_auth_attempts := n\<rparr>"

definition set_listeners :: "listener_config list \<Rightarrow> serve_options \<Rightarrow> serve_options" where
  "set_listeners ls opts = opts\<lparr>so_listeners := Some ls\<rparr>"

lemmas serve_option_setters =
  set_authorized_keys_def set_cert_authority_def set_transport_mode_def set_listen_addr_def set_tls_cert_def
  set_tls_key_def set_acme_domain_def set_stealth_def set_proxy_def set_iroh_relay_def
  set_max_connections_per_ip_def set_max_auth_attempts_def set_listeners_def

fun validate_all :: "listener_config list \<Rightarrow> config_error + unit" where
  "validate_all [] = Ok ()"
| "validate_all (l # ls) = result_bind (listener_validate l) (\<lambda>_. validate_all ls)"

definition serve_options_validate :: "serve_options \<Rightarrow> config_error + unit" where
  "serve_options_validate opts =
     (case so_listeners opts of
        Some listeners \<Rightarrow>
          if listeners = [] then Err (InvalidFlag ''listeners must not be empty'') else validate_all listeners
      | None \<Rightarrow>
          if so_stealth opts \<and> so_transport_mode opts \<noteq> ModeTls then
            Err (InvalidFlag ''stealth mode requires TLS transport (--transport tls)'')
          else case so_transport_mode opts of
            ModeTls \<Rightarrow>
              if so_tls_cert opts = None \<and> so_acme_domain opts = None then
                Err (InvalidFlag ''TLS transport requires --tls-cert/--tls-key or --acme-domain'')
              else if so_tls_cert opts \<noteq> None \<and> so_tls_key opts = None then
                Err (InvalidFlag ''--tls-cert requires --tls-key'')
              else if so_tls_key opts \<noteq> None \<and> so_tls_cert opts = None then
                Err (InvalidFlag ''--tls-key requires --tls-cert'')
              else Ok ()
          | _ \<Rightarrow>
              if so_tls_cert opts \<noteq> None \<or> so_tls_key opts \<noteq> None \<or> so_acme_domain opts \<noteq> None then
                Err IncompatibleOptions
              else Ok ())"

section \<open>Static configuration\<close>

record 'sk static_config =
  sc_transport_mode :: serve_transport_mode
  sc_listen_addr :: string
  sc_tls_cert :: "string option"
  sc_tls_key :: "string option"
  sc_acme_domain :: "string option"
  sc_stealth :: bool
  sc_host_key :: 'sk
  sc_max_auth_attempts :: nat
  sc_max_connections_per_ip :: nat
  sc_proxy_config :: "proxy_config option"
  sc_iroh_relay :: "string option"
  sc_listeners :: "listener_config list"

text \<open>The message of an address that does not parse.\<close>

definition addr_parse_error :: string where
  "addr_parse_error = ''invalid socket address syntax''"

definition parse_proxy_config :: "string option \<Rightarrow> config_error + proxy_config option" where
  "parse_proxy_config proxy =
     (case proxy of
        None \<Rightarrow> Ok None
      | Some url \<Rightarrow>
          (case strip_prefix url ''socks5://'' of
             Some rest \<Rightarrow>
               (case parse_socket_addr rest of
                  Some addr \<Rightarrow> Ok (Some \<lparr>proxy_mode_of = Socks5Proxy addr\<rparr>)
                | None \<Rightarrow> Err (ProxyConfigInvalid (''invalid socks5 proxy address '' @ [CHR 0x27] @ rest @ [CHR 0x27] @
                    '': '' @ addr_parse_error)))
           | None \<Rightarrow>
               (case strip_prefix url ''http://'' of
                  Some rest \<Rightarrow>
                    (case parse_socket_addr rest of
                       Some addr \<Rightarrow> Ok (Some \<lparr>proxy_mode_of = HttpConnect addr\<rparr>)
                     | None \<Rightarrow> Err (ProxyConfigInvalid (''invalid http connect proxy address '' @ [CHR 0x27] @ rest @
                         [CHR 0x27] @ '': '' @ addr_parse_error)))
                | None \<Rightarrow> Err (ProxyConfigInvalid (''unsupported proxy URL scheme: '' @ url)))))"

record ('key, 'kd, 'sk) key_env =
  ke_fs :: "string \<Rightarrow> bytes option"
  ke_decode_secret_key :: "string \<Rightarrow> string + 'sk"
  ke_parse_public_key :: "string \<Rightarrow> 'key option"
  ke_api :: "('key, 'kd) key_api"

fun mode_transport_kind :: "serve_transport_mode \<Rightarrow> transport_kind" where
  "mode_transport_kind ModeTcp = Tcp"
| "mode_transport_kind ModeTls = Tls None"
| "mode_transport_kind ModeIroh = Iroh []"

definition listener_of_options :: "serve_options \<Rightarrow> stream_listener_config" where
  "listener_of_options opts =
     \<lparr>sl_transport_kind = mode_transport_kind (so_transport_mode opts), sl_interface = SshKind,
      sl_listen_addr = so_listen_addr opts, sl_tls_cert = so_tls_cert opts, sl_tls_key = so_tls_key opts,
      sl_acme_domain = so_acme_domain opts, sl_stealth = so_stealth opts, sl_iroh_relay = so_iroh_relay opts\<rparr>"

definition from_serve_options ::
  "('key, 'kd, 'sk) key_env \<Rightarrow> serve_options \<Rightarrow>
   (config_error + 'sk static_config \<times> ('key, 'net) dynamic_config) outcome" where
  "from_serve_options env opts =
     (case serve_options_validate opts of
        Err e \<Rightarrow> Returns (Err e)
      | Ok _ \<Rightarrow>
     (case load_private_key (ke_fs env) (ke_decode_secret_key env) (so_key opts) of
        Err e \<Rightarrow> Returns (Err e)
      | Ok host_key \<Rightarrow>
     outcome_bind (from_keys_and_ca (ke_api env) (ke_fs env) (ke_parse_public_key env)
         (so_authorized_keys opts) (so_cert_authority opts)) (\<lambda>r.
     case r of
        Err e \<Rightarrow> Returns (Err e)
      | Ok auth_config \<Rightarrow>
          let dynamic = dynamic_config_new (from_server_auth_config (ke_api env) auth_config) in
          Returns (result_bind (parse_proxy_config (so_proxy opts)) (\<lambda>proxy_config.
            let listeners = (case so_listeners opts of Some ls \<Rightarrow> ls
                             | None \<Rightarrow> [StreamListener (listener_of_options opts)]) in
            Ok (\<lparr>sc_transport_mode = so_transport_mode opts, sc_listen_addr = so_listen_addr opts,
                 sc_tls_cert = so_tls_cert opts, sc_tls_key = so_tls_key opts,
                 sc_acme_domain = so_acme_domain opts, sc_stealth = so_stealth opts,
                 sc_host_key = host_key, sc_max_auth_attempts = so_max_auth_attempts opts,
                 sc_max_connections_per_ip = so_max_connections_per_ip opts, sc_proxy_config = proxy_config,
                 sc_iroh_relay = so_iroh_relay opts, sc_listeners = listeners\<rparr>, dynamic))))))"

section \<open>Lemmas\<close>

lemma validate_all_iff: "validate_all ls = Ok () \<longleftrightarrow> (\<forall>l \<in> set ls. listener_validate l = Ok ())"
  by (induction ls) (auto simp: result_bind_Inr_iff)

lemma listener_of_options_agrees:
  assumes "so_listeners opts = None"
  shows "serve_options_validate opts = Ok () \<longleftrightarrow> stream_listener_validate (listener_of_options opts) = Ok ()"
  using assms
  by (cases "so_transport_mode opts")
     (auto simp: serve_options_validate_def stream_listener_validate_def listener_of_options_def is_valid_pair_def)

text \<open>What a valid listener has.\<close>

lemma stream_listener_valid_iff:
  "stream_listener_validate c = Ok () \<longleftrightarrow>
     is_valid_pair (sl_transport_kind c) (sl_interface c) \<and>
     (if is_tls (sl_transport_kind c)
      then (sl_tls_cert c \<noteq> None \<and> sl_tls_key c \<noteq> None) \<or>
           (sl_tls_cert c = None \<and> sl_tls_key c = None \<and> sl_acme_domain c \<noteq> None)
      else \<not> sl_stealth c \<and> sl_tls_cert c = None \<and> sl_tls_key c = None \<and> sl_acme_domain c = None)"
  by (cases "sl_transport_kind c") (auto simp: stream_listener_validate_def)

lemma from_serve_options_valid:
  assumes "from_serve_options env opts = Returns (Ok (sc, dyn))"
  shows "sc_listeners sc \<noteq> [] \<and> (\<forall>l \<in> set (sc_listeners sc). listener_validate l = Ok ())"
proof -
  have v: "serve_options_validate opts = Ok ()"
    using assms by (auto simp: from_serve_options_def split: sum.splits)
  have "sc_listeners sc = (case so_listeners opts of Some ls \<Rightarrow> ls | None \<Rightarrow> [StreamListener (listener_of_options opts)])"
    using assms
    by (cases "from_keys_and_ca (ke_api env) (ke_fs env) (ke_parse_public_key env)
          (so_authorized_keys opts) (so_cert_authority opts)")
       (auto simp: from_serve_options_def result_bind_Inr_iff Let_def split: sum.splits)
  then show ?thesis
    using v listener_of_options_agrees [of opts]
    by (auto simp: serve_options_validate_def validate_all_iff split: option.splits if_splits)
qed

lemma from_serve_options_limits:
  assumes "from_serve_options env opts = Returns (Ok (sc, dyn))"
  shows "sc_max_connections_per_ip sc = so_max_connections_per_ip opts" "sc_max_auth_attempts sc = so_max_auth_attempts opts"
  using assms
  by (cases "from_keys_and_ca (ke_api env) (ke_fs env) (ke_parse_public_key env)
        (so_authorized_keys opts) (so_cert_authority opts)";
      auto simp: from_serve_options_def result_bind_Inr_iff Let_def split: sum.splits)+

end
