(* ===== verification/Server_Handler.thy ===== *)
theory Server_Handler
  imports Handler_Contract
begin

text \<open>
  \<open>server/handler.rs\<close>: the handler of one SSH connection of the standalone server. The dynamic
  configuration and the connection limiter are shared: the configuration a call loads is an argument,
  the limiter is passed and returned. The identity provider is the function \<open>prov\<close> from fingerprints
  to identities; by default it is \<open>resolve_from_fingerprint\<close> on the configuration of the moment. The
  key a client presents appears as its fingerprint.
\<close>

record 'c server_handler =
  outbound_proxy :: "proxy_config option"
  sh_remote_addr :: "socket_addr option"
  control_channel_router :: "'c control_channel_router"
  sh_transport :: transport_kind
  connection_allowed :: bool
  auth_limiter :: auth_attempt_limiter
  authenticated_identity :: "identity option"

definition server_handler_new ::
  "proxy_config option \<Rightarrow> transport_kind \<Rightarrow> socket_addr option \<Rightarrow> nat \<Rightarrow> connection_rate_limiter \<Rightarrow>
   'c server_handler \<times> connection_rate_limiter" where
  "server_handler_new proxy transport addr n l =
     (let (ok, l') =
        (case addr of
           Some a \<Rightarrow>
             if check_connection l (sa_ip a) then (True, on_connect (sa_ip a) l) else (False, l)
         | None \<Rightarrow> (True, l)) in
      (\<lparr>outbound_proxy = proxy, sh_remote_addr = addr, control_channel_router = router_without_handler,
        sh_transport = transport, connection_allowed = ok,
        auth_limiter = auth_attempt_limiter_new n, authenticated_identity = None\<rparr>, l'))"

definition remote_ip :: "'c server_handler \<Rightarrow> ip_addr option" where
  "remote_ip h = map_option sa_ip (sh_remote_addr h)"

definition with_control_channel_handler :: "'c \<Rightarrow> 'c server_handler \<Rightarrow> 'c server_handler" where
  "with_control_channel_handler c h = h\<lparr>control_channel_router := router_with_handler c\<rparr>"

definition server_handler_drop :: "'c server_handler \<Rightarrow> connection_rate_limiter \<Rightarrow> connection_rate_limiter" where
  "server_handler_drop h l =
     (case sh_remote_addr h of
        Some a \<Rightarrow> if connection_allowed h then on_disconnect (sa_ip a) l else l
      | None \<Rightarrow> l)"

definition auth_publickey ::
  "(string \<Rightarrow> identity option) \<Rightarrow> string \<Rightarrow> 'c server_handler \<Rightarrow> auth \<times> 'c server_handler" where
  "auth_publickey prov fp h =
     (if \<not> check_attempts (auth_limiter h) then (Reject, h)
      else case prov fp of
             Some i \<Rightarrow> (Accept, h\<lparr>authenticated_identity := Some i\<rparr>)
           | None \<Rightarrow> (Reject, h\<lparr>auth_limiter := on_failure (auth_limiter h)\<rparr>))"

text \<open>The answer to a direct-tcpip channel, with the task that is spawned for it. A reserved
  destination with a control channel handler is accepted and the channel dropped.\<close>

definition channel_open_direct_tcpip ::
  "('net \<Rightarrow> ip_addr \<Rightarrow> bool) \<Rightarrow> ('key, 'net) dynamic_config \<Rightarrow> string \<Rightarrow> u32 \<Rightarrow> 'c server_handler \<Rightarrow>
   bool \<times> forward_task option" where
  "channel_open_direct_tcpip contains cfg host port h =
     (if starts_with host ALKNET_PREFIX then
        (if \<not> has_handler (control_channel_router h) then (False, None) else (True, None))
      else
        let i = (case authenticated_identity h of Some i \<Rightarrow> i | None \<Rightarrow> anonymous_identity) in
        if \<not> policy_check contains (forwarding cfg) host (ucast port) i (sh_transport h) then (False, None)
        else (True, Some \<lparr>task_host = host, task_port = port,
               task_proxy = (case outbound_proxy h of Some p \<Rightarrow> p | None \<Rightarrow> \<lparr>proxy_mode_of = Direct\<rparr>)\<rparr>))"

fun channel_open_other :: "other_channel \<Rightarrow> 'c server_handler \<Rightarrow> bool" where
  "channel_open_other OpenSession h = False"
| "channel_open_other OpenX11 h = False"
| "channel_open_other (OpenForwardedTcpip host port) h = False"

fun handle_channel_request :: "channel_request \<Rightarrow> 'c server_handler \<Rightarrow> request_reply" where
  "handle_channel_request (ExecRequest data) h = ChannelFailure"
| "handle_channel_request ShellRequest h = ChannelFailure"
| "handle_channel_request (SubsystemRequest name) h = ChannelFailure"
| "handle_channel_request (PtyRequest term) h = ChannelFailure"
| "handle_channel_request (EnvRequest name val) h = ChannelFailure"
| "handle_channel_request X11Request h = ChannelFailure"

fun handle_connection_request :: "connection_request \<Rightarrow> 'c server_handler \<Rightarrow> request_reply" where
  "handle_connection_request AgentRequest h = Refuse"
| "handle_connection_request (TcpipForward addr port) h = Refuse"
| "handle_connection_request (CancelTcpipForward addr port) h = Refuse"
| "handle_connection_request (StreamlocalForward path) h = Refuse"
| "handle_connection_request (Signal sig) h = Ignore"

section \<open>The contract holds\<close>

interpretation sh: ssh_handler "server_handler_new proxy transport" server_handler_drop auth_publickey
  sh_remote_addr connection_allowed auth_limiter authenticated_identity for proxy transport
proof unfold_locales
  fix addr n l h l'
  assume "server_handler_new proxy transport addr n l = (h, l')"
  then show "sh_remote_addr h = addr \<and> crl.admit (map_option sa_ip addr) l = (connection_allowed h, l') \<and>
      auth_limiter h = auth_attempt_limiter_new n \<and> authenticated_identity h = None"
    by (auto simp: server_handler_new_def crl.admit_def split: option.splits if_splits)
next
  fix h l
  show "server_handler_drop h l =
      crl.release (map_option sa_ip (sh_remote_addr h)) (connection_allowed h) l"
    by (simp add: server_handler_drop_def crl.release_def split: option.split)
qed (auto simp: auth_publickey_def split: if_splits option.splits)

section \<open>Authentication\<close>

text \<open>C3. A connection is locked out after its allowance of failures: in any sequence of attempts,
  with the configuration possibly reloaded between them, the failure counter is the number of
  rejections capped at the maximum, and once it has reached the maximum every further attempt is
  rejected, valid keys included, and changes nothing.\<close>

theorem auth_lockout:
  assumes "0 < n" "server_handler_new proxy transport addr n l = (h, l')"
    and "run_auths auth_publickey as h = (rs, h')"
  shows "failures (auth_limiter h') = min n (count_list rs Reject) \<and>
    (n \<le> count_list rs Reject \<longrightarrow> auth_publickey prov fp h' = (Reject, h'))"
proof -
  have h: "auth_limiter h = auth_attempt_limiter_new n"
    using assms(2) sh.new_admits by blast
  then have f: "failures (auth_limiter h') = min n (count_list rs Reject)" "max_attempts (auth_limiter h') = n"
    using sh.auths_failures [OF assms(3)] assms(1) by (simp_all add: auth_attempt_limiter_new_def)
  then show ?thesis
    using assms(1) by (simp add: auth_publickey_def check_attempts_def)
qed

theorem auth_lockout_witness:
  "auth_publickey (\<lambda>_. Some anonymous_identity) ''SHA256:good''
     (snd (run_auths auth_publickey [(\<lambda>_. None, ''SHA256:a''), (\<lambda>_. None, ''SHA256:b'')]
       (fst (server_handler_new None Tcp None 2 (connection_rate_limiter_new 0)) :: unit server_handler))) =
   (Reject, snd (run_auths auth_publickey [(\<lambda>_. None, ''SHA256:a''), (\<lambda>_. None, ''SHA256:b'')]
       (fst (server_handler_new None Tcp None 2 (connection_rate_limiter_new 0)))))"
  using auth_lockout [of 2 None Tcp None "connection_rate_limiter_new 0"
      "fst (server_handler_new None Tcp None 2 (connection_rate_limiter_new 0)) :: unit server_handler"
      "connection_rate_limiter_new 0" "[(\<lambda>_. None, ''SHA256:a''), (\<lambda>_. None, ''SHA256:b'')]"
      "[Reject, Reject]" _ "\<lambda>_. Some anonymous_identity" "''SHA256:good''"]
  by (simp add: server_handler_new_def auth_publickey_def check_attempts_def auth_attempt_limiter_new_def)

text \<open>C7. A connection only speaks for identities its keys resolved to: if after any sequence of attempts
  the handler has an identity, one of the attempts presented a fingerprint that the provider of that
  moment resolved to exactly that identity.\<close>

theorem auth_identity_provenance:
  assumes "server_handler_new proxy transport addr n l = (h, l')"
    and "run_auths auth_publickey as h = (rs, h')" "authenticated_identity h' = Some i"
  shows "\<exists>(prov, fp) \<in> set as. prov fp = Some i"
proof -
  have "authenticated_identity h = None"
    using assms(1) sh.new_admits by blast
  then obtain a where "a \<in> set as" "fst a (snd a) = Some i"
    using sh.auths_ident [OF assms(2)] assms(3) by auto
  then show ?thesis
    by (cases a) auto
qed

theorem auth_identity_provenance_witness:
  "let as = [(\<lambda>_. None, ''SHA256:a''), (\<lambda>f. if f = ''SHA256:b'' then Some anonymous_identity else None, ''SHA256:b'')];
       h = fst (server_handler_new None Tcp None 0 (connection_rate_limiter_new 0)) :: unit server_handler in
   (\<exists>h'. run_auths auth_publickey as h = ([Reject, Accept], h') \<and> authenticated_identity h' = Some anonymous_identity) \<and>
   (\<exists>(prov, fp) \<in> set as. prov fp = Some anonymous_identity)"
proof -
  let ?as = "[(\<lambda>_. None, ''SHA256:a''), (\<lambda>f. if f = ''SHA256:b'' then Some anonymous_identity else None, ''SHA256:b'')]"
  let ?h = "fst (server_handler_new None Tcp None 0 (connection_rate_limiter_new 0)) :: unit server_handler"
  obtain h' where run: "run_auths auth_publickey ?as ?h = ([Reject, Accept], h')" "authenticated_identity h' = Some anonymous_identity"
    by (simp add: server_handler_new_def auth_publickey_def check_attempts_def auth_attempt_limiter_new_def)
  have "\<exists>(prov, fp) \<in> set ?as. prov fp = Some anonymous_identity"
    by (rule auth_identity_provenance [OF prod.collapse [symmetric] run])
  with run show ?thesis
    unfolding Let_def by blast
qed

section \<open>Forwarding\<close>

lemma channel_open_task:
  "channel_open_direct_tcpip contains cfg host port h = (ok, Some t) \<longleftrightarrow>
     ok \<and> \<not> starts_with host ALKNET_PREFIX \<and>
     policy_check contains (forwarding cfg) host (ucast port)
       (case authenticated_identity h of Some i \<Rightarrow> i | None \<Rightarrow> anonymous_identity) (sh_transport h) \<and>
     t = \<lparr>task_host = host, task_port = port,
          task_proxy = (case outbound_proxy h of Some p \<Rightarrow> p | None \<Rightarrow> \<lparr>proxy_mode_of = Direct\<rparr>)\<rparr>"
  by (auto simp: channel_open_direct_tcpip_def Let_def)

text \<open>C1. What is dialled was allowed: whenever a channel request leads to a connection to an address,
  the policy loaded for that request allowed the requested host at exactly the port of that address,
  for the identity of the connection; this covers port numbers above 65535, which are cut to 16 bits
  both where they are checked and where they are used. Name lookups are assumed to return addresses
  with the port they were asked for.\<close>

theorem dialled_address_was_allowed:
  assumes "\<And>n p addrs a. lookup n p = Some addrs \<Longrightarrow> a \<in> set addrs \<Longrightarrow> sa_port a = p"
    and "channel_open_direct_tcpip contains cfg host port h = (ok, Some t)"
    and "resolve_target lookup (task_host t) (task_port t) = Some addr"
  shows "\<not> starts_with host ALKNET_PREFIX \<and>
    policy_check contains (forwarding cfg) host (sa_port addr)
      (case authenticated_identity h of Some i \<Rightarrow> i | None \<Rightarrow> anonymous_identity) (sh_transport h)"
proof -
  have "task_host t = host" "task_port t = port"
    using assms(2) by (simp_all add: channel_open_task)
  then have "sa_port addr = ucast port"
    using resolve_target_port assms(1,3) by blast
  then show ?thesis
    using assms(2) by (simp add: channel_open_task)
qed

definition example_handler :: "unit server_handler" where
  "example_handler = fst (server_handler_new None Tcp None 10 (connection_rate_limiter_new 0))"

definition example_config :: "(unit, ip_addr) dynamic_config" where
  "example_config = from_parts
     \<lparr>authorized_keys = [], cert_authorities = [], api_keys = [], encoded_keys = [], fingerprint_to_key = []\<rparr>
     \<lparr>policy_default = Deny, rules = [\<lparr>target = PortRange ''10.0.0.1'' 80 81, action = Allow, principals = [], transports = []\<rparr>]\<rparr>
     rate_limit_config_default"

theorem dialled_address_was_allowed_witness:
  "policy_check (=) (forwarding example_config) ''10.0.0.1'' 80 anonymous_identity Tcp"
proof -
  have run: "channel_open_direct_tcpip (=) example_config ''10.0.0.1'' 65616 example_handler =
      (True, Some \<lparr>task_host = ''10.0.0.1'', task_port = 65616, task_proxy = \<lparr>proxy_mode_of = Direct\<rparr>\<rparr>)"
    by code_simp
  have "resolve_target (\<lambda>_ p. Some [SocketAddr (V4 10 0 0 1) p]) ''10.0.0.1'' 65616 =
      Some (SocketAddr (V4 10 0 0 1) 80)"
    by code_simp
  then have "\<not> starts_with ''10.0.0.1'' ALKNET_PREFIX \<and>
      policy_check (=) (forwarding example_config) ''10.0.0.1'' (sa_port (SocketAddr (V4 10 0 0 1) 80))
        (case authenticated_identity example_handler of Some i \<Rightarrow> i | None \<Rightarrow> anonymous_identity)
        (sh_transport example_handler)"
    by (intro dialled_address_was_allowed [OF _ run, where lookup = "\<lambda>_ p. Some [SocketAddr (V4 10 0 0 1) p]"]) auto
  then show ?thesis
    by (simp add: example_handler_def server_handler_new_def)
qed

text \<open>Reserved destinations are outside the policy: for a host that starts with the prefix no
  forwarding task is ever spawned and the answer, which is whether a control handler is registered,
  is the same under every configuration, so a rule about the reserved prefix is never consulted.\<close>

theorem reserved_destination_ignores_policy:
  "channel_open_direct_tcpip contains cfg (ALKNET_PREFIX @ name) port h =
     (has_handler (control_channel_router h), None)"
  by (simp add: channel_open_direct_tcpip_def)

text \<open>C35. A rule that denies a network does not stop a client that writes an IPv6 address in brackets:
  the policy does not recognise the bracketed text as an address, the dialler does. With a policy
  that denies a network containing the loopback address and allows the rest, the plain address is
  refused while its bracketed form is accepted and resolves to that very address.\<close>

theorem bracketed_ipv6_escapes_cidr_rule:
  assumes "contains net (V6 0 0 0 0 0 0 0 1)"
    and "forwarding cfg = \<lparr>policy_default = Allow,
      rules = [\<lparr>target = Cidr net, action = Deny, principals = [], transports = []\<rparr>]\<rparr>"
  shows "channel_open_direct_tcpip contains cfg ''::1'' 22 h = (False, None) \<and>
    (\<exists>t. channel_open_direct_tcpip contains cfg ''[::1]'' 22 h = (True, Some t) \<and>
       resolve_target lookup (task_host t) (task_port t) = Some (SocketAddr (V6 0 0 0 0 0 0 0 1) 22))"
proof -
  have parse: "parse_ip_addr ''::1'' = Some (V6 0 0 0 0 0 0 0 1)" "parse_ip_addr ''[::1]'' = None"
    "\<not> starts_with ''::1'' ALKNET_PREFIX" "\<not> starts_with ''[::1]'' ALKNET_PREFIX"
    by code_simp+
  have res: "resolve_target lookup ''[::1]'' 22 = Some (SocketAddr (V6 0 0 0 0 0 0 0 1) 22)"
  proof -
    have "parse_socket_addr (''[::1]'' @ '':'' @ show_nat (unat (22 :: u32))) = Some (SocketAddr (V6 0 0 0 0 0 0 0 1) 22)"
      by code_simp
    then show ?thesis
      by (simp only: resolve_target_def option.case)
  qed
  show ?thesis
    using assms parse res
    by (simp add: channel_open_direct_tcpip_def Let_def policy_check_def rule_applies_def match_cidr_def
        matches_principal_def matches_transport_def)
qed

theorem bracketed_ipv6_escapes_cidr_rule_witness:
  "channel_open_direct_tcpip (=) (example_config\<lparr>forwarding := \<lparr>policy_default = Allow,
      rules = [\<lparr>target = Cidr (V6 0 0 0 0 0 0 0 1), action = Deny, principals = [], transports = []\<rparr>]\<rparr>\<rparr>)
     ''::1'' 22 example_handler = (False, None)"
  using bracketed_ipv6_escapes_cidr_rule
    [of "(=)" "V6 0 0 0 0 0 0 0 1" "example_config\<lparr>forwarding := \<lparr>policy_default = Allow,
      rules = [\<lparr>target = Cidr (V6 0 0 0 0 0 0 0 1), action = Deny, principals = [], transports = []\<rparr>]\<rparr>\<rparr>"
      example_handler "\<lambda>_ _. None"]
  by simp

end
