(* ===== verification/Napi_Serve.thy ===== *)
theory Napi_Serve
  imports Serve
begin

text \<open>
  \<open>alknet-napi/src/serve.rs\<close>: the server as a Node.js module. Modelled are the translation of the options
  and of forwarding and key configuration, the reload operations on the shared configuration, and
  \<open>NapiServerHandler\<close>, the third handler of SSH connections, which hands channels to reserved
  destinations to JavaScript. A channel that is handed over is the output of the call; \<open>sender_open\<close> says
  whether the sender to JavaScript is there. Not modelled are the conversions to JavaScript values and
  the binding of sockets.
\<close>

section \<open>Options\<close>

datatype napi_error = InvalidArg string | GenericFailure string

datatype napi_key = KeyPath string | KeyBuffer bytes

definition resolve_key_source :: "napi_key option \<Rightarrow> string \<Rightarrow> napi_error + key_source" where
  "resolve_key_source key field =
     (case key of
        None \<Rightarrow> Err (InvalidArg (field @ '' is required: provide a file path (string) or key data (Buffer)''))
      | Some (KeyPath path) \<Rightarrow> Ok (File path)
      | Some (KeyBuffer buf) \<Rightarrow> Ok (Memory buf))"

definition resolve_optional_key_source :: "napi_key option \<Rightarrow> key_source option" where
  "resolve_optional_key_source key =
     (case key of
        None \<Rightarrow> None
      | Some (KeyPath path) \<Rightarrow> Some (File path)
      | Some (KeyBuffer buf) \<Rightarrow> Some (Memory buf))"

definition parse_addr :: "string \<Rightarrow> napi_error + socket_addr" where
  "parse_addr s =
     (case parse_socket_addr s of
        Some a \<Rightarrow> Ok a
      | None \<Rightarrow> Err (InvalidArg (''invalid address '' @ [CHR 0x27] @ s @ [CHR 0x27] @ '': '' @ addr_parse_error)))"

record alknet_serve_options =
  ns_transport :: string
  ns_host_key :: "napi_key option"
  ns_authorized_keys :: "napi_key option"
  ns_cert_authority :: "napi_key option"
  ns_tls_cert :: "string option"
  ns_tls_key :: "string option"
  ns_acme_domain :: "string option"
  ns_listen :: "string option"
  ns_iroh_relay :: "string option"
  ns_proxy :: "string option"

definition napi_transport_mode :: "string \<Rightarrow> napi_error + serve_transport_mode" where
  "napi_transport_mode t =
     (let s = to_lowercase t in
      if s = ''tcp'' then Ok ModeTcp
      else if s = ''tls'' then Ok ModeTls
      else if s = ''iroh'' then Ok ModeIroh
      else Err (InvalidArg (''unknown transport '' @ [CHR 0x27] @ s @ [CHR 0x27] @ ''; expected tcp, tls, or iroh'')))"

text \<open>The options for the server that \<open>serve\<close> builds. The proxy is not passed on.\<close>

definition napi_serve_options :: "alknet_serve_options \<Rightarrow> napi_error + serve_options" where
  "napi_serve_options opts =
     result_bind (resolve_key_source (ns_host_key opts) ''hostKey'') (\<lambda>host_key.
     result_bind (napi_transport_mode (ns_transport opts)) (\<lambda>mode.
       let o1 = set_listen_addr (case ns_listen opts of Some a \<Rightarrow> a | None \<Rightarrow> ''0.0.0.0:22'')
             (set_transport_mode mode (serve_options_new host_key));
           o2 = apply_opt set_authorized_keys (resolve_optional_key_source (ns_authorized_keys opts)) o1;
           o3 = apply_opt set_cert_authority (resolve_optional_key_source (ns_cert_authority opts)) o2;
           o4 = apply_opt set_tls_cert (ns_tls_cert opts) o3;
           o5 = apply_opt set_tls_key (ns_tls_key opts) o4;
           o6 = apply_opt set_acme_domain (ns_acme_domain opts) o5 in
       Ok (apply_opt set_iroh_relay (ns_iroh_relay opts) o6)))"

section \<open>Forwarding policies\<close>

record forwarding_rule_config =
  rc_target :: string
  rc_action :: string
  rc_principals :: "string list option"

record forwarding_policy_config =
  pc_default :: string
  pc_rules :: "forwarding_rule_config list option"

definition parse_forwarding_action :: "string \<Rightarrow> napi_error + forwarding_action" where
  "parse_forwarding_action a =
     (let s = to_lowercase a in
      if s = ''allow'' then Ok Allow
      else if s = ''deny'' then Ok Deny
      else Err (InvalidArg (''invalid forwarding action '' @ [CHR 0x27] @ s @ [CHR 0x27] @
        ''; expected 'allow' or 'deny'' @ [CHR 0x27])))"

text \<open>The pattern of a target with a colon: all ports, or a range of ports; \<open>None\<close> falls through.\<close>

definition parse_host_port_pattern :: "string \<Rightarrow> 'net target_pattern option" where
  "parse_host_port_pattern tgt =
     (case str_rfind tgt (CHR '':'') of
        None \<Rightarrow> None
      | Some colon_pos \<Rightarrow>
          let host_part = take colon_pos tgt; port_part = drop (colon_pos + 1) tgt in
          if port_part = ''*'' then Some (Host host_part)
          else case str_find port_part (CHR ''-'') of
            None \<Rightarrow> None
          | Some dash_pos \<Rightarrow>
              (case (parse_u16 (take dash_pos port_part), parse_u16 (drop (dash_pos + 1) port_part)) of
                 (Ok start, Ok stop) \<Rightarrow> Some (PortRange host_part start stop)
               | _ \<Rightarrow> None))"

definition parse_target_pattern :: "'net net_api \<Rightarrow> string \<Rightarrow> napi_error + 'net target_pattern" where
  "parse_target_pattern nets tgt =
     (if tgt = ''*'' then Ok AnyTarget
      else if starts_with tgt ''alknet-'' then Ok AlknetPrefix
      else case parse_host_port_pattern tgt of
        Some p \<Rightarrow> Ok p
      | None \<Rightarrow>
          (case net_from_str nets tgt of
             Some network \<Rightarrow> Ok (Cidr network)
           | None \<Rightarrow> Ok (Host tgt)))"

fun build_rules :: "'net net_api \<Rightarrow> forwarding_rule_config list \<Rightarrow> napi_error + 'net forwarding_rule list" where
  "build_rules nets [] = Ok []"
| "build_rules nets (rc # rcs) =
     result_bind (parse_target_pattern nets (rc_target rc)) (\<lambda>tgt.
     result_bind (parse_forwarding_action (rc_action rc)) (\<lambda>act.
     result_bind (build_rules nets rcs) (\<lambda>rs.
       Ok (\<lparr>target = tgt, action = act,
            principals = (case rc_principals rc of Some ps \<Rightarrow> ps | None \<Rightarrow> []), transports = []\<rparr> # rs))))"

definition build_forwarding_policy ::
  "'net net_api \<Rightarrow> forwarding_policy_config \<Rightarrow> napi_error + 'net forwarding_policy" where
  "build_forwarding_policy nets config =
     result_bind (parse_forwarding_action (pc_default config)) (\<lambda>dflt.
     result_bind (build_rules nets (case pc_rules config of Some rs \<Rightarrow> rs | None \<Rightarrow> [])) (\<lambda>rs.
       Ok \<lparr>policy_default = dflt, rules = rs\<rparr>))"

section \<open>Keys and reloads\<close>

record auth_config_napi =
  an_authorized_keys :: "bytes option"
  an_cert_authority :: "bytes option"

definition build_auth_policy_from_napi ::
  "('key, 'kd, 'sk) key_env \<Rightarrow> auth_config_napi \<Rightarrow> (napi_error + 'key auth_policy) outcome" where
  "build_auth_policy_from_napi env a =
     outcome_bind (from_keys_and_ca (ke_api env) (ke_fs env) (ke_parse_public_key env)
       (map_option Memory (an_authorized_keys a)) (map_option Memory (an_cert_authority a))) (\<lambda>r.
     Returns (case r of
       Err e \<Rightarrow> Err (InvalidArg (''auth config error: '' @ show_config_error e))
     | Ok c \<Rightarrow> Ok (from_server_auth_config (ke_api env) c)))"

definition reload_auth ::
  "('key, 'kd, 'sk) key_env \<Rightarrow> auth_config_napi \<Rightarrow> ('key, 'net) dynamic_config \<Rightarrow>
   ((napi_error + unit) \<times> ('key, 'net) dynamic_config) outcome" where
  "reload_auth env a cell =
     outcome_bind (build_auth_policy_from_napi env a) (\<lambda>r. Returns (
       case r of
         Err e \<Rightarrow> (Err e, cell)
       | Ok p \<Rightarrow> (Ok (), reload (from_parts p (forwarding cell) (rate_limits cell)) cell)))"

definition reload_forwarding ::
  "'net net_api \<Rightarrow> forwarding_policy_config \<Rightarrow> ('key, 'net) dynamic_config \<Rightarrow>
   (napi_error + unit) \<times> ('key, 'net) dynamic_config" where
  "reload_forwarding nets policy cell =
     (case build_forwarding_policy nets policy of
        Err e \<Rightarrow> (Err e, cell)
      | Ok f \<Rightarrow> (Ok (), reload (from_parts (auth cell) f (rate_limits cell)) cell))"

definition reload_all ::
  "('key, 'kd, 'sk) key_env \<Rightarrow> 'net net_api \<Rightarrow> auth_config_napi \<Rightarrow> forwarding_policy_config \<Rightarrow>
   ('key, 'net) dynamic_config \<Rightarrow> ((napi_error + unit) \<times> ('key, 'net) dynamic_config) outcome" where
  "reload_all env nets a policy cell =
     outcome_bind (build_auth_policy_from_napi env a) (\<lambda>r. Returns (
       case r of
         Err e \<Rightarrow> (Err e, cell)
       | Ok p \<Rightarrow>
           (case build_forwarding_policy nets policy of
              Err e \<Rightarrow> (Err e, cell)
            | Ok f \<Rightarrow> (Ok (), reload (from_parts p f (rate_limits cell)) cell))))"

section \<open>The handler\<close>

record napi_server_handler =
  nh_transport :: transport_kind
  nh_remote_addr :: "socket_addr option"
  nh_connection_allowed :: bool
  nh_auth_limiter :: auth_attempt_limiter
  nh_identity :: "identity option"

definition napi_handler_new ::
  "transport_kind \<Rightarrow> socket_addr option \<Rightarrow> nat \<Rightarrow> connection_rate_limiter \<Rightarrow> napi_server_handler \<times> connection_rate_limiter" where
  "napi_handler_new transport addr n l =
     (let (ok, l') =
        (case addr of
           Some a \<Rightarrow>
             if check_connection l (sa_ip a) then (True, on_connect (sa_ip a) l) else (False, l)
         | None \<Rightarrow> (True, l)) in
      (\<lparr>nh_transport = transport, nh_remote_addr = addr, nh_connection_allowed = ok,
        nh_auth_limiter = auth_attempt_limiter_new n, nh_identity = None\<rparr>, l'))"

definition napi_handler_drop :: "napi_server_handler \<Rightarrow> connection_rate_limiter \<Rightarrow> connection_rate_limiter" where
  "napi_handler_drop h l =
     (case nh_remote_addr h of
        Some a \<Rightarrow> if nh_connection_allowed h then on_disconnect (sa_ip a) l else l
      | None \<Rightarrow> l)"

definition napi_auth_publickey ::
  "(string \<Rightarrow> identity option) \<Rightarrow> string \<Rightarrow> napi_server_handler \<Rightarrow> auth \<times> napi_server_handler" where
  "napi_auth_publickey prov fp h =
     (if \<not> check_attempts (nh_auth_limiter h) then (Reject, h)
      else case prov fp of
             Some i \<Rightarrow> (Accept, h\<lparr>nh_identity := Some i\<rparr>)
           | None \<Rightarrow> (Reject, h\<lparr>nh_auth_limiter := on_failure (nh_auth_limiter h)\<rparr>))"

text \<open>The answer, and whether the channel was handed to JavaScript; otherwise it is dropped.\<close>

definition napi_channel_open_direct_tcpip ::
  "('net \<Rightarrow> ip_addr \<Rightarrow> bool) \<Rightarrow> bool \<Rightarrow> ('key, 'net) dynamic_config \<Rightarrow> string \<Rightarrow> u32 \<Rightarrow> napi_server_handler \<Rightarrow> bool \<times> bool" where
  "napi_channel_open_direct_tcpip contains sender_open cfg host port h =
     (if starts_with host ''alknet-'' then (True, sender_open)
      else
        let i = (case nh_identity h of Some i \<Rightarrow> i | None \<Rightarrow> anonymous_identity) in
        if \<not> policy_check contains (forwarding cfg) host (ucast port) i (nh_transport h) then (False, False)
        else (True, False))"

fun napi_channel_open_other :: "other_channel \<Rightarrow> napi_server_handler \<Rightarrow> bool" where
  "napi_channel_open_other OpenSession h = False"
| "napi_channel_open_other OpenX11 h = False"
| "napi_channel_open_other (OpenForwardedTcpip host port) h = False"

fun napi_channel_request :: "channel_request \<Rightarrow> napi_server_handler \<Rightarrow> request_reply" where
  "napi_channel_request (ExecRequest data) h = ChannelFailure"
| "napi_channel_request ShellRequest h = ChannelFailure"
| "napi_channel_request (SubsystemRequest name) h = ChannelFailure"
| "napi_channel_request (PtyRequest term) h = ChannelFailure"
| "napi_channel_request (EnvRequest name val) h = ChannelFailure"
| "napi_channel_request X11Request h = ChannelFailure"

fun napi_connection_request :: "connection_request \<Rightarrow> napi_server_handler \<Rightarrow> request_reply" where
  "napi_connection_request AgentRequest h = Refuse"
| "napi_connection_request (TcpipForward addr port) h = Refuse"
| "napi_connection_request (CancelTcpipForward addr port) h = Refuse"
| "napi_connection_request (StreamlocalForward path) h = Refuse"
| "napi_connection_request (Signal sig) h = Ignore"

interpretation nh: ssh_handler "napi_handler_new transport" napi_handler_drop napi_auth_publickey
  nh_remote_addr nh_connection_allowed nh_auth_limiter nh_identity for transport
proof unfold_locales
  fix addr n l h l'
  assume "napi_handler_new transport addr n l = (h, l')"
  then show "nh_remote_addr h = addr \<and> crl.admit (map_option sa_ip addr) l = (nh_connection_allowed h, l') \<and>
      nh_auth_limiter h = auth_attempt_limiter_new n \<and> nh_identity h = None"
    by (auto simp: napi_handler_new_def crl.admit_def split: option.splits if_splits)
next
  fix h l
  show "napi_handler_drop h l =
      crl.release (map_option sa_ip (nh_remote_addr h)) (nh_connection_allowed h) l"
    by (simp add: napi_handler_drop_def crl.release_def split: option.split)
qed (auto simp: napi_auth_publickey_def split: if_splits option.splits)

lemma napi_handler_locks_out:
  assumes "check_attempts (nh_auth_limiter h) = False"
  shows "fst (napi_auth_publickey prov fp h) = Reject"
  using assms by (simp add: napi_auth_publickey_def)

lemma napi_forwards_nothing:
  assumes "\<not> starts_with host ''alknet-''"
  shows "snd (napi_channel_open_direct_tcpip contains sender_open cfg host port h) = False"
  using assms by (simp add: napi_channel_open_direct_tcpip_def Let_def)

section \<open>Streams and the server object\<close>

definition stream_read :: "u32 \<Rightarrow> stream \<Rightarrow> (napi_error + bytes) \<times> stream" where
  "stream_read n s =
     (case st_read (unat n) s of
        (Err e, s') \<Rightarrow> (Err (GenericFailure (''read failed: '' @ io_message e)), s')
      | (Ok bs, s') \<Rightarrow> (Ok bs, s'))"

definition stream_write :: "bytes \<Rightarrow> stream \<Rightarrow> (napi_error + unit) \<times> stream" where
  "stream_write data s =
     (case st_write_all data s of
        (Err e, s') \<Rightarrow> (Err (GenericFailure (''write failed: '' @ io_message e)), s')
      | (Ok _, s') \<Rightarrow> (Ok (), s'))"

definition stream_close :: "stream \<Rightarrow> (napi_error + unit) \<times> stream" where
  "stream_close = io_map_err (\<lambda>e. GenericFailure (''close failed: '' @ io_message e)) st_close"

text \<open>\<open>as_callback\<close> says whether JavaScript has registered its callback.\<close>

record ('key, 'net) alknet_server =
  as_shutdown :: bool
  as_listen_addr :: string
  as_endpoint_id :: "string option"
  as_callback :: bool
  as_config :: "('key, 'net) dynamic_config"

definition server_close :: "('key, 'net) alknet_server \<Rightarrow> ('key, 'net) alknet_server" where
  "server_close s = s\<lparr>as_shutdown := True\<rparr>"

definition on_connection :: "('key, 'net) alknet_server \<Rightarrow> ('key, 'net) alknet_server" where
  "on_connection s = s\<lparr>as_callback := True\<rparr>"

section \<open>Serving\<close>

text \<open>What the transports and the TLS and iroh libraries do, and the file system.\<close>

record ('cert, 'pk) napi_transports =
  nt_read_file :: "string \<Rightarrow> string + bytes"
  nt_parse_certs :: "bytes \<Rightarrow> string + 'cert list"
  nt_parse_key :: "bytes \<Rightarrow> string + 'pk option"
  nt_parse_relay :: "string \<Rightarrow> string + string"
  nt_parse_url :: "string \<Rightarrow> string + string"
  nt_bind_tcp :: "socket_addr \<Rightarrow> string + socket_addr"
  nt_bind_tls :: "socket_addr \<Rightarrow> 'cert list \<Rightarrow> 'pk \<Rightarrow> string + socket_addr"
  nt_bind_iroh :: "string option \<Rightarrow> string option \<Rightarrow> string + string"

definition opt_parse :: "string \<Rightarrow> (string \<Rightarrow> string + string) \<Rightarrow> string option \<Rightarrow> napi_error + string option" where
  "opt_parse what parse x =
     (case x of
        None \<Rightarrow> Ok None
      | Some u \<Rightarrow> (case parse u of Ok v \<Rightarrow> Ok (Some v) | Err e \<Rightarrow> Err (InvalidArg (what @ '': '' @ e))))"

text \<open>Binding the acceptor of the chosen transport: the address and the endpoint that JavaScript sees, and
  the kind of transport the connections are said to have.\<close>

fun napi_bind ::
  "('cert, 'pk) napi_transports \<Rightarrow> alknet_serve_options \<Rightarrow> serve_transport_mode \<Rightarrow>
   napi_error + string \<times> string option \<times> transport_kind" where
  "napi_bind nt opts ModeTcp =
     result_bind (parse_addr (case ns_listen opts of Some a \<Rightarrow> a | None \<Rightarrow> ''0.0.0.0:22'')) (\<lambda>addr.
     result_bind (map_err (\<lambda>e. GenericFailure (''tcp bind failed: '' @ e)) (nt_bind_tcp nt addr)) (\<lambda>actual.
       Ok (show_socket_addr actual, None, Tcp)))"
| "napi_bind nt opts ModeTls =
     result_bind (parse_addr (case ns_listen opts of Some a \<Rightarrow> a | None \<Rightarrow> ''0.0.0.0:22'')) (\<lambda>addr.
     case ns_tls_cert opts of
       None \<Rightarrow> Err (InvalidArg ''tlsCert is required for TLS transport'')
     | Some cert_path \<Rightarrow>
     (case ns_tls_key opts of
        None \<Rightarrow> Err (InvalidArg ''tlsKey is required for TLS transport'')
      | Some key_path \<Rightarrow>
     result_bind (map_err (\<lambda>e. InvalidArg (''failed to read TLS cert '' @ [CHR 0x27] @ cert_path @ [CHR 0x27] @ '': '' @ e))
       (nt_read_file nt cert_path)) (\<lambda>cert_data.
     result_bind (map_err (\<lambda>e. InvalidArg (''failed to read TLS key '' @ [CHR 0x27] @ key_path @ [CHR 0x27] @ '': '' @ e))
       (nt_read_file nt key_path)) (\<lambda>key_data.
     result_bind (map_err (\<lambda>e. InvalidArg (''failed to parse TLS certificates: '' @ e)) (nt_parse_certs nt cert_data)) (\<lambda>certs.
     result_bind (map_err (\<lambda>e. InvalidArg (''failed to parse TLS private key: '' @ e)) (nt_parse_key nt key_data)) (\<lambda>k.
     case k of
       None \<Rightarrow> Err (InvalidArg (''no private key found in '' @ key_path))
     | Some key \<Rightarrow>
     result_bind (map_err (\<lambda>e. GenericFailure (''tls bind failed: '' @ e)) (nt_bind_tls nt addr certs key)) (\<lambda>actual.
       Ok (show_socket_addr actual, None, Tls None))))))))"
| "napi_bind nt opts ModeIroh =
     result_bind (opt_parse ''invalid iroh relay URL'' (nt_parse_relay nt) (ns_iroh_relay opts)) (\<lambda>relay.
     result_bind (opt_parse ''invalid proxy URL'' (nt_parse_url nt) (ns_proxy opts)) (\<lambda>proxy.
     result_bind (map_err (\<lambda>e. GenericFailure (''iroh bind failed: '' @ e)) (nt_bind_iroh nt relay proxy)) (\<lambda>endpoint_id.
       Ok ([], Some endpoint_id, Iroh endpoint_id))))"

definition napi_serve ::
  "('key, 'kd, 'sk) key_env \<Rightarrow> ('cert, 'pk) napi_transports \<Rightarrow> alknet_serve_options \<Rightarrow>
   (napi_error + ('key, 'net) alknet_server \<times> connection_rate_limiter \<times> transport_kind) outcome" where
  "napi_serve env nt opts =
     (case napi_serve_options opts of
        Err e \<Rightarrow> Returns (Err e)
      | Ok serve_opts \<Rightarrow>
     outcome_bind (server_new env serve_opts) (\<lambda>r.
     case r of
       Err e \<Rightarrow> Returns (Err (InvalidArg (''server config error: '' @ show_serve_error e)))
     | Ok core_server \<Rightarrow>
     outcome_bind (from_keys_and_ca (ke_api env) (ke_fs env) (ke_parse_public_key env)
       (resolve_optional_key_source (ns_authorized_keys opts))
       (resolve_optional_key_source (ns_cert_authority opts))) (\<lambda>a. Returns (
     result_bind (map_err (\<lambda>e. InvalidArg (''auth config error: '' @ show_config_error e)) a) (\<lambda>c.
     let current = srv_dynamic core_server;
         config = reload (from_parts (from_server_auth_config (ke_api env) c) (forwarding current) (rate_limits current)) current in
     result_bind (napi_bind nt opts (so_transport_mode serve_opts)) (\<lambda>(addr, endpoint, kind).
     result_bind (map_err (\<lambda>e. InvalidArg (''host key error: '' @ show_config_error e))
       (load_private_key (ke_fs env) (ke_decode_secret_key env) (so_key serve_opts))) (\<lambda>_.
       Ok (\<lparr>as_shutdown = False, as_listen_addr = addr, as_endpoint_id = endpoint, as_callback = False,
            as_config = config\<rparr>, connection_rate_limiter_new 0, kind))))))))"

text \<open>The accept loop: a connection gets a handler with ten attempts, which is dropped at once when it is
  not allowed, and then its SSH session runs.\<close>

definition napi_accept ::
  "transport_kind \<Rightarrow> socket_addr option \<Rightarrow> connection_rate_limiter \<Rightarrow> napi_server_handler option \<times> connection_rate_limiter" where
  "napi_accept kind addr l =
     (let (h, l') = napi_handler_new kind addr 10 l in
      if nh_connection_allowed h then (Some h, l') else (None, napi_handler_drop h l'))"

text \<open>What JavaScript gets for a channel that was handed over: nothing, unless a callback is registered.\<close>

record connection_info =
  ci_remote_addr :: "string option"
  ci_transport_kind :: string

definition napi_deliver ::
  "('key, 'net) alknet_server \<Rightarrow> transport_kind \<Rightarrow> socket_addr option \<Rightarrow> connection_info option" where
  "napi_deliver s kind addr =
     (if as_callback s then
        Some \<lparr>ci_remote_addr = map_option show_socket_addr addr, ci_transport_kind = show_transport_kind kind\<rparr>
      else None)"

text \<open>The limit of connections is off: every connection is accepted.\<close>

lemma napi_accepts_all: "fst (napi_accept kind addr (connection_rate_limiter_new 0)) \<noteq> None"
  by (auto simp: napi_accept_def napi_handler_new_def connection_rate_limiter_new_def check_connection_def
      split: option.split)

text \<open>A server with a certificate from ACME passes the validation of the core server and is refused here.\<close>

lemma napi_refuses_acme:
  assumes "ns_tls_cert opts = None"
  shows "\<exists>e. napi_bind nt opts ModeTls = Err e"
  using assms by (simp add: result_bind_def split: sum.split)

section \<open>What a rule means\<close>

lemma starts_with_no_sep:
  "c \<notin> set p \<Longrightarrow> starts_with (h @ c # t) p \<longleftrightarrow> starts_with h p"
proof (induction h arbitrary: p)
  case Nil
  then show ?case
    by (cases p) (auto simp: starts_with_iff)
next
  case (Cons a h)
  then show ?case
    by (cases p) (auto simp: starts_with_iff Cons_eq_append_conv)
qed

lemma parse_target_pattern_colon:
  assumes "\<not> starts_with h ''alknet-''" and "CHR '':'' \<notin> set t"
  shows "parse_target_pattern nets (h @ CHR '':'' # t) =
    (if t = ''*'' then Ok (Host h)
     else case str_find t (CHR ''-'') of
       Some i \<Rightarrow>
         (case (parse_u16 (take i t), parse_u16 (drop (i + 1) t)) of
            (Ok start, Ok stop) \<Rightarrow> Ok (PortRange h start stop)
          | _ \<Rightarrow> (case net_from_str nets (h @ CHR '':'' # t) of
                 Some network \<Rightarrow> Ok (Cidr network) | None \<Rightarrow> Ok (Host (h @ CHR '':'' # t))))
     | None \<Rightarrow> (case net_from_str nets (h @ CHR '':'' # t) of
                 Some network \<Rightarrow> Ok (Cidr network) | None \<Rightarrow> Ok (Host (h @ CHR '':'' # t))))"
proof -
  have star: "h @ CHR '':'' # t \<noteq> ''*''"
    by (cases h) auto
  have "\<not> starts_with (h @ CHR '':'' # t) ''alknet-''"
    using assms(1) by (simp add: starts_with_no_sep)
  then show ?thesis
    using star str_rfind_append [OF assms(2), of h]
    by (simp add: parse_target_pattern_def parse_host_port_pattern_def Let_def
        split: option.split sum.split)
qed

lemma match_host_pattern_keeps_chars:
  assumes "match_host_pattern pattern t" and "c \<in> set pattern" and "c \<noteq> CHR ''*''"
  shows "c \<in> set t"
proof (cases "CHR ''*'' \<in> set pattern")
  case False
  then show ?thesis
    using assms by (simp add: match_host_pattern_no_star)
next
  case True
  then obtain pre suf where "pattern = pre @ CHR ''*'' # suf" and "CHR ''*'' \<notin> set pre"
    by (meson split_list_first)
  then show ?thesis
    using assms by (auto simp: match_host_pattern_star)
qed

lemma parse_forwarding_action_Ok_iff:
  "(\<exists>a. parse_forwarding_action s = Ok a) \<longleftrightarrow> to_lowercase s \<in> {''allow'', ''deny''}"
  by (simp add: parse_forwarding_action_def Let_def)

lemma parse_target_pattern_total: "\<exists>p. parse_target_pattern nets s = Ok p"
  by (simp add: parse_target_pattern_def split: option.split)

lemma build_rules_Ok_iff:
  "(\<exists>rs. build_rules nets rcs = Ok rs) \<longleftrightarrow>
     (\<forall>rc \<in> set rcs. to_lowercase (rc_action rc) \<in> {''allow'', ''deny''})"
proof (induction rcs)
  case (Cons rc rcs)
  obtain p where "parse_target_pattern nets (rc_target rc) = Ok p"
    using parse_target_pattern_total by blast
  then show ?case
    using Cons.IH parse_forwarding_action_Ok_iff [of "rc_action rc"]
    by (cases "parse_forwarding_action (rc_action rc)"; cases "build_rules nets rcs")
      (auto simp: result_bind_def)
qed simp

text \<open>C36. In the rules that JavaScript configures, host:a-b names the ports from a up to but excluding
  b on the hosts that match host. A single port does not do what it says: unless the text happens to
  be a network, host:p becomes a host pattern with a colon in it, which matches no host name or IPv4
  address on any port, so an allow rule for it permits nothing and a deny rule for it forbids nothing.\<close>

theorem napi_port_rules:
  fixes a b p :: u16
  assumes "\<not> starts_with h ''alknet-''"
  shows "(\<exists>pat. parse_target_pattern nets (h @ '':'' @ show_nat (unat a) @ ''-'' @ show_nat (unat b)) = Ok pat \<and>
      (\<forall>t q. target_matches contains pat t q \<longleftrightarrow> match_host_pattern h t \<and> a \<le> q \<and> q < b)) \<and>
    (net_from_str nets (h @ '':'' @ show_nat (unat p)) = None \<longrightarrow>
     (\<exists>pat. parse_target_pattern nets (h @ '':'' @ show_nat (unat p)) = Ok pat \<and>
       (\<forall>t q. CHR '':'' \<notin> set t \<longrightarrow> \<not> target_matches contains pat t q)))"
proof -
  let ?r = "show_nat (unat a) @ CHR ''-'' # show_nat (unat b)"
  have chars: "CHR '':'' \<notin> set (show_nat n)" "CHR ''-'' \<notin> set (show_nat n)" "show_nat n \<noteq> ''*''"
      "CHR ''*'' \<notin> set (show_nat n)" for n
    using show_nat_no_char [of "CHR '':''" n] show_nat_no_char [of "CHR ''-''" n]
      show_nat_no_char [of "CHR ''*''" n] by auto
  have "?r \<noteq> ''*''"
    by (cases "show_nat (unat a)") (use show_nat_not_Nil in auto)
  moreover have "str_find ?r (CHR ''-'') = Some (length (show_nat (unat a)))"
    using chars(2) by (rule str_find_append)
  ultimately have "parse_target_pattern nets (h @ CHR '':'' # ?r) = Ok (PortRange h a b)"
    using assms chars by (subst parse_target_pattern_colon) (simp_all add: parse_u16_show)
  moreover have "parse_target_pattern nets (h @ CHR '':'' # show_nat (unat p)) =
      Ok (Host (h @ CHR '':'' # show_nat (unat p)))"
    if "net_from_str nets (h @ CHR '':'' # show_nat (unat p)) = None"
  proof -
    have "str_find (show_nat (unat p)) (CHR ''-'') = None"
      using chars(2) by (simp add: str_find_None_iff)
    then show ?thesis
      using assms chars that by (subst parse_target_pattern_colon) simp_all
  qed
  moreover have "\<not> match_host_pattern (h @ CHR '':'' # show_nat (unat p)) t" if "CHR '':'' \<notin> set t" for t
    using match_host_pattern_keeps_chars [where c = "CHR '':''"] that by fastforce
  ultimately show ?thesis
    by simp
qed

definition no_networks :: "unit net_api" where
  "no_networks = \<lparr>net_from_str = (\<lambda>_. None), net_contains = (\<lambda>_ _. False)\<rparr>"

theorem napi_port_rules_witness:
  "\<not> starts_with ''db'' ''alknet-'' \<and>
   (\<exists>pat. parse_target_pattern no_networks (''db'' @ '':'' @ show_nat (unat (5432 :: u16))) = Ok pat \<and>
     \<not> target_matches (net_contains no_networks) pat ''db'' 5432)"
proof -
  have h: "\<not> starts_with ''db'' ''alknet-''"
    by code_simp
  have n: "net_from_str no_networks t = None" for t
    by (simp add: no_networks_def)
  show ?thesis
    using napi_port_rules [OF h, of no_networks 0 0 "net_contains no_networks" 5432] h n by auto
qed

text \<open>C31. Reloading the forwarding rules is all or nothing: it succeeds exactly when the default and every
  rule name an action, and otherwise the configuration stays as it was. A successful reload puts the
  new rules in force and keeps the keys and the limits, but it loses every stored credential.\<close>

theorem napi_reload_forwarding:
  "(case reload_forwarding nets policy cell of
      (Ok _, cell') \<Rightarrow>
        build_forwarding_policy nets policy = Ok (forwarding cell') \<and>
        auth cell' = auth cell \<and> rate_limits cell' = rate_limits cell \<and>
        config_get_credentials cell' service = None
    | (Err e, cell') \<Rightarrow> cell' = cell) \<and>
   (fst (reload_forwarding nets policy cell) = Ok () \<longleftrightarrow>
      list_all (\<lambda>s. to_lowercase s \<in> {''allow'', ''deny''})
        (pc_default policy # map rc_action (case pc_rules policy of Some rs \<Rightarrow> rs | None \<Rightarrow> [])))"
proof -
  let ?rs = "case pc_rules policy of Some rs \<Rightarrow> rs | None \<Rightarrow> []"
  show ?thesis
    using parse_forwarding_action_Ok_iff [of "pc_default policy"] build_rules_Ok_iff [of nets ?rs]
    by (cases "parse_forwarding_action (pc_default policy)"; cases "build_rules nets ?rs")
      (auto simp: reload_forwarding_def build_forwarding_policy_def result_bind_def reload_def from_parts_def
        config_get_credentials_def list_all_iff)
qed

end
