(* ===== verification/Lock_Order.thy ===== *)
theory Lock_Order
  imports Main
begin

text \<open>
  The asynchronous read-write locks of \<open>tokio::sync\<close>, as far as the order of acquisition goes. A task is
  the list of the locks it holds and the list of the acquisitions and releases it has still to do. A
  task first joins the queue and is granted the lock when it is the first in the queue to want it and
  no holder conflicts: any number of readers, or one writer, and first come first served. The lemmas
  give the classic result: tasks that acquire their locks in a common order cannot get stuck, and a
  run of them ends.
\<close>

datatype lock_mode = ReadLock | WriteLock

datatype 'l lock_op = Acquire 'l lock_mode | Release 'l

type_synonym 'l task = "('l \<times> lock_mode) list \<times> 'l lock_op list"

record 'l lock_state =
  tasks :: "'l task list"
  waiting :: "nat list"

fun wanted :: "'l task \<Rightarrow> ('l \<times> lock_mode) option" where
  "wanted (held, Acquire l m # ops) = Some (l, m)"
| "wanted (held, Release l # ops) = None"
| "wanted (held, []) = None"

definition wanted_lock :: "'l task \<Rightarrow> 'l option" where
  "wanted_lock t = map_option fst (wanted t)"

definition conflicts :: "lock_mode \<Rightarrow> 'l \<Rightarrow> 'l task \<Rightarrow> bool" where
  "conflicts m l t \<longleftrightarrow> (l, WriteLock) \<in> set (fst t) \<or> m = WriteLock \<and> l \<in> fst ` set (fst t)"

fun advance :: "'l task \<Rightarrow> 'l task" where
  "advance (held, Acquire l m # ops) = ((l, m) # held, ops)"
| "advance (held, Release l # ops) = (filter (\<lambda>h. fst h \<noteq> l) held, ops)"
| "advance (held, []) = (held, [])"

abbreviation finished :: "'l task \<Rightarrow> bool" where
  "finished t \<equiv> snd t = []"

inductive lock_step :: "'l lock_state \<Rightarrow> 'l lock_state \<Rightarrow> bool" where
  enqueue: "i < length (tasks s) \<Longrightarrow> wanted (tasks s ! i) \<noteq> None \<Longrightarrow> i \<notin> set (waiting s) \<Longrightarrow>
    lock_step s (s\<lparr>waiting := waiting s @ [i]\<rparr>)"
| grant: "waiting s = xs @ i # ys \<Longrightarrow> i < length (tasks s) \<Longrightarrow> wanted (tasks s ! i) = Some (l, m) \<Longrightarrow>
    (\<forall>j \<in> set xs. wanted_lock (tasks s ! j) \<noteq> Some l) \<Longrightarrow> (\<forall>t \<in> set (tasks s). \<not> conflicts m l t) \<Longrightarrow>
    lock_step s (s\<lparr>tasks := (tasks s)[i := advance (tasks s ! i)], waiting := xs @ ys\<rparr>)"
| release: "i < length (tasks s) \<Longrightarrow> snd (tasks s ! i) = Release l # ops \<Longrightarrow>
    lock_step s (s\<lparr>tasks := (tasks s)[i := advance (tasks s ! i)]\<rparr>)"

definition start_tasks :: "'l lock_op list list \<Rightarrow> 'l lock_state" where
  "start_tasks ps = \<lparr>tasks = map (\<lambda>p. ([], p)) ps, waiting = []\<rparr>"

section \<open>Invariants\<close>

text \<open>Every acquisition is of a lock above all that are held, and everything is released at the end.\<close>

fun ordered :: "('l \<Rightarrow> nat) \<Rightarrow> ('l \<times> lock_mode) list \<Rightarrow> 'l lock_op list \<Rightarrow> bool" where
  "ordered rank held [] \<longleftrightarrow> held = []"
| "ordered rank held (Acquire l m # ops) \<longleftrightarrow>
     list_all (\<lambda>h. rank (fst h) < rank l) held \<and> ordered rank ((l, m) # held) ops"
| "ordered rank held (Release l # ops) \<longleftrightarrow> ordered rank (filter (\<lambda>h. fst h \<noteq> l) held) ops"

definition tasks_ordered :: "('l \<Rightarrow> nat) \<Rightarrow> 'l lock_state \<Rightarrow> bool" where
  "tasks_ordered rank s \<longleftrightarrow> list_all (\<lambda>t. ordered rank (fst t) (snd t)) (tasks s)"

definition lock_wf :: "'l lock_state \<Rightarrow> bool" where
  "lock_wf s \<longleftrightarrow> distinct (waiting s) \<and>
     (\<forall>i \<in> set (waiting s). i < length (tasks s) \<and> wanted (tasks s ! i) \<noteq> None)"

lemma ordered_advance: "ordered rank (fst t) (snd t) \<Longrightarrow> ordered rank (fst (advance t)) (snd (advance t))"
  by (cases t rule: advance.cases) simp_all

lemma lock_step_ordered: "lock_step s s' \<Longrightarrow> tasks_ordered rank s \<Longrightarrow> tasks_ordered rank s'"
  by (induction rule: lock_step.induct)
    (simp_all add: tasks_ordered_def list_all_length ordered_advance nth_list_update)

lemma lock_step_wf: "lock_step s s' \<Longrightarrow> lock_wf s \<Longrightarrow> lock_wf s'"
proof (induction rule: lock_step.induct)
  case (release i s l ops)
  moreover have "wanted (tasks s ! i) = None"
    using release by (metis prod.collapse wanted.simps(2))
  ultimately show ?case
    by (auto simp: lock_wf_def nth_list_update)
qed (auto simp: lock_wf_def nth_list_update)

lemma lock_wf_start [simp]: "lock_wf (start_tasks ps)"
  by (simp add: lock_wf_def start_tasks_def)

lemma tasks_ordered_start: "tasks_ordered rank (start_tasks ps) \<longleftrightarrow> list_all (ordered rank []) ps"
  by (simp add: tasks_ordered_def start_tasks_def list_all_iff)

section \<open>Progress\<close>

lemma wanted_Some_iff: "wanted t = Some (l, m) \<longleftrightarrow> (\<exists>ops. snd t = Acquire l m # ops)"
  by (cases t rule: wanted.cases) auto

lemma unfinished_cases:
  assumes "\<not> finished t"
  obtains (waits) l m where "wanted t = Some (l, m)" | (releases) l ops where "snd t = Release l # ops"
  using assms by (cases t rule: wanted.cases) auto

lemma ordered_wanted_above:
  "ordered rank (fst t) (snd t) \<Longrightarrow> wanted t = Some (l, m) \<Longrightarrow> h \<in> fst ` set (fst t) \<Longrightarrow> rank h < rank l"
  by (cases t rule: wanted.cases) (auto simp: list_all_iff)

lemma conflicts_holds: "conflicts m l t \<Longrightarrow> l \<in> fst ` set (fst t)"
  by (force simp: conflicts_def)

text \<open>In a stuck state every unfinished task waits in the queue, and a task that holds the lock wanted by
  the first to want it is itself unfinished and wants a lock above.\<close>

lemma stuck_waits:
  assumes "\<And>s'. \<not> lock_step s s'" and "i < length (tasks s)" and "\<not> finished (tasks s ! i)"
  obtains l m where "wanted (tasks s ! i) = Some (l, m)" and "i \<in> set (waiting s)"
  using assms(3)
proof (cases rule: unfinished_cases)
  case (waits l m)
  then have "wanted (tasks s ! i) \<noteq> None"
    by simp
  then have "i \<in> set (waiting s)"
    using assms(1) lock_step.enqueue [OF assms(2)] by blast
  then show ?thesis
    using waits by (intro that)
next
  case (releases l ops)
  then show ?thesis
    using lock_step.release [OF assms(2) releases] assms(1) by (simp only: simp_thms)
qed

lemma stuck_blocked:
  assumes "\<And>s'. \<not> lock_step s s'" and "i \<in> set (waiting s)" and "lock_wf s"
    and "wanted_lock (tasks s ! i) = Some l"
  shows "\<exists>t \<in> set (tasks s). l \<in> fst ` set (fst t)"
proof -
  obtain xs j ys where q: "waiting s = xs @ j # ys" and j: "wanted_lock (tasks s ! j) = Some l"
      and xs: "\<forall>k \<in> set xs. wanted_lock (tasks s ! k) \<noteq> Some l"
    using split_list_first_propE [of "waiting s" "\<lambda>k. wanted_lock (tasks s ! k) = Some l"] assms(2,4)
    by metis
  obtain m where m: "wanted (tasks s ! j) = Some (l, m)"
    using j by (auto simp: wanted_lock_def)
  have len: "j < length (tasks s)"
    using assms(3) q by (simp add: lock_wf_def)
  have "\<not> (\<forall>t \<in> set (tasks s). \<not> conflicts m l t)"
    using assms(1) lock_step.grant [OF q len m xs] by (rule contrapos_nn)
  then obtain t where "t \<in> set (tasks s)" and "conflicts m l t"
    by blast
  then show ?thesis
    by (intro bexI) (rule conflicts_holds)
qed

lemma ordered_progress:
  assumes "lock_wf s" and "tasks_ordered rank s" and "\<not> list_all finished (tasks s)"
  shows "\<exists>s'. lock_step s s'"
proof (rule ccontr)
  assume "\<nexists>s'. lock_step s s'"
  then have stuck: "\<And>s'. \<not> lock_step s s'"
    by blast
  define R where "R = {rank l | i l. i < length (tasks s) \<and> wanted_lock (tasks s ! i) = Some l}"
  have "R \<subseteq> (\<lambda>i. rank (the (wanted_lock (tasks s ! i)))) ` {..<length (tasks s)}"
    by (force simp: R_def)
  then have fin: "finite R"
    using finite_surj by blast
  have above: "\<exists>r' \<in> R. rank l < r'"
    if i: "i < length (tasks s)" and l: "wanted_lock (tasks s ! i) = Some l" for i l
  proof -
    have "\<not> finished (tasks s ! i)"
      using l by (cases "tasks s ! i" rule: wanted.cases) (auto simp: wanted_lock_def)
    then have "i \<in> set (waiting s)"
      using stuck_waits [OF stuck i] by blast
    then obtain k where k: "k < length (tasks s)" and holds: "l \<in> fst ` set (fst (tasks s ! k))"
      using stuck_blocked [OF stuck _ assms(1) l] by (metis in_set_conv_nth)
    have ord: "ordered rank (fst (tasks s ! k)) (snd (tasks s ! k))"
      using assms(2) k by (simp add: tasks_ordered_def list_all_length)
    have "\<not> finished (tasks s ! k)"
      using ord holds by auto
    then obtain l' m' where w: "wanted (tasks s ! k) = Some (l', m')"
      using stuck_waits [OF stuck k] by blast
    then have "rank l < rank l'"
      using ordered_wanted_above [OF ord] holds by blast
    then show ?thesis
      using k w by (auto simp: R_def wanted_lock_def)
  qed
  obtain i where i: "i < length (tasks s)" "\<not> finished (tasks s ! i)"
    using assms(3) by (auto simp: list_all_length)
  then obtain l m where "wanted (tasks s ! i) = Some (l, m)"
    using stuck_waits [OF stuck] by blast
  then have "R \<noteq> {}"
    using i by (force simp: R_def wanted_lock_def)
  then have "Max R \<in> R"
    using fin by simp
  then show False
    using above fin by (fastforce simp: R_def dest: Max_ge)
qed

section \<open>Termination\<close>

definition task_work :: "'l lock_state \<Rightarrow> nat \<Rightarrow> nat" where
  "task_work s i = 2 * length (snd (tasks s ! i)) - (if i \<in> set (waiting s) then 1 else 0)"

definition lock_work :: "'l lock_state \<Rightarrow> nat" where
  "lock_work s = (\<Sum>i < length (tasks s). task_work s i)"

lemma length_advance: "snd t \<noteq> [] \<Longrightarrow> length (snd (advance t)) = length (snd t) - 1"
  by (cases t rule: advance.cases) simp_all

lemma lock_work_less:
  assumes "length (tasks s') = length (tasks s)" and "i < length (tasks s)"
    and "task_work s' i < task_work s i"
    and "\<And>j. j \<noteq> i \<Longrightarrow> task_work s' j \<le> task_work s j"
  shows "lock_work s' < lock_work s"
  unfolding lock_work_def assms(1)
proof (rule sum_strict_mono_ex1)
  show "\<forall>j \<in> {..<length (tasks s)}. task_work s' j \<le> task_work s j"
    using assms(3,4) less_imp_le by metis
  show "\<exists>j \<in> {..<length (tasks s)}. task_work s' j < task_work s j"
    using assms(2,3) by (intro bexI [of _ i]) simp_all
qed simp

lemma lock_step_work: "lock_step s s' \<Longrightarrow> lock_wf s \<Longrightarrow> lock_work s' < lock_work s"
proof (induction rule: lock_step.induct)
  case (enqueue i s)
  have "snd (tasks s ! i) \<noteq> []"
    using enqueue.hyps(2) by (cases "tasks s ! i" rule: wanted.cases) auto
  then show ?case
    using enqueue.hyps(1,3) by (intro lock_work_less [where i = i]) (simp_all add: task_work_def)
next
  case (grant s xs i ys l m)
  obtain ops where "snd (tasks s ! i) = Acquire l m # ops"
    using grant.hyps(3) by (auto simp: wanted_Some_iff)
  moreover have "i \<notin> set xs" "i \<notin> set ys"
    using grant.prems grant.hyps(1) by (simp_all add: lock_wf_def)
  ultimately show ?case
    using grant.hyps(1,2) by (intro lock_work_less [where i = i])
      (simp_all add: task_work_def length_advance)
next
  case (release i s l ops)
  have "wanted (tasks s ! i) = None"
    using release.hyps(2) by (metis prod.collapse wanted.simps(2))
  then have "i \<notin> set (waiting s)"
    using release.prems by (auto simp: lock_wf_def)
  then show ?case
    using release.hyps by (intro lock_work_less [where i = i]) (simp_all add: task_work_def length_advance)
qed

lemma lock_steps_keep:
  assumes "(lock_step ^^ n) s s'" and "lock_wf s" and "tasks_ordered rank s"
  shows "lock_wf s' \<and> tasks_ordered rank s' \<and> n + lock_work s' \<le> lock_work s"
  using assms(1)
proof (induction n arbitrary: s')
  case (Suc n)
  then obtain s1 where "(lock_step ^^ n) s s1" and "lock_step s1 s'"
    by auto
  then show ?case
    using Suc.IH [of s1] lock_step_wf lock_step_ordered lock_step_work by fastforce
qed (use assms in auto)

lemma lock_work_start: "lock_work (start_tasks ps) = 2 * sum_list (map length ps)"
  by (simp add: lock_work_def task_work_def start_tasks_def sum_list_sum_nth sum_distrib_left atLeast0LessThan)

end
