(* ===== verification/Port_Forward.thy ===== *)
theory Port_Forward
  imports Channel_Proxy
begin

text \<open>
  \<open>client/forward.rs\<close>: port forwarding specifications, the local and the remote forwarder, and
  \<open>run_local_forwarders\<close>, which runs the local ones as tasks. Opening channels and requesting forwards
  are operations of the SSH library and appear as arguments. A task is polled with the accept results
  that are there; \<open>tokio::select!\<close> polls its branches in an order the poll names.
\<close>

section \<open>Specifications\<close>

datatype port_forward_spec_kind = LocalSpec | RemoteSpec

record port_forward_spec =
  pf_kind :: port_forward_spec_kind
  bind_addr :: string
  bind_port :: u16
  target_host :: string
  target_port :: u16

definition parse_port :: "string \<Rightarrow> string \<Rightarrow> forward_error + u16" where
  "parse_port spec s = (case parse_u16 s of Ok p \<Rightarrow> Ok p | Err _ \<Rightarrow> Err (InvalidSpec spec))"

definition parse_spec :: "string \<Rightarrow> forward_error + (string \<times> u16 \<times> string \<times> u16)" where
  "parse_spec spec =
     (case str_split spec (CHR '':'') of
        [a, b, c, d] \<Rightarrow>
          result_bind (parse_port spec b) (\<lambda>bp.
          result_bind (parse_port spec d) (\<lambda>tp.
            Ok (a, bp, c, tp)))
      | _ \<Rightarrow> Err (InvalidSpec spec))"

definition spec_of_parts :: "port_forward_spec_kind \<Rightarrow> string \<times> u16 \<times> string \<times> u16 \<Rightarrow> port_forward_spec" where
  "spec_of_parts k = (\<lambda>(a, bp, h, tp).
     \<lparr>pf_kind = k, bind_addr = a, bind_port = bp, target_host = h, target_port = tp\<rparr>)"

definition spec_local :: "string \<Rightarrow> forward_error + port_forward_spec" where
  "spec_local s = result_bind (parse_spec s) (\<lambda>p. Ok (spec_of_parts LocalSpec p))"

definition spec_remote :: "string \<Rightarrow> forward_error + port_forward_spec" where
  "spec_remote s = result_bind (parse_spec s) (\<lambda>p. Ok (spec_of_parts RemoteSpec p))"

definition spec_addr :: "string \<Rightarrow> u16 \<Rightarrow> forward_error + socket_addr" where
  "spec_addr host port =
     (let s = host @ '':'' @ show_nat (unat port) in
      case parse_socket_addr s of Some a \<Rightarrow> Ok a | None \<Rightarrow> Err (InvalidSpec s))"

definition listen_addr :: "port_forward_spec \<Rightarrow> forward_error + socket_addr" where
  "listen_addr spec = spec_addr (bind_addr spec) (bind_port spec)"

definition target_addr :: "port_forward_spec \<Rightarrow> forward_error + socket_addr" where
  "target_addr spec = spec_addr (target_host spec) (target_port spec)"

definition show_spec_body :: "port_forward_spec \<Rightarrow> string" where
  "show_spec_body spec =
     bind_addr spec @ '':'' @ show_nat (unat (bind_port spec)) @ '':'' @
     target_host spec @ '':'' @ show_nat (unat (target_port spec))"

definition show_port_forward_spec :: "port_forward_spec \<Rightarrow> string" where
  "show_port_forward_spec spec =
     (case pf_kind spec of LocalSpec \<Rightarrow> ''-L'' | RemoteSpec \<Rightarrow> ''-R'') @ '' '' @ show_spec_body spec"

section \<open>Local forwarder\<close>

text \<open>\<open>lf_listener\<close> says whether the forwarder holds a listener.\<close>

record local_forwarder =
  lf_spec :: port_forward_spec
  lf_listener :: bool

definition local_forwarder_new :: "port_forward_spec \<Rightarrow> forward_error + local_forwarder" where
  "local_forwarder_new spec =
     (if pf_kind spec \<noteq> LocalSpec then Err (InvalidSpec ''expected local spec, got Remote'')
      else Ok \<lparr>lf_spec = spec, lf_listener = False\<rparr>)"

definition local_forwarder_stop :: "local_forwarder \<Rightarrow> local_forwarder" where
  "local_forwarder_stop f = f\<lparr>lf_listener := False\<rparr>"

definition local_port :: "local_forwarder \<Rightarrow> u16" where
  "local_port f = bind_port (lf_spec f)"

text \<open>What \<open>accept\<close> returns, an error together with whether the SSH session is closed by then. The loop
  takes connections until it has to wait (\<open>None\<close>) or the session is closed.\<close>

datatype 'c accept_event = Accepted 'c | AcceptErr io_error bool

fun accept_loop :: "'c accept_event list \<Rightarrow> 'c list \<times> (forward_error + unit) option" where
  "accept_loop [] = ([], None)"
| "accept_loop (Accepted c # evs) = (let (cs, r) = accept_loop evs in (c # cs, r))"
| "accept_loop (AcceptErr e closed # evs) = (if closed then ([], Some (Ok ())) else accept_loop evs)"

definition local_forwarder_start ::
  "(socket_addr \<Rightarrow> io_error + unit) \<Rightarrow> local_forwarder \<Rightarrow> forward_error + local_forwarder" where
  "local_forwarder_start bind f =
     result_bind (listen_addr (lf_spec f)) (\<lambda>a.
       case bind a of
         Err e \<Rightarrow> Err (ForwardBindFailed e)
       | Ok _ \<Rightarrow> Ok (f\<lparr>lf_listener := True\<rparr>))"

text \<open>The task of one accepted connection: the channel, and then both copies until they end.\<close>

definition relay :: "stream \<Rightarrow> stream \<Rightarrow> stream \<times> stream" where
  "relay local_stream ssh_stream =
     (let (up_rest, ssh_stream') = st_copy (rx local_stream) ssh_stream;
          (down_rest, local_stream') = st_copy (rx ssh_stream) local_stream in
      (local_stream'\<lparr>rx := up_rest\<rparr>, ssh_stream'\<lparr>rx := down_rest\<rparr>))"

definition proxy_local_to_remote ::
  "(string \<Rightarrow> u32 \<Rightarrow> string \<Rightarrow> string + stream) \<Rightarrow> stream \<Rightarrow> socket_addr option \<Rightarrow> string \<Rightarrow> u16 \<Rightarrow>
   forward_error + (stream \<times> stream)" where
  "proxy_local_to_remote opener local_stream peer remote_host remote_port =
     (let local_addr = (case peer of Some a \<Rightarrow> show_socket_addr a | None \<Rightarrow> '''') in
      case opener remote_host (ucast remote_port) local_addr of
        Err e \<Rightarrow> Err (ChannelOpenFailed e)
      | Ok channel \<Rightarrow> Ok (relay local_stream channel))"

section \<open>Remote forwarder\<close>

text \<open>\<open>cancel\<close> is never anything but \<open>None\<close>, and stays so.\<close>

record remote_forwarder =
  rf_spec :: port_forward_spec
  rf_cancel :: "unit option"

definition remote_forwarder_new :: "port_forward_spec \<Rightarrow> forward_error + remote_forwarder" where
  "remote_forwarder_new spec =
     (if pf_kind spec \<noteq> RemoteSpec then Err (InvalidSpec ''expected remote spec, got Local'')
      else Ok \<lparr>rf_spec = spec, rf_cancel = None\<rparr>)"

type_synonym 'h forward_api = "string \<Rightarrow> u32 \<Rightarrow> 'h \<Rightarrow> (string + u32) \<times> 'h"

definition rf_register :: "'h forward_api \<Rightarrow> remote_forwarder \<Rightarrow> 'h \<Rightarrow> (forward_error + u32) \<times> 'h" where
  "rf_register tcpip_forward f h =
     (case tcpip_forward (bind_addr (rf_spec f)) (ucast (bind_port (rf_spec f))) h of
        (Ok port, h') \<Rightarrow> (Ok port, h')
      | (Err e, h') \<Rightarrow> (Err (ChannelOpenFailed e), h'))"

definition rf_unregister ::
  "(string \<Rightarrow> u32 \<Rightarrow> 'h \<Rightarrow> (string + unit) \<times> 'h) \<Rightarrow> remote_forwarder \<Rightarrow> 'h \<Rightarrow> (forward_error + unit) \<times> 'h" where
  "rf_unregister cancel_tcpip_forward f h =
     (case cancel_tcpip_forward (bind_addr (rf_spec f)) (ucast (bind_port (rf_spec f))) h of
        (Ok _, h') \<Rightarrow> (Ok (), h')
      | (Err e, h') \<Rightarrow> (Err (ChannelOpenFailed e), h'))"

definition rf_stop :: "remote_forwarder \<Rightarrow> remote_forwarder" where
  "rf_stop f = f\<lparr>rf_cancel := None\<rparr>"

definition handle_forwarded_channel ::
  "(string \<Rightarrow> io_error + stream) \<Rightarrow> stream \<Rightarrow> string \<Rightarrow> u16 \<Rightarrow> (stream \<times> stream) option" where
  "handle_forwarded_channel connect channel local_host lport =
     (case connect (local_host @ '':'' @ show_nat (unat lport)) of
        Err _ \<Rightarrow> None
      | Ok local_stream \<Rightarrow> Some (relay local_stream channel))"

section \<open>Running the local forwarders\<close>

text \<open>
  \<open>run_local_forwarders\<close> spawns a task per forwarder, which waits in a \<open>select!\<close> for the forwarder to end
  or for a cancellation. The sender of the cancellation is a variable of the loop body: it is dropped
  at the end of the iteration that created it, and the receiver of a dropped sender is ready.
\<close>

datatype task_status = Running | Finished | Aborted

record 'c forwarder_task =
  ft_forwarder :: local_forwarder
  ft_started :: bool
  ft_cancel_tx :: bool
  ft_status :: task_status
  ft_accepted :: "'c list"

record 'c forwarders =
  fw_queue :: "local_forwarder list"
  fw_spawning :: bool
  fw_tasks :: "'c forwarder_task list"

datatype select_order = RunFirst | CancelFirst

definition new_task :: "local_forwarder \<Rightarrow> 'c forwarder_task" where
  "new_task f = \<lparr>ft_forwarder = f, ft_started = False, ft_cancel_tx = True, ft_status = Running, ft_accepted = []\<rparr>"

text \<open>Polling \<open>fwd.run\<close>: the state of the task, and whether the future is ready.\<close>

definition poll_run ::
  "(socket_addr \<Rightarrow> io_error + unit) \<Rightarrow> 'c accept_event list \<Rightarrow> 'c forwarder_task \<Rightarrow> 'c forwarder_task \<times> bool" where
  "poll_run bind evs t =
     (let started = (if ft_started t then Ok (ft_forwarder t) else local_forwarder_start bind (ft_forwarder t)) in
      case started of
        Err e \<Rightarrow> (t\<lparr>ft_started := True\<rparr>, True)
      | Ok f \<Rightarrow>
          let (cs, r) = accept_loop evs in
          (t\<lparr>ft_forwarder := f, ft_started := True, ft_accepted := ft_accepted t @ cs\<rparr>, r \<noteq> None))"

definition cancel_task :: "'c forwarder_task \<Rightarrow> 'c forwarder_task" where
  "cancel_task t = t\<lparr>ft_forwarder := local_forwarder_stop (ft_forwarder t), ft_status := Finished\<rparr>"

definition poll_task ::
  "(socket_addr \<Rightarrow> io_error + unit) \<Rightarrow> select_order \<Rightarrow> 'c accept_event list \<Rightarrow> 'c forwarder_task \<Rightarrow> 'c forwarder_task" where
  "poll_task bind order evs t =
     (if ft_status t \<noteq> Running then t
      else if \<not> ft_cancel_tx t \<and> order = CancelFirst then cancel_task t
      else case poll_run bind evs t of
        (t', True) \<Rightarrow> t'\<lparr>ft_status := Finished\<rparr>
      | (t', False) \<Rightarrow> if ft_cancel_tx t' then t' else cancel_task t')"

definition abort_task :: "'c forwarder_task \<Rightarrow> 'c forwarder_task" where
  "abort_task t = (if ft_status t = Running then t\<lparr>ft_status := Aborted\<rparr> else t)"

datatype 'c forwarders_event =
  SpawnNext
| EndIteration
| PollTask nat select_order "'c accept_event list"
| Shutdown

text \<open>One event, where it can happen: an iteration begins when the one before has ended, and the shutdown
  is awaited when the loop is over.\<close>

fun forwarders_step ::
  "(socket_addr \<Rightarrow> io_error + unit) \<Rightarrow> 'c forwarders_event \<Rightarrow> 'c forwarders \<Rightarrow> 'c forwarders option" where
  "forwarders_step bind SpawnNext s =
     (case fw_queue s of
        f # fs \<Rightarrow>
          if fw_spawning s then None
          else Some (s\<lparr>fw_queue := fs, fw_spawning := True, fw_tasks := fw_tasks s @ [new_task f]\<rparr>)
      | [] \<Rightarrow> None)"
| "forwarders_step bind EndIteration s =
     (if fw_spawning s then
        Some (s\<lparr>fw_spawning := False,
                fw_tasks := butlast (fw_tasks s) @ [(last (fw_tasks s))\<lparr>ft_cancel_tx := False\<rparr>]\<rparr>)
      else None)"
| "forwarders_step bind (PollTask i order evs) s =
     (if i < length (fw_tasks s) then
        Some (s\<lparr>fw_tasks := (fw_tasks s)[i := poll_task bind order evs (fw_tasks s ! i)]\<rparr>)
      else None)"
| "forwarders_step bind Shutdown s =
     (if fw_queue s = [] \<and> \<not> fw_spawning s then Some (s\<lparr>fw_tasks := map abort_task (fw_tasks s)\<rparr>) else None)"

fun forwarders_run ::
  "(socket_addr \<Rightarrow> io_error + unit) \<Rightarrow> 'c forwarders_event list \<Rightarrow> 'c forwarders \<Rightarrow> 'c forwarders option" where
  "forwarders_run bind [] s = Some s"
| "forwarders_run bind (e # es) s =
     (case forwarders_step bind e s of None \<Rightarrow> None | Some s' \<Rightarrow> forwarders_run bind es s')"

definition run_local_forwarders :: "local_forwarder list \<Rightarrow> 'c forwarders" where
  "run_local_forwarders fs = \<lparr>fw_queue = fs, fw_spawning = False, fw_tasks = []\<rparr>"

text \<open>The forwarders returned after the shutdown: those of the tasks that finished by themselves.\<close>

definition finished_forwarders :: "'c forwarders \<Rightarrow> local_forwarder list" where
  "finished_forwarders s = map ft_forwarder (filter (\<lambda>t. ft_status t = Finished) (fw_tasks s))"

definition spawned_all :: "'c forwarders \<Rightarrow> bool" where
  "spawned_all s \<longleftrightarrow> fw_queue s = [] \<and> \<not> fw_spawning s"

text \<open>Only the task of the iteration under way has a sender.\<close>

definition forwarders_inv :: "'c forwarders \<Rightarrow> bool" where
  "forwarders_inv s \<longleftrightarrow>
     (if fw_spawning s then fw_tasks s \<noteq> [] \<and> list_all (\<lambda>t. \<not> ft_cancel_tx t) (butlast (fw_tasks s))
      else list_all (\<lambda>t. \<not> ft_cancel_tx t) (fw_tasks s))"

lemma poll_run_keeps_sender [simp]: "poll_run bind evs t = (t', b) \<Longrightarrow> ft_cancel_tx t' = ft_cancel_tx t"
  by (auto simp: poll_run_def Let_def split: sum.splits prod.splits)

lemma poll_task_keeps_sender [simp]: "ft_cancel_tx (poll_task bind order evs t) = ft_cancel_tx t"
  by (auto simp: poll_task_def cancel_task_def split: prod.split bool.split)

lemma abort_task_keeps_sender [simp]: "ft_cancel_tx (abort_task t) = ft_cancel_tx t"
  by (simp add: abort_task_def)

lemma poll_task_finishes: "\<not> ft_cancel_tx t \<Longrightarrow> ft_status (poll_task bind order evs t) \<noteq> Running"
  by (auto simp: poll_task_def cancel_task_def split: prod.split bool.split)

lemma poll_task_done: "ft_status t \<noteq> Running \<Longrightarrow> poll_task bind order evs t = t"
  by (simp add: poll_task_def)

lemma list_all_update:
  "list_all P xs \<Longrightarrow> P y \<Longrightarrow> list_all P (xs[i := y])"
  by (cases "i < length xs") (auto simp: list_all_length nth_list_update)

lemma forwarders_step_inv:
  assumes "forwarders_inv s" and "forwarders_step bind e s = Some s'"
  shows "forwarders_inv s'"
proof (cases e)
  case SpawnNext
  then show ?thesis
    using assms by (auto simp: forwarders_inv_def split: list.splits if_splits)
next
  case EndIteration
  then show ?thesis
    using assms by (auto simp: forwarders_inv_def split: if_splits)
next
  case (PollTask i order evs)
  let ?ts = "fw_tasks s" and ?t = "poll_task bind order evs (fw_tasks s ! i)"
  have s': "s' = s\<lparr>fw_tasks := ?ts[i := ?t]\<rparr>" and i: "i < length ?ts"
    using assms(2) PollTask by (auto split: if_splits)
  have "list_all (\<lambda>t. \<not> ft_cancel_tx t) ((butlast ?ts)[i := ?t])"
    if "list_all (\<lambda>t. \<not> ft_cancel_tx t) (butlast ?ts)"
  proof (cases "i < length ?ts - 1")
    case True
    then show ?thesis
      using that by (intro list_all_update) (auto simp: list_all_length nth_butlast)
  qed (use that in \<open>simp add: list_update_beyond\<close>)
  moreover have "list_all (\<lambda>t. \<not> ft_cancel_tx t) (?ts[i := ?t])" if "list_all (\<lambda>t. \<not> ft_cancel_tx t) ?ts"
    using that i by (intro list_all_update) (auto simp: list_all_length)
  ultimately show ?thesis
    using assms(1) s' by (auto simp: forwarders_inv_def butlast_list_update split: if_splits)
next
  case Shutdown
  then show ?thesis
    using assms by (auto simp: forwarders_inv_def list_all_iff split: if_splits)
qed

lemma forwarders_run_inv:
  "forwarders_run bind es s = Some s' \<Longrightarrow> forwarders_inv s \<Longrightarrow> forwarders_inv s'"
  by (induction es arbitrary: s) (auto split: option.splits dest: forwarders_step_inv)

lemma forwarders_inv_init: "forwarders_inv (run_local_forwarders fs)"
  by (simp add: forwarders_inv_def run_local_forwarders_def)

text \<open>Once everything is spawned it stays so, and what has ended stays as it is.\<close>

lemma spawned_step:
  assumes "spawned_all s" and "forwarders_inv s" and "forwarders_step bind e s = Some s'"
  shows "spawned_all s' \<and> length (fw_tasks s') = length (fw_tasks s) \<and>
    (\<forall>i < length (fw_tasks s). ft_status (fw_tasks s ! i) \<noteq> Running \<longrightarrow> fw_tasks s' ! i = fw_tasks s ! i) \<and>
    (\<forall>i order evs. e = PollTask i order evs \<longrightarrow> ft_status (fw_tasks s' ! i) \<noteq> Running)"
proof (cases e)
  case (PollTask i order evs)
  then have "i < length (fw_tasks s)" and s': "s' = s\<lparr>fw_tasks := (fw_tasks s)[i := poll_task bind order evs (fw_tasks s ! i)]\<rparr>"
    using assms(3) by (auto split: if_splits)
  moreover have "\<not> ft_cancel_tx (fw_tasks s ! i)"
    using assms \<open>i < length (fw_tasks s)\<close> by (simp add: forwarders_inv_def spawned_all_def list_all_length)
  ultimately show ?thesis
    using assms(1) PollTask by (auto simp: spawned_all_def poll_task_finishes poll_task_done nth_list_update)
qed (use assms in \<open>auto simp: spawned_all_def abort_task_def split: if_splits list.splits\<close>)

fun polled_task :: "'c forwarders_event \<Rightarrow> nat option" where
  "polled_task (PollTask i order evs) = Some i"
| "polled_task SpawnNext = None"
| "polled_task EndIteration = None"
| "polled_task Shutdown = None"

lemma spawned_run:
  assumes "forwarders_run bind es s = Some s'" and "spawned_all s" and "forwarders_inv s"
  shows "spawned_all s' \<and> length (fw_tasks s') = length (fw_tasks s) \<and>
    (\<forall>i < length (fw_tasks s). ft_status (fw_tasks s ! i) \<noteq> Running \<longrightarrow> fw_tasks s' ! i = fw_tasks s ! i) \<and>
    (\<forall>i < length (fw_tasks s). Some i \<in> polled_task ` set es \<longrightarrow> ft_status (fw_tasks s' ! i) \<noteq> Running)"
  using assms
proof (induction es arbitrary: s)
  case (Cons e es)
  obtain s1 where s1: "forwarders_step bind e s = Some s1" and run: "forwarders_run bind es s1 = Some s'"
    using Cons.prems(1) by (auto split: option.splits)
  note step = spawned_step [OF Cons.prems(2,3) s1]
  note IH = Cons.IH [OF run] step forwarders_step_inv [OF Cons.prems(3) s1]
  have "ft_status (fw_tasks s' ! i) \<noteq> Running"
    if i: "i < length (fw_tasks s)" and p: "Some i \<in> polled_task ` set (e # es)" for i
  proof (cases "polled_task e = Some i")
    case True
    then obtain order evs where "e = PollTask i order evs"
      by (cases e) auto
    then have "ft_status (fw_tasks s1 ! i) \<noteq> Running"
      using step by blast
    then show ?thesis
      using IH i by simp
  next
    case False
    then show ?thesis
      using IH i p by auto
  qed
  then show ?case
    using IH by simp
qed simp

text \<open>C33. Local port forwarding does not last. Once run_local_forwarders has spawned its tasks, the next
  time each of them is scheduled is its last: whatever the accept results and the order in which
  select! polls, no task is running afterwards, and from then on no connection to any of the forwarded
  ports is served, although no shutdown was requested.\<close>

theorem local_forwarders_stop:
  assumes "forwarders_run bind es (run_local_forwarders fs) = Some s" and "spawned_all s"
    and "forwarders_run bind polls s = Some s'"
    and "Some ` {..<length (fw_tasks s)} \<subseteq> polled_task ` set polls"
    and "forwarders_run bind later s' = Some s''"
  shows "list_all (\<lambda>t. ft_status t \<noteq> Running) (fw_tasks s') \<and>
    map ft_accepted (fw_tasks s'') = map ft_accepted (fw_tasks s')"
proof -
  have inv: "forwarders_inv s" and inv': "forwarders_inv s'"
    using assms(1,3) forwarders_inv_init forwarders_run_inv by blast+
  note polls = spawned_run [OF assms(3,2) inv]
  have stopped: "ft_status (fw_tasks s' ! i) \<noteq> Running" if "i < length (fw_tasks s')" for i
    using polls that assms(4) by auto
  have "fw_tasks s'' ! i = fw_tasks s' ! i" if "i < length (fw_tasks s')" for i
    using spawned_run [OF assms(5) _ inv'] polls stopped that by blast
  moreover have "length (fw_tasks s'') = length (fw_tasks s')"
    using spawned_run [OF assms(5) _ inv'] polls by blast
  ultimately have "fw_tasks s'' = fw_tasks s'"
    by (simp add: list_eq_iff_nth_eq)
  then show ?thesis
    using stopped by (simp add: list_all_length)
qed

definition example_forwarder :: local_forwarder where
  "example_forwarder =
     \<lparr>lf_spec = \<lparr>pf_kind = LocalSpec, bind_addr = ''127.0.0.1'', bind_port = 8080,
        target_host = ''db'', target_port = 5432\<rparr>, lf_listener = False\<rparr>"

text \<open>The task is polled once before its sender is dropped, and serves connection 1; the connection 3
  that comes later is not served.\<close>

theorem local_forwarders_stop_witness:
  "(case forwarders_run (\<lambda>_. Ok ()) [SpawnNext, PollTask 0 RunFirst [Accepted (1 :: nat)], EndIteration]
      (run_local_forwarders [example_forwarder]) of
    None \<Rightarrow> False
  | Some s \<Rightarrow>
      (case forwarders_run (\<lambda>_. Ok ()) [PollTask 0 RunFirst [Accepted 2]] s of
         None \<Rightarrow> False
       | Some s' \<Rightarrow>
           (case forwarders_run (\<lambda>_. Ok ()) [PollTask 0 RunFirst [Accepted 3]] s' of
              None \<Rightarrow> False
            | Some s'' \<Rightarrow> map ft_accepted (fw_tasks s') = [[1, 2]] \<and>
                map ft_accepted (fw_tasks s'') = map ft_accepted (fw_tasks s'))))"
proof -
  let ?b = "\<lambda>_ :: socket_addr. Ok () :: io_error + unit"
  let ?e1 = "[SpawnNext, PollTask 0 RunFirst [Accepted (1 :: nat)], EndIteration]"
  let ?s0 = "run_local_forwarders [example_forwarder] :: nat forwarders"
  define s where "s = the (forwarders_run ?b ?e1 ?s0)"
  define s' where "s' = the (forwarders_run ?b [PollTask 0 RunFirst [Accepted 2]] s)"
  define s'' where "s'' = the (forwarders_run ?b [PollTask 0 RunFirst [Accepted 3]] s')"
  have 1: "forwarders_run ?b ?e1 ?s0 = Some s" "spawned_all s" "length (fw_tasks s) = 1"
    unfolding s_def by code_simp+
  have 2: "forwarders_run ?b [PollTask 0 RunFirst [Accepted 2]] s = Some s'"
      "map ft_accepted (fw_tasks s') = [[1, 2]]"
    unfolding s'_def s_def by code_simp+
  have 3: "forwarders_run ?b [PollTask 0 RunFirst [Accepted 3]] s' = Some s''"
    unfolding s''_def s'_def s_def by code_simp
  have "Some ` {..<length (fw_tasks s)} \<subseteq> polled_task ` set [PollTask 0 RunFirst [Accepted (2 :: nat)]]"
    using 1(3) by (simp add: lessThan_Suc)
  from local_forwarders_stop [OF 1(1,2) 2(1) this 3] show ?thesis
    using 1(1) 2 3 by (simp del: forwarders_run.simps)
qed

section \<open>Reading a specification\<close>

lemma parse_port_show [simp]: "parse_port spec (show_nat (unat p)) = Ok p"
  by (simp add: parse_port_def parse_u16_show)

lemma parse_spec_show:
  assumes "CHR '':'' \<notin> set (bind_addr spec)" and "CHR '':'' \<notin> set (target_host spec)"
  shows "parse_spec (show_spec_body spec) = Ok (bind_addr spec, bind_port spec, target_host spec, target_port spec)"
proof -
  have "CHR '':'' \<notin> set (show_nat n)" for n
    by (rule show_nat_no_char) simp
  then have "str_split (show_spec_body spec) (CHR '':'') =
      [bind_addr spec, show_nat (unat (bind_port spec)), target_host spec, show_nat (unat (target_port spec))]"
    using assms by (simp add: show_spec_body_def str_split_append str_split_no_sep)
  then show ?thesis
    by (simp add: parse_spec_def result_bind_def)
qed

lemma parse_spec_Ok:
  assumes "parse_spec s = Ok (a, bp, h, tp)"
  shows "CHR '':'' \<notin> set a \<and> CHR '':'' \<notin> set h \<and> length (str_split s (CHR '':'')) = 4"
proof -
  obtain b d where "str_split s (CHR '':'') = [a, b, h, d]"
    using assms by (auto simp: parse_spec_def result_bind_def split: list.splits sum.splits)
  then show ?thesis
    using str_split_parts_no_sep [of _ s "CHR '':''"] by simp
qed

text \<open>A forwarding specification reads back as itself: whatever text was accepted, printing the result
  and reading it again gives the same specification. Only texts of exactly four parts are accepted,
  so port:host:port, which the documentation shows, is refused.\<close>

theorem forward_spec_roundtrip:
  "(\<forall>spec. spec_local s = Ok spec \<longrightarrow> spec_local (show_spec_body spec) = Ok spec) \<and>
   (\<forall>spec. spec_remote s = Ok spec \<longrightarrow> spec_remote (show_spec_body spec) = Ok spec) \<and>
   (length (str_split s (CHR '':'')) \<noteq> 4 \<longrightarrow>
      spec_local s = Err (InvalidSpec s) \<and> spec_remote s = Err (InvalidSpec s))"
proof (cases "parse_spec s")
  case (Inl e)
  then have "length (str_split s (CHR '':'')) \<noteq> 4 \<Longrightarrow> e = InvalidSpec s"
    by (auto simp: parse_spec_def split: list.splits)
  then show ?thesis
    using Inl by (simp add: spec_local_def spec_remote_def result_bind_def)
next
  case (Inr p)
  obtain a bp h tp where p: "p = (a, bp, h, tp)"
    by (cases p)
  have "parse_spec (show_spec_body (spec_of_parts k p)) = Ok p" for k
    using parse_spec_Ok [OF Inr [unfolded p]] p by (simp add: parse_spec_show spec_of_parts_def)
  then show ?thesis
    using Inr parse_spec_Ok [OF Inr [unfolded p]]
    by (simp add: spec_local_def spec_remote_def result_bind_def)
qed

theorem forward_spec_roundtrip_witness:
  "spec_local ''127.0.0.1:08080:db:5432'' = Ok (lf_spec example_forwarder) \<and>
   spec_local (show_spec_body (lf_spec example_forwarder)) = Ok (lf_spec example_forwarder) \<and>
   spec_local ''5432:db.internal:5432'' = Err (InvalidSpec ''5432:db.internal:5432'')"
proof -
  have 1: "spec_local ''127.0.0.1:08080:db:5432'' = Ok (lf_spec example_forwarder)"
    by code_simp
  have "length (str_split ''5432:db.internal:5432'' (CHR '':'')) \<noteq> 4"
    by code_simp
  then show ?thesis
    using 1 forward_spec_roundtrip [of "''127.0.0.1:08080:db:5432''"]
      forward_spec_roundtrip [of "''5432:db.internal:5432''"] by blast
qed

end
