(* ===== verification/Channel_Manager.thy ===== *)
theory Channel_Manager
  imports Lock_Order Port_Forward Auth_Keys
begin

text \<open>
  \<open>auth/client_auth.rs\<close> and \<open>client/channel_manager.rs\<close>: the client's key and handler, and the manager that
  owns an SSH session, keeps the set of remote forwards, and reconnects with a growing delay. The
  session handle is a type variable; connecting, the SSH handshake, authentication and the requests on
  a handle are operations of the transport and of the SSH library, and arguments of the model. Last
  come the locks the manager's operations take, in the order the code takes them.
\<close>

section \<open>Client authentication\<close>

record ('sk, 'key) client_auth_config =
  ca_private_key :: 'sk
  ca_public_key :: 'key

definition from_key_source ::
  "(string \<Rightarrow> bytes option) \<Rightarrow> (string \<Rightarrow> string + 'sk) \<Rightarrow> ('sk \<Rightarrow> 'key) \<Rightarrow> key_source \<Rightarrow>
   config_error + ('sk, 'key) client_auth_config" where
  "from_key_source fs decode_sk public_key source =
     result_bind (load_private_key fs decode_sk source) (\<lambda>sk.
       Ok \<lparr>ca_private_key = sk, ca_public_key = public_key sk\<rparr>)"

record 'key client_handler =
  ch_pub_key :: 'key
  check_server_key_fn :: "'key \<Rightarrow> bool"

definition client_handler_from_config :: "('sk, 'key) client_auth_config \<Rightarrow> 'key client_handler" where
  "client_handler_from_config c = \<lparr>ch_pub_key = ca_public_key c, check_server_key_fn = (\<lambda>_. True)\<rparr>"

definition with_server_key_check ::
  "('sk, 'key) client_auth_config \<Rightarrow> ('key \<Rightarrow> bool) \<Rightarrow> 'key client_handler" where
  "with_server_key_check c f = \<lparr>ch_pub_key = ca_public_key c, check_server_key_fn = f\<rparr>"

definition check_server_key :: "'key client_handler \<Rightarrow> 'key \<Rightarrow> bool" where
  "check_server_key h k = check_server_key_fn h k"

text \<open>One attempt at a session: what connecting the transport yields, the handshake, which consults the
  handler about the server's key, and the authentication of a user with a key.\<close>

record ('sk, 'key, 'h) attempt =
  at_connect :: "io_error + stream"
  at_handshake :: "'key client_handler \<Rightarrow> stream \<Rightarrow> string + 'h"
  at_authenticate :: "'sk \<Rightarrow> string \<Rightarrow> 'h \<Rightarrow> (string + bool) \<times> 'h"

definition client_authenticate ::
  "('sk, 'key, 'h) attempt \<Rightarrow> ('sk, 'key) client_auth_config \<Rightarrow> 'h \<Rightarrow> string \<Rightarrow> (string + bool) \<times> 'h" where
  "client_authenticate att c h username = at_authenticate att (ca_private_key c) username h"

section \<open>The manager\<close>

record forward_request =
  fr_addr :: string
  fr_port :: u32

record ('sk, 'key, 'h) channel_manager =
  cm_auth_config :: "('sk, 'key) client_auth_config"
  cm_handle :: 'h
  cm_username :: string
  cm_forwards :: "forward_request list"
  cm_reconnect_attempts :: u32

definition send_error :: string where
  "send_error = ''SendError''"

definition cm_establish_session ::
  "('sk, 'key, 'h) attempt \<Rightarrow> 'key client_handler \<Rightarrow> ('sk, 'key) client_auth_config \<Rightarrow> string \<Rightarrow> string + 'h" where
  "cm_establish_session att handler c username =
     (case at_connect att of
        Err _ \<Rightarrow> Err send_error
      | Ok stream \<Rightarrow>
          (case at_handshake att handler stream of
             Err e \<Rightarrow> Err e
           | Ok h \<Rightarrow>
               (case client_authenticate att c h username of
                  (Err e, _) \<Rightarrow> Err e
                | (Ok auth_ok, h') \<Rightarrow> if \<not> auth_ok then Err send_error else Ok h')))"

definition channel_manager_new ::
  "('sk, 'key, 'h) attempt \<Rightarrow> ('sk, 'key) client_auth_config \<Rightarrow> string \<Rightarrow>
   channel_error + ('sk, 'key, 'h) channel_manager" where
  "channel_manager_new att c username =
     (case cm_establish_session att (client_handler_from_config c) c username of
        Err _ \<Rightarrow> Err TargetUnreachable
      | Ok h \<Rightarrow> Ok \<lparr>cm_auth_config = c, cm_handle = h, cm_username = username, cm_forwards = [],
          cm_reconnect_attempts = 0\<rparr>)"

definition cm_open_direct_tcpip ::
  "(string \<Rightarrow> u32 \<Rightarrow> string \<Rightarrow> u32 \<Rightarrow> 'h \<Rightarrow> string + 'ch) \<Rightarrow> string \<Rightarrow> u32 \<Rightarrow> ('sk, 'key, 'h) channel_manager \<Rightarrow>
   channel_error + 'ch" where
  "cm_open_direct_tcpip opener host port m =
     (case opener host port ''127.0.0.1'' 0 (cm_handle m) of
        Ok ch \<Rightarrow> Ok ch
      | Err _ \<Rightarrow> Err ChannelClosed)"

definition request_tcpip_forward ::
  "'h forward_api \<Rightarrow> string \<Rightarrow> u32 \<Rightarrow> ('sk, 'key, 'h) channel_manager \<Rightarrow>
   (channel_error + u32) \<times> ('sk, 'key, 'h) channel_manager" where
  "request_tcpip_forward tcpip_forward addr port m =
     (case tcpip_forward addr port (cm_handle m) of
        (Err _, h) \<Rightarrow> (Err ChannelClosed, m\<lparr>cm_handle := h\<rparr>)
      | (Ok r, h) \<Rightarrow>
          (Ok r, m\<lparr>cm_handle := h, cm_forwards := List.insert \<lparr>fr_addr = addr, fr_port = port\<rparr> (cm_forwards m)\<rparr>))"

definition cancel_tcpip_forward ::
  "(string \<Rightarrow> u32 \<Rightarrow> 'h \<Rightarrow> string + unit) \<Rightarrow> string \<Rightarrow> u32 \<Rightarrow> ('sk, 'key, 'h) channel_manager \<Rightarrow>
   (channel_error + unit) \<times> ('sk, 'key, 'h) channel_manager" where
  "cancel_tcpip_forward cancel addr port m =
     (case cancel addr port (cm_handle m) of
        Err _ \<Rightarrow> (Err ChannelClosed, m)
      | Ok _ \<Rightarrow> (Ok (), m\<lparr>cm_forwards := removeAll \<lparr>fr_addr = addr, fr_port = port\<rparr> (cm_forwards m)\<rparr>))"

definition is_connected :: "('h \<Rightarrow> bool) \<Rightarrow> ('sk, 'key, 'h) channel_manager \<Rightarrow> bool" where
  "is_connected is_closed m \<longleftrightarrow> \<not> is_closed (cm_handle m)"

section \<open>Reconnection\<close>

definition backoff_duration :: "u32 \<Rightarrow> nat" where
  "backoff_duration attempt =
     (if attempt = 0 then 1 else if attempt = 1 then 2 else if attempt = 2 then 4
      else if attempt = 3 then 8 else if attempt = 4 then 16 else 30)"

text \<open>The set is iterated in an order of its own: \<open>iter\<close> lists it.\<close>

definition re_register_forwards ::
  "(forward_request list \<Rightarrow> forward_request list) \<Rightarrow> 'h forward_api \<Rightarrow> ('sk, 'key, 'h) channel_manager \<Rightarrow>
   ('sk, 'key, 'h) channel_manager" where
  "re_register_forwards iter tcpip_forward m =
     (if cm_forwards m = [] then m
      else m\<lparr>cm_handle :=
        fold (\<lambda>fwd h. snd (tcpip_forward (fr_addr fwd) (fr_port fwd) h)) (iter (cm_forwards m)) (cm_handle m)\<rparr>)"

text \<open>The seconds it sleeps, its result and the manager afterwards. \<open>chk\<close> is whether the build checks for
  overflow of the counter.\<close>

definition reconnect ::
  "bool \<Rightarrow> (forward_request list \<Rightarrow> forward_request list) \<Rightarrow> 'h forward_api \<Rightarrow> ('sk, 'key, 'h) attempt \<Rightarrow>
   ('sk, 'key, 'h) channel_manager \<Rightarrow>
   (nat \<times> (channel_error + unit) \<times> ('sk, 'key, 'h) channel_manager) outcome" where
  "reconnect chk iter tcpip_forward att m =
     (let attempt_num = cm_reconnect_attempts m; backoff = backoff_duration attempt_num in
      if chk \<and> attempt_num = - 1 then Panics
      else
        let m1 = m\<lparr>cm_reconnect_attempts := attempt_num + 1\<rparr>;
            handler = client_handler_from_config (cm_auth_config m) in
        Returns (case cm_establish_session att handler (cm_auth_config m) (cm_username m) of
          Ok new_handle \<Rightarrow>
            (backoff, Ok (), re_register_forwards iter tcpip_forward
              (m1\<lparr>cm_handle := new_handle, cm_reconnect_attempts := 0\<rparr>))
        | Err e \<Rightarrow> (backoff, Err ChannelClosed, m1)))"

text \<open>The monitor: in every round it sleeps a second, looks whether the session is closed, and reconnects if
  so. The attempts are what the transport and the server will do, one for each round; the result lists
  the seconds it slept in each round.\<close>

fun reconnect_monitor ::
  "bool \<Rightarrow> (forward_request list \<Rightarrow> forward_request list) \<Rightarrow> ('h \<Rightarrow> bool) \<Rightarrow> 'h forward_api \<Rightarrow>
   ('sk, 'key, 'h) attempt list \<Rightarrow> ('sk, 'key, 'h) channel_manager \<Rightarrow>
   (nat list \<times> ('sk, 'key, 'h) channel_manager) outcome" where
  "reconnect_monitor chk iter is_closed tcpip_forward [] m = Returns ([], m)"
| "reconnect_monitor chk iter is_closed tcpip_forward (att # atts) m =
     (if is_closed (cm_handle m) then
        outcome_bind (reconnect chk iter tcpip_forward att m) (\<lambda>(d, r, m').
        outcome_bind (reconnect_monitor chk iter is_closed tcpip_forward atts m') (\<lambda>(ds, m'').
          Returns ((1 + d) # ds, m'')))
      else outcome_bind (reconnect_monitor chk iter is_closed tcpip_forward atts m) (\<lambda>(ds, m').
          Returns (1 # ds, m')))"


definition attempt_fails :: "('sk, 'key, 'h) channel_manager \<Rightarrow> ('sk, 'key, 'h) attempt \<Rightarrow> bool" where
  "attempt_fails m att \<longleftrightarrow>
     isl (cm_establish_session att (client_handler_from_config (cm_auth_config m)) (cm_auth_config m) (cm_username m))"

lemma backoff_duration_min: "backoff_duration a = min (2 ^ unat a) 30"
proof (cases "unat a < 5")
  case True
  then have "unat a = 0 \<or> unat a = 1 \<or> unat a = 2 \<or> unat a = 3 \<or> unat a = 4"
    by arith
  moreover have "a = of_nat (unat a)"
    by simp
  ultimately have "a = 0 \<or> a = 1 \<or> a = 2 \<or> a = 3 \<or> a = 4"
    by (elim disjE) simp_all
  then show ?thesis
    by (auto simp: backoff_duration_def)
next
  case False
  then have "a \<noteq> 0" "a \<noteq> 1" "a \<noteq> 2" "a \<noteq> 3" "a \<noteq> 4"
    by auto
  moreover have "(2 :: nat) ^ 5 \<le> 2 ^ unat a"
    using False by (intro power_increasing) auto
  ultimately show ?thesis
    by (simp add: backoff_duration_def)
qed

lemma reconnect_fails:
  assumes "attempt_fails m att" and "unat (cm_reconnect_attempts m) < 2 ^ 32 - 1"
  shows "reconnect chk iter api att m =
    Returns (min (2 ^ unat (cm_reconnect_attempts m)) 30, Err ChannelClosed,
      m\<lparr>cm_reconnect_attempts := cm_reconnect_attempts m + 1\<rparr>)"
proof -
  have "cm_reconnect_attempts m \<noteq> - 1"
    using assms(2) by (auto simp: unsigned_minus_1_eq_mask mask_eq_exp_minus_1)
  then show ?thesis
    using assms(1)
    by (auto simp: reconnect_def attempt_fails_def backoff_duration_min Let_def split: sum.split)
qed

lemma monitor_failures:
  assumes "is_closed (cm_handle m)" and "list_all (attempt_fails m) atts"
    and "unat (cm_reconnect_attempts m) + length atts < 2 ^ 32"
  shows "reconnect_monitor chk iter is_closed api atts m =
    Returns (map (\<lambda>i. 1 + min (2 ^ i) 30) [unat (cm_reconnect_attempts m)..<unat (cm_reconnect_attempts m) + length atts],
      m\<lparr>cm_reconnect_attempts := cm_reconnect_attempts m + of_nat (length atts)\<rparr>)"
  using assms
proof (induction atts arbitrary: m)
  case (Cons att atts)
  let ?n = "cm_reconnect_attempts m"
  let ?m = "m\<lparr>cm_reconnect_attempts := ?n + 1\<rparr>"
  have u: "unat (?n + 1) = unat ?n + 1"
    using Cons.prems(3) by (subst unat_add_lem [THEN iffD1]) simp_all
  have "attempt_fails ?m = attempt_fails m"
    by (simp add: attempt_fails_def fun_eq_iff)
  then have "reconnect_monitor chk iter is_closed api atts ?m =
      Returns (map (\<lambda>i. 1 + min (2 ^ i) 30) [unat ?n + 1..<unat ?n + 1 + length atts],
        ?m\<lparr>cm_reconnect_attempts := ?n + 1 + of_nat (length atts)\<rparr>)"
    using Cons.IH [of ?m] Cons.prems u by simp
  moreover have "reconnect chk iter api att m = Returns (min (2 ^ unat ?n) 30, Err ChannelClosed, ?m)"
    using Cons.prems by (intro reconnect_fails) auto
  moreover have "[unat ?n..<unat ?n + length (att # atts)] = unat ?n # [unat ?n + 1..<unat ?n + 1 + length atts]"
    by (simp add: upt_conv_Cons del: upt_Suc)
  moreover have "?n + of_nat (length (att # atts)) = ?n + 1 + of_nat (length atts)"
    by simp
  ultimately show ?case
    using Cons.prems(1)
    by (simp only: reconnect_monitor.simps if_True outcome_bind_simps prod.case list.map) simp
qed simp

lemma reconnect_succeeds:
  assumes "cm_establish_session att (client_handler_from_config (cm_auth_config m)) (cm_auth_config m)
      (cm_username m) = Ok h"
    and "unat (cm_reconnect_attempts m) < 2 ^ 32 - 1"
  shows "reconnect chk iter api att m =
    Returns (min (2 ^ unat (cm_reconnect_attempts m)) 30, Ok (),
      re_register_forwards iter api (m\<lparr>cm_handle := h, cm_reconnect_attempts := 0\<rparr>))"
proof -
  have "cm_reconnect_attempts m \<noteq> - 1"
    using assms(2) by (auto simp: unsigned_minus_1_eq_mask mask_eq_exp_minus_1)
  then show ?thesis
    using assms(1) by (simp add: reconnect_def backoff_duration_min Let_def)
qed

lemma monitor_append:
  "reconnect_monitor chk iter is_closed api (as @ bs) m =
     outcome_bind (reconnect_monitor chk iter is_closed api as m) (\<lambda>(ds, m').
     outcome_bind (reconnect_monitor chk iter is_closed api bs m') (\<lambda>(ds', m'').
       Returns (ds @ ds', m'')))"
  by (induction as arbitrary: m)
    (auto simp: outcome_bind_def split: outcome.splits prod.splits)

lemma re_register_log:
  assumes "\<And>addr port h. log (snd (api addr port h)) = insert \<lparr>fr_addr = addr, fr_port = port\<rparr> (log h)"
    and "\<And>xs. set (iter xs) = set xs"
  shows "log (cm_handle (re_register_forwards iter api m)) = log (cm_handle m) \<union> set (cm_forwards m)"
proof -
  have "log (fold (\<lambda>fwd h. snd (api (fr_addr fwd) (fr_port fwd) h)) fs h) = log h \<union> set fs" for fs h
    by (induction fs arbitrary: h) (auto simp: assms(1))
  then show ?thesis
    using assms(2) by (simp add: re_register_forwards_def)
qed

text \<open>C19. A lost session comes back. While every attempt fails, the manager sleeps 2, 3, 5, 9 and 17 seconds
  and from then on 31 seconds before each further attempt: the documented delay of 1, 2, 4, 8, 16 and
  30 seconds, after the second its monitor sleeps in every round. The first attempt that succeeds
  installs the new session, resets the delay, and asks the new session for every remote forward the
  manager has on record. This is the monitor left to itself: no other operation of the manager holds
  its locks meanwhile, since one that requests a forward can block it for good.\<close>

theorem reconnect_backoff:
  fixes m :: "('sk, 'key, 'h) channel_manager"
  assumes "is_closed (cm_handle m)" and "cm_reconnect_attempts m = 0"
    and "list_all (attempt_fails m) atts" and "length atts < 2 ^ 32 - 1"
    and "cm_establish_session att (client_handler_from_config (cm_auth_config m)) (cm_auth_config m)
      (cm_username m) = Ok h"
    and "\<And>addr port h. log (snd (api addr port h)) = insert \<lparr>fr_addr = addr, fr_port = port\<rparr> (log h)"
    and "\<And>xs. set (iter xs) = set xs"
  shows "\<exists>m'. reconnect_monitor chk iter is_closed api (atts @ [att]) m =
      Returns (map (\<lambda>i. 1 + min (2 ^ i) 30) [0..<length atts + 1], m') \<and>
    cm_reconnect_attempts m' = 0 \<and> log (cm_handle m') = log h \<union> set (cm_forwards m) \<and>
    cm_forwards m' = cm_forwards m"
proof -
  let ?m = "m\<lparr>cm_reconnect_attempts := of_nat (length atts)\<rparr>"
  let ?m' = "re_register_forwards iter api (m\<lparr>cm_handle := h, cm_reconnect_attempts := 0\<rparr>)"
  have u: "unat (of_nat (length atts) :: u32) = length atts"
    using assms(4) by (simp add: unat_of_nat)
  have "reconnect_monitor chk iter is_closed api atts m =
      Returns (map (\<lambda>i. 1 + min (2 ^ i) 30) [0..<length atts], ?m)"
    using monitor_failures [of is_closed m atts chk iter api] assms(1-4) by simp
  moreover have "reconnect chk iter api att ?m = Returns (min (2 ^ length atts) 30, Ok (), ?m')"
    using reconnect_succeeds [of att ?m h chk iter api] assms(4,5) u by simp
  ultimately have "reconnect_monitor chk iter is_closed api (atts @ [att]) m =
      Returns (map (\<lambda>i. 1 + min (2 ^ i) 30) [0..<length atts + 1], ?m')"
    using assms(1) by (simp add: monitor_append)
  moreover have "log (cm_handle ?m') = log h \<union> set (cm_forwards m)"
    using re_register_log [OF assms(6,7), where m = "m\<lparr>cm_handle := h, cm_reconnect_attempts := 0\<rparr>"] by simp
  moreover have "cm_reconnect_attempts ?m' = 0 \<and> cm_forwards ?m' = cm_forwards m"
    by (simp add: re_register_forwards_def)
  ultimately show ?thesis
    by blast
qed


text \<open>A handle that records the requests made on it; the empty one is closed.\<close>

definition example_attempt :: "bool \<Rightarrow> (unit, unit, forward_request list) attempt" where
  "example_attempt up =
     \<lparr>at_connect = (if up then Ok \<lparr>rx = [], tx = [], wr = [], shut = False\<rparr> else Err unexpected_eof),
      at_handshake = (\<lambda>_ _. Ok []), at_authenticate = (\<lambda>_ _ h. (Ok True, h))\<rparr>"

definition example_manager :: "(unit, unit, forward_request list) channel_manager" where
  "example_manager =
     \<lparr>cm_auth_config = \<lparr>ca_private_key = (), ca_public_key = ()\<rparr>, cm_handle = [], cm_username = ''u'',
      cm_forwards = [\<lparr>fr_addr = ''0.0.0.0'', fr_port = 8080\<rparr>], cm_reconnect_attempts = 0\<rparr>"

definition log_api :: "(forward_request list) forward_api" where
  "log_api addr port h = (Ok port, \<lparr>fr_addr = addr, fr_port = port\<rparr> # h)"

theorem reconnect_backoff_witness:
  "\<exists>m'. reconnect_monitor True (\<lambda>xs. xs) (\<lambda>h. h = []) log_api
      (replicate 6 (example_attempt False) @ [example_attempt True]) example_manager =
      Returns ([2, 3, 5, 9, 17, 31, 31], m') \<and>
    set (cm_handle m') = {\<lparr>fr_addr = ''0.0.0.0'', fr_port = 8080\<rparr>}"
proof -
  have 1: "cm_handle example_manager = []" "cm_reconnect_attempts example_manager = 0"
      "cm_forwards example_manager = [\<lparr>fr_addr = ''0.0.0.0'', fr_port = 8080\<rparr>]"
    by (simp_all add: example_manager_def)
  have 2: "list_all (attempt_fails example_manager) (replicate 6 (example_attempt False))"
    by (simp add: list_all_iff attempt_fails_def example_attempt_def cm_establish_session_def)
  have 3: "cm_establish_session (example_attempt True)
      (client_handler_from_config (cm_auth_config example_manager)) (cm_auth_config example_manager)
      (cm_username example_manager) = Ok []"
    by (simp add: example_attempt_def cm_establish_session_def client_authenticate_def)
  have 4: "set (snd (log_api addr port h)) = insert \<lparr>fr_addr = addr, fr_port = port\<rparr> (set h)" for addr port h
    by (simp add: log_api_def)
  have 5: "map (\<lambda>i. 1 + min (2 ^ i) (30 :: nat)) [0..<length (replicate 6 (example_attempt False)) + 1] =
      [2, 3, 5, 9, 17, 31, 31]"
    by (simp add: upt_rec)
  show ?thesis
    using reconnect_backoff [where is_closed = "\<lambda>h. h = []" and log = set and iter = "\<lambda>xs. xs" and chk = True,
        OF 1(1,2) 2 _ 3 4] unfolding 5 by (auto simp: 1(3))
qed

section \<open>Locks\<close>

text \<open>The locks of the manager, and the order in which each operation takes them. The argument of an
  operation says whether the request on the session succeeds, for \<open>ReconnectOp\<close> whether there are
  forwards to register again.\<close>

datatype manager_lock = HandleLock | ForwardsLock | AttemptsLock

datatype manager_op =
  OpenOp | IsConnectedOp | MonitorOp | RequestOp bool | CancelOp bool | ReconnectFailsOp | ReconnectOp bool

fun manager_locks :: "manager_op \<Rightarrow> manager_lock lock_op list" where
  "manager_locks OpenOp = [Acquire HandleLock ReadLock, Release HandleLock]"
| "manager_locks IsConnectedOp = [Acquire HandleLock ReadLock, Release HandleLock]"
| "manager_locks MonitorOp = [Acquire HandleLock ReadLock, Release HandleLock]"
| "manager_locks (RequestOp ok) =
     Acquire HandleLock WriteLock #
     (if ok then [Acquire ForwardsLock WriteLock, Release ForwardsLock] else []) @ [Release HandleLock]"
| "manager_locks (CancelOp ok) =
     Acquire HandleLock ReadLock #
     (if ok then [Acquire ForwardsLock WriteLock, Release ForwardsLock] else []) @ [Release HandleLock]"
| "manager_locks ReconnectFailsOp = [Acquire AttemptsLock WriteLock, Release AttemptsLock]"
| "manager_locks (ReconnectOp forwards) =
     [Acquire AttemptsLock WriteLock, Release AttemptsLock,
      Acquire HandleLock WriteLock, Release HandleLock,
      Acquire AttemptsLock WriteLock, Release AttemptsLock,
      Acquire ForwardsLock ReadLock] @
     (if forwards then [Acquire HandleLock WriteLock, Release HandleLock] else []) @ [Release ForwardsLock]"

fun lock_rank :: "manager_lock \<Rightarrow> nat" where
  "lock_rank HandleLock = 0"
| "lock_rank ForwardsLock = 1"
| "lock_rank AttemptsLock = 2"

lemma manager_locks_ordered: "op \<noteq> ReconnectOp True \<Longrightarrow> ordered lock_rank [] (manager_locks op)"
  by (cases op) auto

text \<open>C18. The operations of the channel manager cannot block each other for good, as long as no
  reconnection has forwards to register again: however the operations are interleaved, a state in
  which none of them can take or release a lock is one in which all are done, and there is no infinite
  run, since the number of steps is bounded by twice the number of acquisitions and releases.\<close>

theorem manager_operations_finish:
  assumes "ReconnectOp True \<notin> set ops"
    and "(lock_step ^^ n) (start_tasks (map manager_locks ops)) s"
  shows "((\<nexists>s'. lock_step s s') \<longrightarrow> list_all finished (tasks s)) \<and>
    n \<le> 2 * sum_list (map (length \<circ> manager_locks) ops)"
proof -
  have "tasks_ordered lock_rank (start_tasks (map manager_locks ops))"
    using assms(1) by (auto simp: tasks_ordered_start list_all_iff intro!: manager_locks_ordered)
  then have "lock_wf s \<and> tasks_ordered lock_rank s \<and> n + lock_work s \<le> 2 * sum_list (map (length \<circ> manager_locks) ops)"
    using lock_steps_keep [OF assms(2)] by (simp add: lock_work_start)
  then show ?thesis
    using ordered_progress by fastforce
qed

theorem manager_operations_finish_witness:
  "let s0 = start_tasks (map manager_locks [OpenOp]) in
   (lock_step ^^ 1) s0 (s0\<lparr>waiting := [0]\<rparr>) \<and> (1 :: nat) \<le> 2 * sum_list (map (length \<circ> manager_locks) [OpenOp])"
proof -
  let ?s0 = "start_tasks (map manager_locks [OpenOp])"
  have run: "(lock_step ^^ 1) ?s0 (?s0\<lparr>waiting := [0]\<rparr>)"
    using lock_step.enqueue [of 0 ?s0] by (simp add: start_tasks_def eq_OO)
  have "ReconnectOp True \<notin> set [OpenOp]"
    by simp
  from manager_operations_finish [OF this run] run show ?thesis
    by (simp only: Let_def simp_thms)
qed

text \<open>A reconnection takes the two locks the other way round than a request.\<close>

definition two_and :: "'l task \<Rightarrow> 'l task \<Rightarrow> 'l task list \<Rightarrow> nat list \<Rightarrow> 'l lock_state" where
  "two_and t0 t1 ts q = \<lparr>tasks = t0 # t1 # ts, waiting = q\<rparr>"

lemma two_and_acquire_0:
  assumes "wanted t0 = Some (l, m)" and "\<forall>t \<in> set (t0 # t1 # ts). \<not> conflicts m l t"
  shows "lock_step\<^sup>*\<^sup>* (two_and t0 t1 ts []) (two_and (advance t0) t1 ts [])"
proof -
  have "lock_step (two_and t0 t1 ts []) (two_and t0 t1 ts [0])"
    using lock_step.enqueue [of 0 "two_and t0 t1 ts []"] assms(1) by (simp add: two_and_def)
  moreover have "lock_step (two_and t0 t1 ts [0]) (two_and (advance t0) t1 ts [])"
    using lock_step.grant [of "two_and t0 t1 ts [0]" "[]" 0 "[]" l m] assms by (simp add: two_and_def)
  ultimately show ?thesis
    by (meson converse_rtranclp_into_rtranclp r_into_rtranclp)
qed

lemma two_and_acquire_1:
  assumes "wanted t1 = Some (l, m)" and "\<forall>t \<in> set (t0 # t1 # ts). \<not> conflicts m l t"
  shows "lock_step\<^sup>*\<^sup>* (two_and t0 t1 ts []) (two_and t0 (advance t1) ts [])"
proof -
  have "lock_step (two_and t0 t1 ts []) (two_and t0 t1 ts [1])"
    using lock_step.enqueue [of 1 "two_and t0 t1 ts []"] assms(1) by (simp add: two_and_def)
  moreover have "lock_step (two_and t0 t1 ts [1]) (two_and t0 (advance t1) ts [])"
    using lock_step.grant [of "two_and t0 t1 ts [1]" "[]" 1 "[]" l m] assms by (simp add: two_and_def)
  ultimately show ?thesis
    by (meson converse_rtranclp_into_rtranclp r_into_rtranclp)
qed

lemma two_and_use_0:
  assumes "\<forall>t \<in> set (t1 # ts). fst t = []"
  shows "lock_step\<^sup>*\<^sup>* (two_and ([], Acquire l m # Release l # ops) t1 ts []) (two_and ([], ops) t1 ts [])"
proof -
  have "lock_step\<^sup>*\<^sup>* (two_and ([], Acquire l m # Release l # ops) t1 ts [])
      (two_and ([(l, m)], Release l # ops) t1 ts [])"
    using two_and_acquire_0 [of "([], Acquire l m # Release l # ops)" l m t1 ts] assms
    by (auto simp: conflicts_def)
  moreover have "lock_step (two_and ([(l, m)], Release l # ops) t1 ts []) (two_and ([], ops) t1 ts [])"
    using lock_step.release [of 0 "two_and ([(l, m)], Release l # ops) t1 ts []" l ops] by (simp add: two_and_def)
  ultimately show ?thesis
    by (rule rtranclp.rtrancl_into_rtrancl)
qed

lemma two_and_enqueue_rest:
  assumes "\<forall>t \<in> set ts. wanted t \<noteq> None" and "k \<le> length ts"
  shows "lock_step\<^sup>*\<^sup>* (two_and t0 t1 ts [0, 1]) (two_and t0 t1 ts ([0, 1] @ [2..<2 + k]))"
  using assms(2)
proof (induction k)
  case (Suc k)
  have "lock_step (two_and t0 t1 ts ([0, 1] @ [2..<2 + k])) (two_and t0 t1 ts ([0, 1] @ [2..<2 + Suc k]))"
    using lock_step.enqueue [of "2 + k" "two_and t0 t1 ts ([0, 1] @ [2..<2 + k])"] Suc.prems assms(1)
    by (simp add: two_and_def)
  then show ?case
    using Suc by (meson Suc_leD rtranclp.rtrancl_into_rtrancl)
qed simp

lemma two_and_stuck:
  assumes "wanted t0 = Some (a, WriteLock)" and "(a, WriteLock) \<in> set (fst t1)"
    and "wanted t1 = Some (b, WriteLock)" and "b \<in> fst ` set (fst t0)"
    and "\<forall>t \<in> set ts. wanted_lock t = Some a"
  shows "\<not> lock_step (two_and t0 t1 ts ([0, 1] @ [2..<2 + length ts])) s'"
proof
  let ?s = "two_and t0 t1 ts ([0, 1] @ [2..<2 + length ts])"
  have waiting: "i \<in> set (waiting ?s)" if "i < length (tasks ?s)" for i
    using that by (auto simp: two_and_def)
  have wanted: "\<exists>t \<in> set (tasks ?s). \<forall>m. wanted (tasks ?s ! i) = Some (l, m) \<longrightarrow> conflicts m l t"
    if "i < length (tasks ?s)" for i l
  proof (cases "i = 1")
    case True
    then show ?thesis
      using assms(3,4) by (auto simp: two_and_def conflicts_def)
  next
    case False
    have "wanted_lock (tasks ?s ! i) = Some a"
      using False that assms(1,5) by (auto simp: two_and_def wanted_lock_def nth_Cons split: nat.splits)
    then show ?thesis
      using assms(2) by (intro bexI [of _ t1]) (auto simp: two_and_def conflicts_def wanted_lock_def)
  qed
  have rest: "wanted (ts ! k) \<noteq> None" if "k < length ts" for k
    using bspec [OF assms(5) nth_mem [OF that]] by (auto simp: wanted_lock_def)
  have no_release: "snd (tasks ?s ! i) \<noteq> Release l # ops" if "i < length (tasks ?s)" for i l ops
  proof
    assume "snd (tasks ?s ! i) = Release l # ops"
    then have "wanted (tasks ?s ! i) = None"
      by (metis prod.collapse wanted.simps(2))
    then show False
      using that assms(1,3) by (auto simp: two_and_def nth_Cons dest!: rest split: nat.splits)
  qed
  assume "lock_step ?s s'"
  then show False
  proof cases
    case (enqueue i)
    then show ?thesis
      using waiting by blast
  next
    case (grant xs i ys l m)
    then show ?thesis
      using wanted by blast
  next
    case (release i l ops)
    then show ?thesis
      using no_release by blast
  qed
qed

text \<open>C32. Reconnecting can deadlock the channel manager. A reconnection that registers forwards again
  reads the set of forwards and then wants the session, while a request for a forward holds the
  session and then wants the set. There is an interleaving of the two, together with any other
  operations on the session, after which no operation can ever take another step and none of them has
  finished.\<close>

theorem reconnect_deadlock:
  assumes "list_all (\<lambda>op. op \<noteq> ReconnectFailsOp \<and> op \<noteq> ReconnectOp True \<and> op \<noteq> ReconnectOp False) others"
  shows "\<exists>s. lock_step\<^sup>*\<^sup>* (start_tasks (map manager_locks (ReconnectOp True # RequestOp True # others))) s \<and>
    (\<nexists>s'. lock_step s s') \<and> list_all (\<lambda>t. \<not> finished t) (tasks s)"
proof -
  let ?ts = "map (\<lambda>op. ([], manager_locks op)) others"
  let ?h = "[Acquire HandleLock WriteLock, Release HandleLock, Release ForwardsLock]"
  let ?f = "[Acquire ForwardsLock WriteLock, Release ForwardsLock, Release HandleLock]"
  let ?r0 = "([], Acquire ForwardsLock ReadLock # ?h)" and ?r1 = "([(ForwardsLock, ReadLock)], ?h)"
  let ?q0 = "([], Acquire HandleLock WriteLock # ?f)" and ?q1 = "([(HandleLock, WriteLock)], ?f)"
  let ?dl = "two_and ?r1 ?q1 ?ts ([0, 1] @ [2..<2 + length others])"
  have free: "\<forall>t \<in> set (?q0 # ?ts). fst t = []"
    by auto
  have rest: "wanted_lock ([], manager_locks op) = Some HandleLock" if "op \<in> set others" for op
    using assms that by (cases op) (auto simp: list_all_iff wanted_lock_def)
  have "start_tasks (map manager_locks (ReconnectOp True # RequestOp True # others)) =
      two_and ([], manager_locks (ReconnectOp True)) ?q0 ?ts []"
    by (simp add: start_tasks_def two_and_def)
  also have "lock_step\<^sup>*\<^sup>* \<dots> (two_and ?r0 ?q0 ?ts [])"
    by (simp, rule rtranclp_trans [OF two_and_use_0 [OF free]
          rtranclp_trans [OF two_and_use_0 [OF free] two_and_use_0 [OF free]]])
  also have "lock_step\<^sup>*\<^sup>* \<dots> (two_and ?r1 ?q0 ?ts [])"
    using two_and_acquire_0 [of ?r0 ForwardsLock ReadLock ?q0 ?ts] by (auto simp: conflicts_def)
  also have "lock_step\<^sup>*\<^sup>* \<dots> (two_and ?r1 ?q1 ?ts [])"
    using two_and_acquire_1 [of ?q0 HandleLock WriteLock ?r1 ?ts] by (auto simp: conflicts_def)
  also have "lock_step\<^sup>*\<^sup>* \<dots> (two_and ?r1 ?q1 ?ts [0, 1])"
    using lock_step.enqueue [of 0 "two_and ?r1 ?q1 ?ts []"] lock_step.enqueue [of 1 "two_and ?r1 ?q1 ?ts [0]"]
    by (auto simp: two_and_def intro: converse_rtranclp_into_rtranclp)
  also have "lock_step\<^sup>*\<^sup>* \<dots> ?dl"
  proof (rule two_and_enqueue_rest)
    show "\<forall>t \<in> set ?ts. wanted t \<noteq> None"
      using rest by (force simp: wanted_lock_def)
  qed simp
  finally have "lock_step\<^sup>*\<^sup>* (start_tasks (map manager_locks (ReconnectOp True # RequestOp True # others))) ?dl" .
  moreover have "\<not> lock_step ?dl s'" for s'
    using rest two_and_stuck [of ?r1 HandleLock ?q1 ForwardsLock ?ts] by auto
  moreover have "list_all (\<lambda>t. \<not> finished t) (tasks ?dl)"
    using rest by (force simp: two_and_def list_all_iff wanted_lock_def)
  ultimately show ?thesis
    by blast
qed

theorem reconnect_deadlock_witness:
  "\<exists>s. lock_step\<^sup>*\<^sup>* (start_tasks (map manager_locks [ReconnectOp True, RequestOp True, OpenOp, MonitorOp])) s \<and>
    (\<nexists>s'. lock_step s s') \<and> list_all (\<lambda>t. \<not> finished t) (tasks s)"
  by (rule reconnect_deadlock) simp

end
