(* ===== verification/Transports.thy ===== *)
theory Transports
  imports Transport Errors Rust_Net
begin

text \<open>
  \<open>transport/tcp.rs\<close>, \<open>transport/tls.rs\<close>, \<open>transport/acme.rs\<close> and \<open>transport/iroh_transport.rs\<close>: the clients and
  acceptors over which sessions run. Sockets, TLS handshakes, ACME and QUIC belong to libraries: they are
  arguments here. The model keeps what the code decides itself: how the server's certificate is
  checked, which name is asked for, and what the server is told about a connection.
\<close>

section \<open>TCP\<close>

record tcp_transport =
  tcp_addr :: socket_addr

definition tcp_transport_new :: "socket_addr \<Rightarrow> tcp_transport" where
  "tcp_transport_new addr = \<lparr>tcp_addr = addr\<rparr>"

definition tcp_connect :: "(socket_addr \<Rightarrow> io_error + 's) \<Rightarrow> tcp_transport \<Rightarrow> io_error + 's" where
  "tcp_connect connect t = connect (tcp_addr t)"

definition tcp_describe :: "tcp_transport \<Rightarrow> string" where
  "tcp_describe t = ''tcp://'' @ show_socket_addr (tcp_addr t)"

text \<open>Binding yields the address that was bound, which differs from the requested one for port 0.\<close>

record tcp_acceptor =
  tcp_listen_addr :: socket_addr

definition tcp_acceptor_bind :: "(socket_addr \<Rightarrow> io_error + socket_addr) \<Rightarrow> socket_addr \<Rightarrow> io_error + tcp_acceptor" where
  "tcp_acceptor_bind bind addr =
     (case bind addr of Err e \<Rightarrow> Err e | Ok a \<Rightarrow> Ok \<lparr>tcp_listen_addr = a\<rparr>)"

definition tcp_accept :: "io_error + 's \<times> socket_addr \<Rightarrow> io_error + 's \<times> transport_info" where
  "tcp_accept accepted =
     (case accepted of
        Err e \<Rightarrow> Err e
      | Ok (stream, peer) \<Rightarrow> Ok (stream, \<lparr>remote_addr = Some peer, transport_kind_of = Tcp\<rparr>))"

section \<open>TLS\<close>

text \<open>How the client checks the certificate of the server: not at all, or against a store of roots.\<close>

datatype 'cert verifier = NoVerifier | RootStore "'cert list"

record 'cert tls_transport =
  tls_addr :: socket_addr
  tls_server_name_of :: "string option"
  tls_insecure :: bool
  tls_root_cert :: "'cert option"

definition tls_transport_new :: "socket_addr \<Rightarrow> 'cert tls_transport" where
  "tls_transport_new addr = \<lparr>tls_addr = addr, tls_server_name_of = None, tls_insecure = False, tls_root_cert = None\<rparr>"

definition with_server_name :: "string \<Rightarrow> 'cert tls_transport \<Rightarrow> 'cert tls_transport" where
  "with_server_name name t = t\<lparr>tls_server_name_of := Some name\<rparr>"

definition with_insecure :: "bool \<Rightarrow> 'cert tls_transport \<Rightarrow> 'cert tls_transport" where
  "with_insecure b t = t\<lparr>tls_insecure := b\<rparr>"

definition with_root_cert :: "'cert \<Rightarrow> 'cert tls_transport \<Rightarrow> 'cert tls_transport" where
  "with_root_cert cert t = t\<lparr>tls_root_cert := Some cert\<rparr>"

text \<open>\<open>TLS_SERVER_ROOTS\<close> of \<open>webpki_roots\<close> and \<open>RootCertStore::add\<close>, which refuses a certificate it cannot
  read, are arguments.\<close>

definition build_client_config ::
  "'cert list \<Rightarrow> ('cert \<Rightarrow> 'cert list \<Rightarrow> string + 'cert list) \<Rightarrow> 'cert tls_transport \<Rightarrow> string + 'cert verifier" where
  "build_client_config roots add t =
     (if tls_insecure t then Ok NoVerifier
      else case tls_root_cert t of
        None \<Rightarrow> Ok (RootStore roots)
      | Some cert \<Rightarrow> (case add cert roots of Err e \<Rightarrow> Err e | Ok store \<Rightarrow> Ok (RootStore store)))"

definition resolve_server_name :: "(string \<Rightarrow> string + 'n) \<Rightarrow> 'cert tls_transport \<Rightarrow> string + 'n" where
  "resolve_server_name try_from t =
     (let name = (case tls_server_name_of t of Some n \<Rightarrow> n | None \<Rightarrow> show_ip_addr (sa_ip (tls_addr t))) in
      case try_from name of
        Ok n \<Rightarrow> Ok n
      | Err e \<Rightarrow> Err (''invalid server name '' @ [CHR 0x27] @ name @ [CHR 0x27] @ '': '' @ e))"

definition tls_connect ::
  "(socket_addr \<Rightarrow> string + 's) \<Rightarrow> 'cert list \<Rightarrow> ('cert \<Rightarrow> 'cert list \<Rightarrow> string + 'cert list) \<Rightarrow> (string \<Rightarrow> string + 'n) \<Rightarrow>
   ('cert verifier \<Rightarrow> 'n \<Rightarrow> 's \<Rightarrow> string + 'tls) \<Rightarrow> 'cert tls_transport \<Rightarrow> string + 'tls" where
  "tls_connect connect roots add try_from handshake t =
     result_bind (connect (tls_addr t)) (\<lambda>tcp.
     result_bind (build_client_config roots add t) (\<lambda>config.
     result_bind (resolve_server_name try_from t) (\<lambda>name.
       handshake config name tcp)))"

definition tls_describe :: "'cert tls_transport \<Rightarrow> string" where
  "tls_describe t = ''tls://'' @ show_socket_addr (tls_addr t)"

text \<open>What a verifier answers to the certificate of the end entity and the name of the server: the one of the
  insecure mode accepts everything; \<open>check\<close> is the verifier that rustls builds from a root store.\<close>

fun verify_server_cert :: "('cert list \<Rightarrow> 'cert \<Rightarrow> 'n \<Rightarrow> bool) \<Rightarrow> 'cert verifier \<Rightarrow> 'cert \<Rightarrow> 'n \<Rightarrow> bool" where
  "verify_server_cert check NoVerifier cert name = True"
| "verify_server_cert check (RootStore roots) cert name = check roots cert name"

text \<open>The TLS acceptor and the ACME acceptor bind and accept alike; the argument of \<open>tls_accept\<close> is the
  connection with the name the client asked for.\<close>

definition tls_acceptor_bind ::
  "(socket_addr \<Rightarrow> string + socket_addr) \<Rightarrow> ('cert list \<Rightarrow> 'k \<Rightarrow> string + 'cfg) \<Rightarrow> socket_addr \<Rightarrow> 'cert list \<Rightarrow> 'k \<Rightarrow>
   string + socket_addr \<times> 'cfg" where
  "tls_acceptor_bind bind with_single_cert addr certs key =
     result_bind (bind addr) (\<lambda>listen_addr.
     result_bind (with_single_cert certs key) (\<lambda>config.
       Ok (listen_addr, config)))"

definition tls_accept ::
  "string + 's \<times> socket_addr \<Rightarrow> ('s \<Rightarrow> string + 'tls \<times> string option) \<Rightarrow> string + 'tls \<times> transport_info" where
  "tls_accept accepted handshake =
     result_bind accepted (\<lambda>(tcp, peer).
     result_bind (handshake tcp) (\<lambda>(tls, server_name).
       Ok (tls, \<lparr>remote_addr = Some peer, transport_kind_of = Tls server_name\<rparr>)))"

section \<open>ACME\<close>

datatype acme_mode = AcmeDomain string | AcmeIp

record acme_cert_provider =
  acme_mode_of :: acme_mode
  acme_cache_dir :: "string option"
  acme_directory_url :: string
  acme_contact :: "string list"

text \<open>The addresses of the two directories are constants of \<open>rustls_acme\<close>.\<close>

definition acme_provider_new :: "string \<Rightarrow> acme_mode \<Rightarrow> acme_cert_provider" where
  "acme_provider_new staging mode =
     \<lparr>acme_mode_of = mode, acme_cache_dir = None, acme_directory_url = staging, acme_contact = []\<rparr>"

definition acme_provider_domain :: "string \<Rightarrow> string \<Rightarrow> acme_cert_provider" where
  "acme_provider_domain staging domain = acme_provider_new staging (AcmeDomain domain)"

definition acme_provider_ip :: "string \<Rightarrow> acme_cert_provider" where
  "acme_provider_ip staging = acme_provider_new staging AcmeIp"

definition with_cache_dir :: "string \<Rightarrow> acme_cert_provider \<Rightarrow> acme_cert_provider" where
  "with_cache_dir dir p = p\<lparr>acme_cache_dir := Some dir\<rparr>"

definition with_directory :: "string \<Rightarrow> acme_cert_provider \<Rightarrow> acme_cert_provider" where
  "with_directory url p = p\<lparr>acme_directory_url := url\<rparr>"

definition with_production_directory :: "string \<Rightarrow> acme_cert_provider \<Rightarrow> acme_cert_provider" where
  "with_production_directory production p = p\<lparr>acme_directory_url := production\<rparr>"

definition with_contact :: "string \<Rightarrow> acme_cert_provider \<Rightarrow> acme_cert_provider" where
  "with_contact contact p = p\<lparr>acme_contact := acme_contact p @ [contact]\<rparr>"

text \<open>What is handed to the ACME library: the domains, the directory, the contacts and the cache.\<close>

definition build_acme_state :: "acme_cert_provider \<Rightarrow> string list \<times> string \<times> string list \<times> string option" where
  "build_acme_state p =
     ((case acme_mode_of p of AcmeDomain domain \<Rightarrow> [domain] | AcmeIp \<Rightarrow> []),
      acme_directory_url p, acme_contact p, acme_cache_dir p)"

text \<open>\<open>ServerConfig\<close> with the resolver of the ACME library and the protocol of its challenge.\<close>

definition ACME_TLS_ALPN_NAME :: string where
  "ACME_TLS_ALPN_NAME = ''acme-tls/1''"

definition build_server_config_with_resolver :: "string + unit \<Rightarrow> 'r \<Rightarrow> string + 'r \<times> string list" where
  "build_server_config_with_resolver protocol_versions resolver =
     (case protocol_versions of
        Err e \<Rightarrow> Err (''failed to set protocol versions: '' @ e)
      | Ok _ \<Rightarrow> Ok (resolver, [ACME_TLS_ALPN_NAME]))"

text \<open>\<open>acme_state\<close> is what the ACME library makes of the provider's settings: the state, whose events a
  background task follows, and the resolver.\<close>

definition acme_bind ::
  "(socket_addr \<Rightarrow> string + socket_addr) \<Rightarrow> (string list \<times> string \<times> string list \<times> string option \<Rightarrow> 'r) \<Rightarrow> string + unit \<Rightarrow>
   socket_addr \<Rightarrow> acme_cert_provider \<Rightarrow> string + socket_addr \<times> 'r \<times> string list" where
  "acme_bind bind acme_state protocol_versions addr p =
     (let resolver = acme_state (build_acme_state p) in
      result_bind (build_server_config_with_resolver protocol_versions resolver) (\<lambda>config.
      result_bind (bind addr) (\<lambda>listen_addr.
        Ok (listen_addr, config))))"

text \<open>\<open>TlsAcceptor::bind_acme\<close> takes the resolver itself and binds before it builds the configuration.\<close>

definition tls_acceptor_bind_acme ::
  "(socket_addr \<Rightarrow> string + socket_addr) \<Rightarrow> string + unit \<Rightarrow> socket_addr \<Rightarrow> 'r \<Rightarrow> string + socket_addr \<times> 'r \<times> string list" where
  "tls_acceptor_bind_acme bind protocol_versions addr resolver =
     result_bind (bind addr) (\<lambda>listen_addr.
     result_bind (map_err (\<lambda>e. ''failed to set protocol versions: '' @ e) protocol_versions) (\<lambda>_.
       Ok (listen_addr, resolver, [ACME_TLS_ALPN_NAME])))"

lemma acme_binds_agree:
  "acme_bind bind acme_state pv addr p = Ok x \<longleftrightarrow>
     tls_acceptor_bind_acme bind pv addr (acme_state (build_acme_state p)) = Ok x"
  by (auto simp: acme_bind_def tls_acceptor_bind_acme_def build_server_config_with_resolver_def Let_def
      result_bind_def map_err_def split: sum.splits)

text \<open>The task that follows the events of the ACME library, as what it logs: each event comes with the
  number of owners the resolver has after it, and the task stops when it is the last one.\<close>

datatype acme_event = DeployedNewCert | OtherEvent (event_debug: string)

datatype log_line = LogInfo string | LogError string

fun log_acme_event :: "string + acme_event \<Rightarrow> log_line" where
  "log_acme_event (Ok DeployedNewCert) = LogInfo ''ACME: new certificate deployed''"
| "log_acme_event (Ok (OtherEvent dbg)) = LogInfo (''ACME event: '' @ dbg)"
| "log_acme_event (Err err) = LogError (''ACME event error: '' @ err)"

fun state_worker :: "((string + acme_event) \<times> nat) list \<Rightarrow> log_line list" where
  "state_worker [] = []"
| "state_worker ((event, strong_count) # evs) = log_acme_event event #
     (if strong_count = 1 then [LogInfo ''ACME resolver dropped, stopping background task''] else state_worker evs)"

text \<open>No failure stops it: as long as the resolver has another owner, every event is handled.\<close>

lemma state_worker_follows:
  "list_all (\<lambda>(_, n). n \<noteq> 1) evs \<Longrightarrow> state_worker evs = map (log_acme_event \<circ> fst) evs"
  by (induction evs rule: state_worker.induct) auto

section \<open>iroh\<close>

definition ALPN :: string where
  "ALPN = ''alknet-ssh''"

definition DEFAULT_RELAY_URL :: string where
  "DEFAULT_RELAY_URL = ''https://relay.iroh.network/''"

record ('node, 'ep) iroh_transport =
  iroh_node_id :: 'node
  iroh_endpoint :: 'ep
  iroh_owned :: bool

text \<open>Building an endpoint takes the relay, the protocols it speaks and the proxy.\<close>

definition iroh_transport_new ::
  "(string \<Rightarrow> string list \<Rightarrow> string option \<Rightarrow> string + 'ep) \<Rightarrow> 'node \<Rightarrow> string option \<Rightarrow> string option \<Rightarrow>
   string + ('node, 'ep) iroh_transport" where
  "iroh_transport_new build node_id relay_url proxy_url =
     (let relay = (case relay_url of Some u \<Rightarrow> u | None \<Rightarrow> DEFAULT_RELAY_URL) in
      result_bind (build relay [ALPN] proxy_url) (\<lambda>ep.
        Ok \<lparr>iroh_node_id = node_id, iroh_endpoint = ep, iroh_owned = True\<rparr>))"

definition iroh_transport_from_endpoint :: "'node \<Rightarrow> 'ep \<Rightarrow> ('node, 'ep) iroh_transport" where
  "iroh_transport_from_endpoint node_id ep = \<lparr>iroh_node_id = node_id, iroh_endpoint = ep, iroh_owned = False\<rparr>"

definition iroh_connect ::
  "('ep \<Rightarrow> 'node \<Rightarrow> string \<Rightarrow> string + 'c) \<Rightarrow> ('c \<Rightarrow> string + 's) \<Rightarrow> ('node, 'ep) iroh_transport \<Rightarrow> string + 's" where
  "iroh_connect connect open_bi t =
     result_bind (connect (iroh_endpoint t) (iroh_node_id t) ALPN) open_bi"

definition iroh_describe :: "('node \<Rightarrow> string) \<Rightarrow> ('node, 'ep) iroh_transport \<Rightarrow> string" where
  "iroh_describe to_z32 t = ''iroh://'' @ to_z32 (iroh_node_id t)"

record 'ep iroh_acceptor =
  ia_endpoint :: 'ep
  ia_owned :: bool

definition iroh_acceptor_bind ::
  "(string \<Rightarrow> string list \<Rightarrow> string option \<Rightarrow> string + 'ep) \<Rightarrow> string option \<Rightarrow> string option \<Rightarrow> string + 'ep iroh_acceptor" where
  "iroh_acceptor_bind build relay_url proxy_url =
     (let relay = (case relay_url of Some u \<Rightarrow> u | None \<Rightarrow> DEFAULT_RELAY_URL) in
      result_bind (build relay [ALPN] proxy_url) (\<lambda>ep. Ok \<lparr>ia_endpoint = ep, ia_owned = True\<rparr>))"

definition iroh_acceptor_from_endpoint :: "'ep \<Rightarrow> 'ep iroh_acceptor" where
  "iroh_acceptor_from_endpoint ep = \<lparr>ia_endpoint = ep, ia_owned = False\<rparr>"

text \<open>The incoming connection, if the endpoint is open; its handshake, the identity of the peer, and its
  first stream.\<close>

definition iroh_accept ::
  "('node \<Rightarrow> string) \<Rightarrow> 'i option \<Rightarrow> ('i \<Rightarrow> string + 'c) \<Rightarrow> ('c \<Rightarrow> string + 'node) \<Rightarrow> ('c \<Rightarrow> string + 's) \<Rightarrow>
   string + 's \<times> transport_info" where
  "iroh_accept to_z32 incoming handshake remote_node_id accept_bi =
     (case incoming of
        None \<Rightarrow> Err ''endpoint closed''
      | Some i \<Rightarrow>
          result_bind (handshake i) (\<lambda>c.
          result_bind (remote_node_id c) (\<lambda>node.
          result_bind (accept_bi c) (\<lambda>s.
            Ok (s, \<lparr>remote_addr = None, transport_kind_of = Iroh (to_z32 node)\<rparr>)))))"

section \<open>What the server learns, and what the client checks\<close>

lemma transport_info_of_accept:
  "tcp_accept acc = Ok (s, info) \<Longrightarrow> transport_kind_of info = Tcp \<and> remote_addr info \<noteq> None"
  "tls_accept acc' hs = Ok (s', info) \<Longrightarrow> is_tls (transport_kind_of info) \<and> remote_addr info \<noteq> None"
  "iroh_accept z inc h r b = Ok (s'', info) \<Longrightarrow> is_iroh (transport_kind_of info) \<and> remote_addr info = None"
  by (auto simp: tcp_accept_def tls_accept_def iroh_accept_def result_bind_def
      split: sum.splits prod.splits option.splits)

text \<open>The certificate of the server goes unchecked only in the insecure mode, whatever else is configured.\<close>

lemma tls_connect_checks:
  assumes "tls_connect connect roots add try_from handshake t = Ok tls" and "\<not> tls_insecure t"
    and "\<And>config name tcp tls. handshake config name tcp = Ok tls \<Longrightarrow> verify_server_cert check config cert name"
    and "\<And>c rs rs'. add c rs = Ok rs' \<Longrightarrow> set rs' = insert c (set rs)"
  shows "\<exists>store name. resolve_server_name try_from t = Ok name \<and> check store cert name \<and> set store = set roots \<union> set_option (tls_root_cert t)"
proof -
  obtain tcp config name where c: "build_client_config roots add t = Ok config"
      and n: "resolve_server_name try_from t = Ok name" and h: "handshake config name tcp = Ok tls"
    using assms(1) by (auto simp: tls_connect_def result_bind_Inr_iff)
  obtain store where "config = RootStore store" and "set store = set roots \<union> set_option (tls_root_cert t)"
    using c assms(2) assms(4) [of _ roots]
    by (auto simp: build_client_config_def split: option.splits sum.splits)
  then show ?thesis
    using assms(3) [OF h] n by auto
qed

end
