(* ===== verification/Napi_Connect.thy ===== *)
theory Napi_Connect
  imports Napi_Serve Channel_Manager Transports
begin

text \<open>
  \<open>alknet-napi/src/connect.rs\<close>: the client as a Node.js module. It opens one channel to the reserved
  destination and hands it to JavaScript as a stream. Connecting, the handshake, authentication and
  opening a channel are arguments.
\<close>

definition DEFAULT_HOST :: string where
  "DEFAULT_HOST = ''alknet-control''"

definition DEFAULT_PORT :: u32 where
  "DEFAULT_PORT = 0"

record alknet_connect_options =
  nc_server :: "string option"
  nc_peer :: "string option"
  nc_transport :: string
  nc_identity :: "napi_key option"
  nc_tls_server_name :: "string option"
  nc_insecure :: "bool option"
  nc_iroh_relay :: "string option"
  nc_proxy :: "string option"

definition resolve_identity_source :: "napi_key option \<Rightarrow> napi_error + key_source" where
  "resolve_identity_source identity =
     (case identity of
        None \<Rightarrow> Err (InvalidArg ''identity is required: provide a file path (string) or key data (Buffer)'')
      | Some (KeyPath path) \<Rightarrow> Ok (File path)
      | Some (KeyBuffer buf) \<Rightarrow> Ok (Memory buf))"

definition parse_server_addr :: "string \<Rightarrow> napi_error + socket_addr" where
  "parse_server_addr s =
     (case parse_socket_addr s of
        Some a \<Rightarrow> Ok a
      | None \<Rightarrow> Err (InvalidArg (''invalid server address '' @ [CHR 0x27] @ s @ [CHR 0x27] @ '': '' @ addr_parse_error)))"

section \<open>Streams\<close>

text \<open>The stream that JavaScript gets. A read of no bytes is the end of the channel.\<close>

definition client_stream_read :: "u32 \<Rightarrow> stream \<Rightarrow> (napi_error + bytes) \<times> stream" where
  "client_stream_read n s =
     (case st_read (unat n) s of
        (Err e, s') \<Rightarrow> (Err (GenericFailure (''read failed: '' @ io_message e)), s')
      | (Ok buf, s') \<Rightarrow> (Ok buf, s'))"

definition client_stream_write :: "bytes \<Rightarrow> stream \<Rightarrow> (napi_error + unit) \<times> stream" where
  "client_stream_write data s =
     (case st_write_all data s of
        (Err e, s') \<Rightarrow> (Err (GenericFailure (''write failed: '' @ io_message e)), s')
      | (Ok _, s') \<Rightarrow> (Ok (), s'))"

definition client_stream_close :: "stream \<Rightarrow> (napi_error + unit) \<times> stream" where
  "client_stream_close = io_map_err (\<lambda>e. GenericFailure (''close failed: '' @ io_message e)) st_close"

text \<open>A program that works with the stream of one side works with the stream of the other.\<close>

lemma streams_alike:
  "client_stream_read = stream_read" "client_stream_write = stream_write" "client_stream_close = stream_close"
  by (simp_all add: fun_eq_iff client_stream_read_def stream_read_def client_stream_write_def stream_write_def
      client_stream_close_def stream_close_def)

section \<open>Connecting\<close>

record ('sk, 'key, 'cert, 'node, 'h) connect_api =
  ca_connect_tcp :: "tcp_transport \<Rightarrow> string + stream"
  ca_connect_tls :: "'cert tls_transport \<Rightarrow> string + stream"
  ca_parse_node :: "string \<Rightarrow> string + 'node"
  ca_parse_relay :: "string \<Rightarrow> string + string"
  ca_parse_url :: "string \<Rightarrow> string + string"
  ca_iroh_endpoint :: "'node \<Rightarrow> string option \<Rightarrow> string option \<Rightarrow> string + (string + stream)"
  ca_handshake :: "'key client_handler \<Rightarrow> stream \<Rightarrow> string + 'h"
  ca_authenticate :: "'sk \<Rightarrow> string \<Rightarrow> 'h \<Rightarrow> (string + bool) \<times> 'h"
  ca_open :: "string \<Rightarrow> u32 \<Rightarrow> string \<Rightarrow> u32 \<Rightarrow> 'h \<Rightarrow> string + stream"

definition required :: "string \<Rightarrow> 'a option \<Rightarrow> napi_error + 'a" where
  "required msg x = (case x of Some a \<Rightarrow> Ok a | None \<Rightarrow> Err (InvalidArg msg))"

definition napi_connect_tcp ::
  "('sk, 'key, 'cert, 'node, 'h) connect_api \<Rightarrow> alknet_connect_options \<Rightarrow> napi_error + stream" where
  "napi_connect_tcp api opts =
     result_bind (required ''server is required for tcp transport'' (nc_server opts)) (\<lambda>server.
     result_bind (parse_server_addr server) (\<lambda>addr.
       map_err (\<lambda>e. GenericFailure (''tcp connect failed: '' @ e)) (ca_connect_tcp api (tcp_transport_new addr))))"

definition napi_connect_tls ::
  "('sk, 'key, 'cert, 'node, 'h) connect_api \<Rightarrow> alknet_connect_options \<Rightarrow> napi_error + stream" where
  "napi_connect_tls api opts =
     result_bind (required ''server is required for tls transport'' (nc_server opts)) (\<lambda>server.
     result_bind (parse_server_addr server) (\<lambda>addr.
       let t1 = apply_opt with_server_name (nc_tls_server_name opts) (tls_transport_new addr);
           t2 = (if nc_insecure opts = Some True then with_insecure True t1 else t1) in
       map_err (\<lambda>e. GenericFailure (''tls connect failed: '' @ e)) (ca_connect_tls api t2)))"

definition napi_connect_iroh ::
  "('sk, 'key, 'cert, 'node, 'h) connect_api \<Rightarrow> alknet_connect_options \<Rightarrow> napi_error + stream" where
  "napi_connect_iroh api opts =
     result_bind (required ''peer is required for iroh transport'' (nc_peer opts)) (\<lambda>peer.
     result_bind (map_err (\<lambda>e. InvalidArg (''invalid iroh peer ID '' @ [CHR 0x27] @ peer @ [CHR 0x27] @ '': '' @ e))
       (ca_parse_node api peer)) (\<lambda>node.
     result_bind (opt_parse ''invalid iroh relay URL'' (ca_parse_relay api) (nc_iroh_relay opts)) (\<lambda>relay.
     result_bind (opt_parse ''invalid proxy URL'' (ca_parse_url api) (nc_proxy opts)) (\<lambda>proxy.
     result_bind (map_err (\<lambda>e. GenericFailure (''iroh endpoint setup failed: '' @ e))
       (ca_iroh_endpoint api node relay proxy)) (\<lambda>connected.
       map_err (\<lambda>e. GenericFailure (''iroh connect failed: '' @ e)) connected)))))"

definition napi_open_channel ::
  "('sk, 'key, 'cert, 'node, 'h) connect_api \<Rightarrow> ('sk, 'key) client_auth_config \<Rightarrow> 'h \<Rightarrow> napi_error + stream" where
  "napi_open_channel api config h =
     (case ca_authenticate api (ca_private_key config) ''alknet'' h of
        (Err e, _) \<Rightarrow> Err (GenericFailure (''ssh auth failed: '' @ e))
      | (Ok auth_ok, h') \<Rightarrow>
          if \<not> auth_ok then Err (GenericFailure ''ssh authentication rejected'')
          else map_err (\<lambda>e. GenericFailure (''failed to open ssh channel: '' @ e))
            (ca_open api DEFAULT_HOST DEFAULT_PORT ''127.0.0.1'' 0 h'))"

definition napi_connect ::
  "(string \<Rightarrow> bytes option) \<Rightarrow> (string \<Rightarrow> string + 'sk) \<Rightarrow> ('sk \<Rightarrow> 'key) \<Rightarrow>
   ('sk, 'key, 'cert, 'node, 'h) connect_api \<Rightarrow> alknet_connect_options \<Rightarrow> napi_error + stream" where
  "napi_connect fs decode_sk public_key api opts =
     result_bind (resolve_identity_source (nc_identity opts)) (\<lambda>source.
     result_bind (map_err (\<lambda>e. InvalidArg (''invalid identity key: '' @ show_config_error e))
       (from_key_source fs decode_sk public_key source)) (\<lambda>config.
     let mode = to_lowercase (nc_transport opts) in
     result_bind
       (if mode = ''tcp'' then napi_connect_tcp api opts
        else if mode = ''tls'' then napi_connect_tls api opts
        else if mode = ''iroh'' then napi_connect_iroh api opts
        else Err (InvalidArg (''unknown transport '' @ [CHR 0x27] @ mode @ [CHR 0x27] @ ''; expected tcp, tls, or iroh''))) (\<lambda>s.
     result_bind (map_err (\<lambda>e. GenericFailure (''ssh handshake failed: '' @ e))
       (ca_handshake api (client_handler_from_config config) s)) (\<lambda>h.
       napi_open_channel api config h))))"

section \<open>Client and server\<close>

text \<open>The channel the client asks for is the one the server of the module hands to JavaScript, whatever
  the forwarding policy and the identity of the client are.\<close>

lemma napi_channel_reaches_server:
  "napi_channel_open_direct_tcpip contains sender_open cfg DEFAULT_HOST DEFAULT_PORT h = (True, sender_open)"
  by (simp add: napi_channel_open_direct_tcpip_def DEFAULT_HOST_def starts_with_def)

lemma napi_connect_authenticates:
  assumes "napi_connect fs decode_sk public_key api opts = Ok channel"
  shows "\<exists>sk h h'. ca_authenticate api sk ''alknet'' h = (Ok True, h') \<and>
    ca_open api DEFAULT_HOST DEFAULT_PORT ''127.0.0.1'' 0 h' = Ok channel"
proof -
  obtain config h where "napi_open_channel api config h = Ok channel"
    using assms unfolding napi_connect_def Let_def result_bind_Inr_iff by blast
  then have "\<exists>h'. ca_authenticate api (ca_private_key config) ''alknet'' h = (Ok True, h') \<and>
      ca_open api DEFAULT_HOST DEFAULT_PORT ''127.0.0.1'' 0 h' = Ok channel"
    by (auto simp: napi_open_channel_def map_err_def split: prod.splits sum.splits if_splits)
  then show ?thesis
    by blast
qed

end
