(* ===== verification/Rust_Ipv6.thy ===== *)
theory Rust_Ipv6
  imports Rust_Net
begin

text \<open>
  Printed addresses parse back: what \<open>Display\<close> writes for an IPv6 address, with the longest run of zero
  groups left out or as an IPv4-mapped address, is read by \<open>FromStr\<close> as that address, and so is a printed
  socket address. An IPv6 address without brackets and a port is not a socket address.
\<close>

section \<open>Groups\<close>

lemma to_digit_colon: "to_digit 16 CHR '':'' = None" "to_digit 16 CHR '']'' = None" "to_digit 10 CHR '']'' = None"
  by (simp_all add: to_digit_def byte_val_def)

text \<open>What ends a group: the end of the input or a character that is no digit.\<close>

definition no_digit :: "string \<Rightarrow> bool" where
  "no_digit t \<longleftrightarrow> (\<forall>c r. t = c # r \<longrightarrow> to_digit 16 c = None)"

lemma no_digit_simps [simp]:
  "no_digit []" "no_digit (CHR '':'' # t)" "no_digit (CHR '']'' # t)"
  by (simp_all add: no_digit_def to_digit_colon)

lemma read_group_show:
  assumes "no_digit t"
  shows "read_number 16 (Some 4) True 65535 (show_nat_radix 16 (unat (g :: u16)) @ t) = Some (unat g, t)"
proof -
  have "unat g < 16 ^ 4"
    using unsigned_less [of g, where ?'a = nat] by simp
  then show ?thesis
    using assms by (intro read_number_show) (auto simp: no_digit_def)
qed

lemma read_group_none:
  assumes "no_digit t"
  shows "read_number 16 m z v t = None"
  using assms by (cases t) (auto simp: no_digit_def read_number_def split: option.split)

text \<open>Without a dot there is no IPv4 address.\<close>

lemma read_ipv4_no_dot:
  assumes "CHR ''.'' \<notin> set s"
  shows "read_ipv4_addr s = None"
proof (rule ccontr)
  assume "read_ipv4_addr s \<noteq> None"
  then obtain a r u r' where "read_octet s = Some (a, r)" "read_given_char CHR ''.'' r = Some (u, r')"
    by (auto simp: read_ipv4_addr_def bind_eq_Some_conv)
  then have "is_rest (CHR ''.'' # r') s"
    by (auto dest: read_octet_rest read_given_char_rest)
  with assms show False
    by (auto simp: is_rest_def)
qed

lemma read_separated_ipv4_no_dot:
  "CHR ''.'' \<notin> set s \<Longrightarrow> Option.bind (read_separator i s) (\<lambda>(_, s1). read_ipv4_addr s1) = None"
  by (auto simp: read_separator_def read_given_char_def read_ipv4_no_dot split: list.split)

text \<open>What stops the groups: nothing that could be a further group follows.\<close>

definition no_group :: "nat \<Rightarrow> string \<Rightarrow> bool" where
  "no_group i t \<longleftrightarrow> (if 0 < i then (case t of c # r \<Rightarrow> c = CHR '':'' \<longrightarrow> no_digit r | [] \<Rightarrow> True) else no_digit t)"

lemma read_groups_stop:
  assumes "CHR ''.'' \<notin> set t" "no_group i t \<or> limit \<le> i"
  shows "read_groups limit i acc t = (acc, False, t)"
proof -
  have "Option.bind (read_separator i t) (\<lambda>(_, s1). read_number 16 (Some 4) True 65535 s1) = None" if "no_group i t"
    using that by (auto simp: no_group_def read_separator_def read_given_char_def read_group_none split: if_splits list.splits)
  then show ?thesis
    using assms by (auto simp: read_groups.simps [of limit i] read_separated_ipv4_no_dot)
qed

definition sep :: "nat \<Rightarrow> u16 list \<Rightarrow> string" where
  "sep i gs = (if 0 < i \<and> gs \<noteq> [] then '':'' else [])"

lemma fmt_subslice_Cons:
  "fmt_subslice (g # gs) = show_nat_radix 16 (unat g) @ sep 1 gs @ fmt_subslice gs"
  by (cases gs) (simp_all add: sep_def)

lemma fmt_subslice_no_char:
  assumes "to_digit 16 c = None" "c \<noteq> CHR '':''"
  shows "c \<notin> set (fmt_subslice gs)"
proof (induction gs)
  case (Cons g gs)
  have "from_digit d \<noteq> c" if "d < 16" for d
    using to_digit_from_digit [of d 16] assms(1) that by auto
  then have "c \<notin> set (show_nat_radix 16 (unat g))"
    using digits_rev_bound [of 16 _ "unat g"] by (fastforce simp: show_nat_radix_def)
  with Cons assms(2) show ?case
    by (simp add: fmt_subslice_Cons sep_def)
qed simp

lemma fmt_subslice_no_dot: "CHR ''.'' \<notin> set (fmt_subslice gs)"
  by (rule fmt_subslice_no_char) (simp_all add: to_digit_def byte_val_def)

lemma read_groups_fmt:
  assumes "length gs \<le> limit - i" "CHR ''.'' \<notin> set t" "no_digit t"
    and "no_group (i + length gs) t \<or> limit \<le> i + length gs"
  shows "read_groups limit i acc (sep i gs @ fmt_subslice gs @ t) = (acc @ gs, False, t)"
  using assms
proof (induction gs arbitrary: i acc)
  case Nil
  then show ?case
    by (simp add: sep_def read_groups_stop)
next
  case (Cons g gs)
  let ?s = "sep i (g # gs) @ fmt_subslice (g # gs) @ t" and ?r = "sep 1 gs @ fmt_subslice gs @ t"
  have dot: "CHR ''.'' \<notin> set ?s"
    using Cons.prems(2) fmt_subslice_no_dot [of "g # gs"] by (simp add: sep_def)
  have "no_digit ?r"
    using Cons.prems(3) by (cases gs) (simp_all add: sep_def)
  then have g: "Option.bind (read_separator i ?s) (\<lambda>(_, s1). read_number 16 (Some 4) True 65535 s1) = Some (unat g, ?r)"
    using read_group_show [of ?r g] by (simp add: sep_def read_separator_def fmt_subslice_Cons)
  have "?r = sep (i + 1) gs @ fmt_subslice gs @ t"
    by (simp add: sep_def)
  moreover have "\<not> limit \<le> i" "length gs \<le> limit - (i + 1)"
    using Cons.prems(1) by auto
  ultimately show ?case
    using Cons.IH [of "i + 1" "acc @ [g]"] Cons.prems(2-4) read_separated_ipv4_no_dot [OF dot, of i] g
    by (simp add: read_groups.simps [of limit i])
qed

section \<open>The run of zeros\<close>

definition zeros_at :: "u16 list \<Rightarrow> nat \<times> nat \<Rightarrow> bool" where
  "zeros_at gs sp \<longleftrightarrow> fst sp + snd sp \<le> length gs \<and> take (snd sp) (drop (fst sp) gs) = replicate (snd sp) 0"

lemma zeros_at_append: "zeros_at gs sp \<Longrightarrow> zeros_at (gs @ hs) sp"
  by (simp add: zeros_at_def)

lemma zero_span_zeros:
  assumes "zeros_at pre longest" "zeros_at pre cur" "snd cur \<noteq> 0 \<Longrightarrow> fst cur + snd cur = length pre"
  shows "zeros_at (pre @ gs) (zero_span (length pre) cur longest gs)"
  using assms
proof (induction gs arbitrary: pre cur longest)
  case (Cons g gs)
  obtain cs cl ls ll where sp: "cur = (cs, cl)" "longest = (ls, ll)"
    by fastforce
  let ?cur = "(if cl = 0 then length pre else cs, cl + 1)"
  show ?case
  proof (cases "g = 0")
    case True
    then have "zeros_at (pre @ [g]) ?cur"
      using Cons.prems sp by (auto simp: zeros_at_def replicate_append_same)
    moreover have "zeros_at (pre @ [g]) longest"
      using Cons.prems(1) by (rule zeros_at_append)
    ultimately show ?thesis
      using Cons.IH [of "pre @ [g]" "if ll < cl + 1 then ?cur else longest" ?cur] Cons.prems sp True
      by (auto simp: Let_def)
  next
    case False
    then show ?thesis
      using Cons.IH [of "pre @ [g]" longest "(0, 0)"] Cons.prems(1) sp
      by (auto simp: zeros_at_append) (simp add: zeros_at_def)
  qed
qed simp

section \<open>Addresses\<close>

lemma read_ipv6_plain:
  assumes "length gs = 8" "no_digit t" "CHR ''.'' \<notin> set t"
  shows "read_ipv6_addr (fmt_subslice gs @ t) = Some (ipv6_of_groups gs, t)"
  using assms read_groups_fmt [of gs 8 0 t "[]"] by (simp add: read_ipv6_addr_def sep_def)

lemma read_ipv6_gap:
  assumes "length hs + length ts < 8" "CHR ''.'' \<notin> set t" "no_group (length ts) t" "no_digit t"
  shows "read_ipv6_addr (fmt_subslice hs @ ''::'' @ fmt_subslice ts @ t) =
    Some (ipv6_of_groups (hs @ replicate (8 - length hs - length ts) 0 @ ts), t)"
proof -
  have "no_group (length hs) (''::'' @ r)" for r
    by (simp add: no_group_def)
  then have "read_groups 8 0 [] (fmt_subslice hs @ ''::'' @ fmt_subslice ts @ t) =
      (hs, False, ''::'' @ fmt_subslice ts @ t)"
    using assms read_groups_fmt [of hs 8 0 "''::'' @ fmt_subslice ts @ t" "[]"] fmt_subslice_no_dot [of ts]
    by (simp add: sep_def)
  moreover have "read_groups (8 - (length hs + 1)) 0 [] (fmt_subslice ts @ t) = (ts, False, t)"
    using assms read_groups_fmt [of ts "8 - (length hs + 1)" 0 t "[]"] by (simp add: sep_def)
  ultimately show ?thesis
    using assms(1) by (simp add: read_ipv6_addr_def)
qed

text \<open>The IPv4-mapped form: one group and an embedded IPv4 address.\<close>

lemma read_ipv6_mapped:
  assumes "\<And>x r. t = x # r \<Longrightarrow> to_digit 10 x = None"
  shows "read_ipv6_addr (''::ffff:'' @ show_ipv4 a b c d @ t) =
    Some (V6 0 0 0 0 0 65535 (u16_from_be_bytes a b) (u16_from_be_bytes c d), t)"
proof -
  let ?v4 = "show_ipv4 a b c d @ t"
  have digits: "read_digits 16 (''ffff:'' @ ?v4) = ([15, 15, 15, 15], '':'' @ ?v4)"
    "read_digits 10 (''ffff:'' @ ?v4) = ([], ''ffff:'' @ ?v4)"
    by (simp_all add: to_digit_def byte_val_def)
  have first: "read_ipv4_addr (''ffff:'' @ ?v4) = None"
    "read_number 16 (Some 4) True 65535 (''ffff:'' @ ?v4) = Some (65535, '':'' @ ?v4)"
    using digits by (simp_all add: read_ipv4_addr_def read_octet_def read_number_def digits_val_def)
  have "read_ipv4_addr ?v4 = Some ((a, b, c, d), t)"
    by (rule read_ipv4_show) (rule assms)
  then have "read_groups 7 1 [65535] ('':'' @ ?v4) = ([65535, u16_from_be_bytes a b, u16_from_be_bytes c d], True, t)"
    by (simp add: read_groups.simps [of 7 "Suc 0"] read_separator_def)
  then have "read_groups 7 0 [] (''ffff:'' @ ?v4) = ([65535, u16_from_be_bytes a b, u16_from_be_bytes c d], True, t)"
    using first by (simp add: read_groups.simps [of 7 0] read_separator_def)
  moreover have "read_groups 8 0 [] (''::ffff:'' @ ?v4) = ([], False, ''::ffff:'' @ ?v4)"
    by (simp add: read_groups.simps [of 8 0] read_separator_def read_ipv4_addr_def read_octet_def
        read_number_def to_digit_def byte_val_def)
  ultimately show ?thesis
    by (simp add: read_ipv6_addr_def ipv6_of_groups_def eval_nat_numeral)
qed

lemma read_ipv6_show:
  assumes "length gs = 8" "t = [] \<or> (\<exists>r. t = CHR '']'' # r \<and> CHR ''.'' \<notin> set r)"
  shows "read_ipv6_addr (show_ipv6 gs @ t) = Some (ipv6_of_groups gs, t)"
proof -
  have t: "no_digit t" "CHR ''.'' \<notin> set t" "no_group n t" "\<And>x r. t = x # r \<Longrightarrow> to_digit 10 x = None" for n
    using assms(2) by (auto simp: no_group_def to_digit_colon)
  obtain start len where sp: "zero_span 0 (0, 0) (0, 0) gs = (start, len)"
    by fastforce
  then have z: "start + len \<le> 8" "take len (drop start gs) = replicate len 0"
    using zero_span_zeros [of "[]" "(0, 0)" "(0, 0)" gs] assms(1) by (simp_all add: zeros_at_def)
  have split: "take start gs @ replicate len 0 @ drop (start + len) gs = gs"
    unfolding z(2) [symmetric] by (metis add.commute append_take_drop_id drop_drop)
  consider (mapped) "take 5 gs = replicate 5 0" "gs ! 5 = 65535"
    | (gap) "\<not> (take 5 gs = replicate 5 0 \<and> gs ! 5 = 65535)" "1 < len"
    | (plain) "\<not> (take 5 gs = replicate 5 0 \<and> gs ! 5 = 65535)" "\<not> 1 < len"
    by blast
  then show ?thesis
  proof cases
    case mapped
    then have "gs ! i = 0" if "i < 5" for i
      using that nth_take [of i 5 gs] by simp
    then show ?thesis
      using mapped read_ipv6_mapped [of t, OF t(4)]
      by (simp add: show_ipv6_def ipv6_of_groups_def)
  next
    case gap
    have "read_ipv6_addr (fmt_subslice (take start gs) @ ''::'' @ fmt_subslice (drop (start + len) gs) @ t) =
        Some (ipv6_of_groups gs, t)"
      using read_ipv6_gap [of "take start gs" "drop (start + len) gs" t] gap t z(1) split assms(1) by simp
    with gap sp show ?thesis
      by (auto simp: show_ipv6_def)
  next
    case plain
    then show ?thesis
      using read_ipv6_plain [OF assms(1) t(1,2)] sp by (auto simp: show_ipv6_def)
  qed
qed

lemma read_ipv4_show_ipv6:
  assumes "CHR ''.'' \<notin> set t"
  shows "read_ipv4_addr (show_ipv6 gs @ t) = None"
proof (cases "take 5 gs = replicate 5 0 \<and> gs ! 5 = 65535")
  case True
  then show ?thesis
    by (simp add: show_ipv6_def read_ipv4_addr_def read_octet_def read_number_def to_digit_def byte_val_def)
next
  case False
  then have "CHR ''.'' \<notin> set (show_ipv6 gs)"
    using fmt_subslice_no_dot by (auto simp: show_ipv6_def split: prod.split)
  with assms show ?thesis
    by (intro read_ipv4_no_dot) simp
qed

theorem parse_ip_addr_show: "parse_ip_addr (show_ip_addr ip) = Some ip"
proof (cases ip)
  case (V4 a b c d)
  then show ?thesis
    by (simp add: parse_ip_addr_show_ipv4)
next
  case (V6 a b c d e f g h)
  then show ?thesis
    using read_ipv6_show [of "[a, b, c, d, e, f, g, h]" "[]"] read_ipv4_show_ipv6 [of "[]" "[a, b, c, d, e, f, g, h]"]
    by (simp add: parse_ip_addr_def parse_with_def read_ip_addr_def ipv6_of_groups_def eval_nat_numeral)
qed

lemma show_nat_no_dot: "CHR ''.'' \<notin> set (show_nat n)"
  by (rule show_nat_no_char) simp

theorem parse_socket_addr_show: "parse_socket_addr (show_socket_addr a) = Some a"
proof (cases a)
  case (SocketAddr ip p)
  show ?thesis
  proof (cases ip)
    case (V4 b c d e)
    then show ?thesis
      using SocketAddr parse_socket_addr_show_ipv4 by (simp add: show_socket_addr_def)
  next
    case (V6 b c d e f g h i)
    let ?gs = "[b, c, d, e, f, g, h, i]" and ?t = "'']:'' @ show_nat (unat p)"
    have "read_ipv6_addr (show_ipv6 ?gs @ ?t) = Some (ip, ?t)"
      using read_ipv6_show [of ?gs ?t] V6 show_nat_no_dot by (simp add: ipv6_of_groups_def eval_nat_numeral)
    moreover have "read_ipv4_addr (''['' @ show_ipv6 ?gs @ ?t) = None"
      by (simp add: read_ipv4_addr_def read_octet_def read_number_def to_digit_def byte_val_def)
    ultimately show ?thesis
      using SocketAddr V6 read_port_show [of p]
      by (simp add: show_socket_addr_def parse_socket_addr_def parse_with_def read_socket_addr_def
          read_socket_addr_v4_def read_socket_addr_v6_def read_scope_id_def read_given_char_def)
  qed
qed

lemma show_ipv6_no_bracket: "read_given_char CHR ''['' (show_ipv6 gs @ CHR '':'' # t) = None"
proof (cases "take 5 gs = replicate 5 0 \<and> gs ! 5 = 65535")
  case False
  have "CHR ''['' \<notin> set (fmt_subslice hs)" for hs
    by (rule fmt_subslice_no_char) (simp_all add: to_digit_def byte_val_def)
  then have "CHR ''['' \<notin> set (show_ipv6 gs)"
    using False by (auto simp: show_ipv6_def split: prod.split)
  then show ?thesis
    by (cases "show_ipv6 gs") (auto simp: read_given_char_def)
qed (simp add: show_ipv6_def read_given_char_def)

lemma parse_socket_addr_unbracketed:
  "parse_socket_addr (show_ip_addr (V6 a b c d e f g h) @ '':'' @ show_nat n) = None"
proof -
  let ?s = "show_ipv6 [a, b, c, d, e, f, g, h] @ CHR '':'' # show_nat n"
  have "read_ipv4_addr ?s = None"
    using show_nat_no_dot by (intro read_ipv4_show_ipv6) simp
  then show ?thesis
    by (simp add: parse_socket_addr_def parse_with_def read_socket_addr_def read_socket_addr_v4_def
        read_socket_addr_v6_def show_ipv6_no_bracket)
qed

lemma show_ip_addr_no_char:
  assumes "to_digit 16 c = None" "c \<notin> set '':.''"
  shows "c \<notin> set (show_ip_addr ip)"
proof -
  have digits: "c \<notin> set ''0123456789''" "c \<noteq> CHR ''f''"
    using assms(1) by (auto simp: to_digit_def byte_val_def split: if_splits)
  then have v4: "c \<notin> set (show_ipv4 x y z w)" for x y z w
    using assms(2) show_nat_no_char [OF digits(1)] by (simp add: show_ipv4_def)
  have "c \<notin> set (fmt_subslice gs)" for gs
    using assms by (intro fmt_subslice_no_char) auto
  then have "c \<notin> set (show_ipv6 gs)" for gs
    using assms(2) v4 digits(2) by (auto simp: show_ipv6_def split: prod.split)
  with v4 show ?thesis
    by (cases ip) simp_all
qed

end
