(* ===== verification/Client_Session.thy ===== *)
theory Client_Session
  imports Channel_Manager Server_Handler Rust_Ipv6 "HOL-Library.Multiset"
begin

text \<open>
  \<open>client/connect.rs\<close>: the options of the client, the session that \<open>alknet connect\<close> runs, and its
  reconnection monitor. \<open>run\<close> is cut at its waits: \<open>session_start\<close> is what it does until its tasks are
  spawned, \<open>session_monitor\<close> the task that reconnects, \<open>shutdown\<close> its end. Signals, the SOCKS5 accept loop
  and the drain timeout are outside the model.
\<close>

section \<open>Options\<close>

definition CONNECT_SOCKS5_ADDR :: string where
  "CONNECT_SOCKS5_ADDR = ''127.0.0.1:1080''"

datatype transport_mode = ConnectTcp | ConnectTls | ConnectIroh

fun show_transport_mode :: "transport_mode \<Rightarrow> string" where
  "show_transport_mode ConnectTcp = ''tcp''"
| "show_transport_mode ConnectTls = ''tls''"
| "show_transport_mode ConnectIroh = ''iroh''"

record connect_options =
  co_server :: "string option"
  co_peer :: "string option"
  co_transport_mode :: transport_mode
  co_identity :: key_source
  co_socks5_addr :: string
  co_forwards :: "string list"
  co_remote_forwards :: "string list"
  co_proxy :: "string option"
  co_iroh_relay :: "string option"
  co_tls_server_name :: "string option"
  co_insecure :: bool

definition connect_options_new :: "key_source \<Rightarrow> connect_options" where
  "connect_options_new identity =
     \<lparr>co_server = None, co_peer = None, co_transport_mode = ConnectTcp, co_identity = identity,
      co_socks5_addr = CONNECT_SOCKS5_ADDR, co_forwards = [], co_remote_forwards = [], co_proxy = None,
      co_iroh_relay = None, co_tls_server_name = None, co_insecure = False\<rparr>"

definition opt_server :: "string \<Rightarrow> connect_options \<Rightarrow> connect_options" where
  "opt_server addr o' = o'\<lparr>co_server := Some addr\<rparr>"

definition opt_peer :: "string \<Rightarrow> connect_options \<Rightarrow> connect_options" where
  "opt_peer endpoint_id o' = o'\<lparr>co_peer := Some endpoint_id\<rparr>"

definition opt_transport_mode :: "transport_mode \<Rightarrow> connect_options \<Rightarrow> connect_options" where
  "opt_transport_mode mode o' = o'\<lparr>co_transport_mode := mode\<rparr>"

definition opt_socks5_addr :: "string \<Rightarrow> connect_options \<Rightarrow> connect_options" where
  "opt_socks5_addr addr o' = o'\<lparr>co_socks5_addr := addr\<rparr>"

definition opt_forward :: "string \<Rightarrow> connect_options \<Rightarrow> connect_options" where
  "opt_forward spec o' = o'\<lparr>co_forwards := co_forwards o' @ [spec]\<rparr>"

definition opt_remote_forward :: "string \<Rightarrow> connect_options \<Rightarrow> connect_options" where
  "opt_remote_forward spec o' = o'\<lparr>co_remote_forwards := co_remote_forwards o' @ [spec]\<rparr>"

definition opt_proxy :: "string \<Rightarrow> connect_options \<Rightarrow> connect_options" where
  "opt_proxy url o' = o'\<lparr>co_proxy := Some url\<rparr>"

definition opt_iroh_relay :: "string \<Rightarrow> connect_options \<Rightarrow> connect_options" where
  "opt_iroh_relay url o' = o'\<lparr>co_iroh_relay := Some url\<rparr>"

definition opt_tls_server_name :: "string \<Rightarrow> connect_options \<Rightarrow> connect_options" where
  "opt_tls_server_name name o' = o'\<lparr>co_tls_server_name := Some name\<rparr>"

definition opt_insecure :: "bool \<Rightarrow> connect_options \<Rightarrow> connect_options" where
  "opt_insecure b o' = o'\<lparr>co_insecure := b\<rparr>"

definition connect_options_validate :: "connect_options \<Rightarrow> config_error + unit" where
  "connect_options_validate opts =
     (case co_transport_mode opts of
        ConnectIroh \<Rightarrow>
          if co_peer opts = None then Err (InvalidFlag ''--peer is required for iroh transport'') else Ok ()
      | _ \<Rightarrow>
          if co_server opts = None then Err (InvalidFlag ''--server is required for tcp/tls transport'')
          else Ok ())"

section \<open>Starting a session\<close>

datatype connect_error = ConnConnectionFailed | AuthFailed | ForwardFailed | ConnConfig config_error

fun show_connect_error :: "connect_error \<Rightarrow> string" where
  "show_connect_error ConnConnectionFailed = ''connection failed''"
| "show_connect_error AuthFailed = ''authentication failed''"
| "show_connect_error ForwardFailed = ''forward setup failed''"
| "show_connect_error (ConnConfig e) = ''config error: '' @ show_config_error e"

record ('sk, 'key, 'h) client_session =
  cs_opts :: connect_options
  cs_handle :: 'h
  cs_auth_config :: "('sk, 'key) client_auth_config"
  cs_username :: string
  cs_shutdown :: bool

definition derive_username :: "(string \<Rightarrow> string option) \<Rightarrow> string" where
  "derive_username env_var =
     (case env_var ''USER'' of
        Some u \<Rightarrow> u
      | None \<Rightarrow> (case env_var ''USERNAME'' of Some u \<Rightarrow> u | None \<Rightarrow> ''alknet''))"

definition establish_session ::
  "('sk, 'key, 'h) attempt \<Rightarrow> 'key client_handler \<Rightarrow> ('sk, 'key) client_auth_config \<Rightarrow> string \<Rightarrow> connect_error + 'h" where
  "establish_session att handler c user =
     (case at_connect att of
        Err _ \<Rightarrow> Err ConnConnectionFailed
      | Ok stream \<Rightarrow>
          (case at_handshake att handler stream of
             Err _ \<Rightarrow> Err ConnConnectionFailed
           | Ok h \<Rightarrow>
               (case client_authenticate att c h user of
                  (Err _, _) \<Rightarrow> Err AuthFailed
                | (Ok auth_ok, h') \<Rightarrow> if \<not> auth_ok then Err AuthFailed else Ok h')))"

definition client_session_new ::
  "(string \<Rightarrow> bytes option) \<Rightarrow> (string \<Rightarrow> string + 'sk) \<Rightarrow> ('sk \<Rightarrow> 'key) \<Rightarrow> (string \<Rightarrow> string option) \<Rightarrow>
   ('sk, 'key, 'h) attempt \<Rightarrow> connect_options \<Rightarrow> connect_error + ('sk, 'key, 'h) client_session" where
  "client_session_new fs decode_sk public_key env_var att opts =
     result_bind (map_err ConnConfig (connect_options_validate opts)) (\<lambda>_.
     result_bind (map_err ConnConfig (from_key_source fs decode_sk public_key (co_identity opts))) (\<lambda>c.
       let user = derive_username env_var in
       result_bind (establish_session att (client_handler_from_config c) c user) (\<lambda>h.
         Ok \<lparr>cs_opts = opts, cs_handle = h, cs_auth_config = c, cs_username = user, cs_shutdown = False\<rparr>)))"

fun build_local_forwarders :: "string list \<Rightarrow> connect_error + local_forwarder list" where
  "build_local_forwarders [] = Ok []"
| "build_local_forwarders (spec_str # specs) =
     (case spec_local spec_str of
        Err _ \<Rightarrow> Err (ConnConfig (InvalidFlag (''invalid forward spec: '' @ spec_str)))
      | Ok spec \<Rightarrow>
          (case local_forwarder_new spec of
             Err _ \<Rightarrow> Err ForwardFailed
           | Ok f \<Rightarrow> result_bind (build_local_forwarders specs) (\<lambda>fs. Ok (f # fs))))"

fun build_remote_specs :: "string list \<Rightarrow> connect_error + port_forward_spec list" where
  "build_remote_specs [] = Ok []"
| "build_remote_specs (spec_str # specs) =
     (case spec_remote spec_str of
        Err _ \<Rightarrow> Err (ConnConfig (InvalidFlag (''invalid remote forward spec: '' @ spec_str)))
      | Ok spec \<Rightarrow> result_bind (build_remote_specs specs) (\<lambda>rs. Ok (spec # rs)))"

fun register_remote :: "'h forward_api \<Rightarrow> port_forward_spec list \<Rightarrow> 'h \<Rightarrow> (connect_error + unit) \<times> 'h" where
  "register_remote api [] h = (Ok (), h)"
| "register_remote api (spec # specs) h =
     (case remote_forwarder_new spec of
        Err _ \<Rightarrow> (Err ForwardFailed, h)
      | Ok f \<Rightarrow>
          (case rf_register api f h of
             (Err _, h') \<Rightarrow> (Err ForwardFailed, h')
           | (Ok _, h') \<Rightarrow> register_remote api specs h'))"

text \<open>What \<open>run\<close> does before it spawns its tasks: the address of the SOCKS5 server, the local forwarders
  and the remote specifications that the tasks get.\<close>

definition session_start ::
  "'h forward_api \<Rightarrow> ('sk, 'key, 'h) client_session \<Rightarrow>
   ((connect_error + socket_addr \<times> local_forwarder list \<times> port_forward_spec list) \<times> ('sk, 'key, 'h) client_session) outcome" where
  "session_start api s =
     (case parse_socket_addr (co_socks5_addr (cs_opts s)) of
        None \<Rightarrow> Returns (Err (ConnConfig (InvalidFlag (''invalid SOCKS5 address: '' @ co_socks5_addr (cs_opts s)))), s)
      | Some socks5_addr \<Rightarrow>
     outcome_bind (socks5_server_with_addr (show_socket_addr socks5_addr)) (\<lambda>socks5_listen. Returns (
     case build_local_forwarders (co_forwards (cs_opts s)) of
        Err e \<Rightarrow> (Err e, s)
      | Ok fwds \<Rightarrow>
     (case build_remote_specs (co_remote_forwards (cs_opts s)) of
        Err e \<Rightarrow> (Err e, s)
      | Ok specs \<Rightarrow>
     (case register_remote api specs (cs_handle s) of
        (Err e, h) \<Rightarrow> (Err e, s\<lparr>cs_handle := h\<rparr>)
      | (Ok _, h) \<Rightarrow> (Ok (socks5_listen, fwds, specs), s\<lparr>cs_handle := h\<rparr>))))))"

text \<open>The address is printed and parsed again, which cannot fail.\<close>

lemma socks5_server_with_addr_show [simp]: "socks5_server_with_addr (show_socket_addr a) = Returns a"
  by (simp add: socks5_server_with_addr_def parse_socket_addr_show)

lemma session_start_returns: "session_start api s \<noteq> Panics"
  by (simp add: session_start_def split: option.split)

section \<open>Reconnection and shutdown\<close>

fun re_register_remote :: "'h forward_api \<Rightarrow> port_forward_spec list \<Rightarrow> 'h \<Rightarrow> 'h" where
  "re_register_remote api [] h = h"
| "re_register_remote api (spec # specs) h =
     (case remote_forwarder_new spec of
        Err _ \<Rightarrow> re_register_remote api specs h
      | Ok f \<Rightarrow> re_register_remote api specs (snd (rf_register api f h)))"

text \<open>The monitor of \<open>run\<close>: in every round it sleeps a second, stops if a shutdown was signalled, and makes an
  attempt if the session is closed. \<open>attempts\<close> is its counter; the result lists the seconds it slept in
  each round. The addition in the arguments of \<open>warn!\<close> is only done when warnings are logged, as \<open>warn\<close>
  says, the one after a failure always.\<close>

fun session_monitor ::
  "bool \<Rightarrow> bool \<Rightarrow> ('h \<Rightarrow> bool) \<Rightarrow> 'h forward_api \<Rightarrow> port_forward_spec list \<Rightarrow> ('sk, 'key, 'h) attempt list \<Rightarrow> u32 \<Rightarrow>
   ('sk, 'key, 'h) client_session \<Rightarrow> (nat list \<times> u32 \<times> ('sk, 'key, 'h) client_session) outcome" where
  "session_monitor chk warn is_closed api specs [] attempts s = Returns ([], attempts, s)"
| "session_monitor chk warn is_closed api specs (att # atts) attempts s =
     (if cs_shutdown s then Returns ([1], attempts, s)
      else if \<not> is_closed (cs_handle s) then
        outcome_bind (session_monitor chk warn is_closed api specs atts attempts s) (\<lambda>(ds, r). Returns (1 # ds, r))
      else if chk \<and> warn \<and> attempts = - 1 then Panics
      else
        outcome_bind
          (case establish_session att (client_handler_from_config (cs_auth_config s)) (cs_auth_config s) (cs_username s) of
             Ok h \<Rightarrow>
               session_monitor chk warn is_closed api specs atts 0 (s\<lparr>cs_handle := re_register_remote api specs h\<rparr>)
           | Err _ \<Rightarrow>
               if chk \<and> attempts = - 1 then Panics
               else session_monitor chk warn is_closed api specs atts (attempts + 1) s)
          (\<lambda>(ds, r). Returns ((1 + backoff_duration attempts) # ds, r)))"

definition session_shutdown ::
  "('h \<Rightarrow> bool) \<Rightarrow> ('h \<Rightarrow> 'h) \<Rightarrow> ('sk, 'key, 'h) client_session \<Rightarrow> ('sk, 'key, 'h) client_session" where
  "session_shutdown is_closed disconnect s =
     (let s' = s\<lparr>cs_shutdown := True\<rparr> in
      if is_closed (cs_handle s') then s' else s'\<lparr>cs_handle := disconnect (cs_handle s')\<rparr>)"

section \<open>The two monitors\<close>

definition spec_request :: "port_forward_spec \<Rightarrow> forward_request" where
  "spec_request spec = \<lparr>fr_addr = bind_addr spec, fr_port = ucast (bind_port spec)\<rparr>"

lemma establish_sessions_agree:
  "establish_session att handler c user = Ok h \<longleftrightarrow> cm_establish_session att handler c user = Ok h"
  by (auto simp: establish_session_def cm_establish_session_def split: sum.splits prod.splits)

lemma establish_session_Err:
  "establish_session att handler c user = Err e \<Longrightarrow> \<exists>e'. cm_establish_session att handler c user = Err e'"
  using establish_sessions_agree by (metis Inl_Inr_False sum.exhaust_sel sum.collapse(1) sum.collapse(2))

lemma snd_rf_register:
  "snd (rf_register api f h) = snd (api (bind_addr (rf_spec f)) (ucast (bind_port (rf_spec f))) h)"
  by (auto simp: rf_register_def split: prod.split sum.split)

lemma re_register_remote_fold:
  "list_all (\<lambda>spec. pf_kind spec = RemoteSpec) specs \<Longrightarrow>
   re_register_remote api specs h =
     fold (\<lambda>fwd h. snd (api (fr_addr fwd) (fr_port fwd) h)) (map spec_request specs) h"
  by (induction specs arbitrary: h)
    (simp_all add: remote_forwarder_new_def snd_rf_register spec_request_def)

lemma fold_commuting:
  assumes "distinct xs" "distinct ys" "set xs = set ys" and "\<And>x y h. f x (f y h) = f y (f x h)"
  shows "fold f xs h = fold f ys h"
proof -
  have "mset xs = mset ys"
    using assms(1-3) set_eq_iff_mset_eq_distinct by blast
  then show ?thesis
    using assms(4) by (intro fold_permuted_eq [where P = "\<lambda>_. True"]) auto
qed

text \<open>An attempt of the manager, in terms of the one of the session.\<close>

lemma reconnect_up:
  assumes "cm_reconnect_attempts m \<noteq> - 1"
    and "establish_session att (client_handler_from_config (cm_auth_config m)) (cm_auth_config m) (cm_username m) = Ok h"
    and "list_all (\<lambda>spec. pf_kind spec = RemoteSpec) specs" and "distinct (map spec_request specs)"
    and "set (cm_forwards m) = set (map spec_request specs)"
    and "\<And>xs. set (iter xs) = set xs \<and> distinct (iter xs)"
    and "\<And>a p b q h. snd (api a p (snd (api b q h))) = snd (api b q (snd (api a p h)))"
  shows "reconnect chk iter api att m = Returns (backoff_duration (cm_reconnect_attempts m), Ok (),
      m\<lparr>cm_handle := re_register_remote api specs h, cm_reconnect_attempts := 0\<rparr>)"
proof -
  let ?f = "\<lambda>fwd h. snd (api (fr_addr fwd) (fr_port fwd) h)"
  have "re_register_remote api specs h = fold ?f (map spec_request specs) h"
    by (rule re_register_remote_fold [OF assms(3)])
  also have "\<dots> = fold ?f (iter (cm_forwards m)) h"
    using assms(4-7) by (intro fold_commuting) auto
  finally have "re_register_remote api specs h =
      (if cm_forwards m = [] then h else fold ?f (iter (cm_forwards m)) h)"
    using assms(6) [of "[]"] by auto
  then show ?thesis
    using assms(1,2) by (auto simp: reconnect_def Let_def establish_sessions_agree re_register_forwards_def)
qed

lemma reconnect_down:
  assumes "cm_reconnect_attempts m \<noteq> - 1"
    and "establish_session att (client_handler_from_config (cm_auth_config m)) (cm_auth_config m) (cm_username m) = Err e"
  shows "reconnect chk iter api att m = Returns (backoff_duration (cm_reconnect_attempts m), Err ChannelClosed,
      m\<lparr>cm_reconnect_attempts := cm_reconnect_attempts m + 1\<rparr>)"
  using assms(1) establish_session_Err [OF assms(2)] by (auto simp: reconnect_def Let_def)

text \<open>C21. The two reconnection loops of the program do the same. The monitor of a client session and the
  monitor of the channel manager, started on the same session with the same counter and the same
  forwards on record, and meeting the same attempts, sleep the same times and end with the same
  session and the same counter, whatever is logged. The hypotheses are that the manager's hash set
  lists its elements once each, in any order; that the configured forwards are distinct; that it does
  not matter to a session in which order two forwards are requested; that no shutdown is signalled;
  and that the counter does not reach the end of its range.\<close>

theorem monitors_agree:
  assumes "cm_auth_config m = cs_auth_config s" and "cm_handle m = cs_handle s"
    and "cm_username m = cs_username s" and "cm_reconnect_attempts m = a" and "\<not> cs_shutdown s"
    and "list_all (\<lambda>spec. pf_kind spec = RemoteSpec) specs" and "distinct (map spec_request specs)"
    and "set (cm_forwards m) = set (map spec_request specs)"
    and "\<And>xs. set (iter xs) = set xs \<and> distinct (iter xs)"
    and "\<And>a p b q h. snd (api a p (snd (api b q h))) = snd (api b q (snd (api a p h)))"
    and "unat a + length atts < 2 ^ 32"
  shows "\<exists>ds a' s' m'. session_monitor chk warn is_closed api specs atts a s = Returns (ds, a', s') \<and>
    reconnect_monitor chk iter is_closed api atts m = Returns (ds, m') \<and>
    cm_handle m' = cs_handle s' \<and> cm_reconnect_attempts m' = a'"
  using assms(1-5,8,11)
proof (induction atts arbitrary: m s a)
  case (Cons att atts)
  let ?hd = "client_handler_from_config (cs_auth_config s)"
  have a: "a \<noteq> - 1" "unat (a + 1) = unat a + 1"
    using Cons.prems(7) by (auto simp: unsigned_minus_1_eq_mask mask_eq_exp_minus_1 unat_word_ariths)
  consider (up_already) "\<not> is_closed (cs_handle s)"
    | (up) h where "is_closed (cs_handle s)" "establish_session att ?hd (cs_auth_config s) (cs_username s) = Ok h"
    | (down) e where "is_closed (cs_handle s)" "establish_session att ?hd (cs_auth_config s) (cs_username s) = Err e"
    by (cases "establish_session att ?hd (cs_auth_config s) (cs_username s)") auto
  then show ?case
  proof cases
    case up_already
    then show ?thesis
      using Cons.IH [of m s a] Cons.prems by fastforce
  next
    case (up h)
    let ?m = "m\<lparr>cm_handle := re_register_remote api specs h, cm_reconnect_attempts := 0\<rparr>"
    have "reconnect chk iter api att m = Returns (backoff_duration a, Ok (), ?m)"
      using up a Cons.prems assms(6,7,9,10) by (simp add: reconnect_up [where h = h and specs = specs])
    then show ?thesis
      using up a Cons.prems Cons.IH [of ?m "s\<lparr>cs_handle := re_register_remote api specs h\<rparr>" 0] by fastforce
  next
    case (down e)
    let ?m = "m\<lparr>cm_reconnect_attempts := a + 1\<rparr>"
    have "reconnect chk iter api att m = Returns (backoff_duration a, Err ChannelClosed, ?m)"
      using down a Cons.prems by (simp add: reconnect_down [where e = e])
    then show ?thesis
      using down a Cons.prems Cons.IH [of ?m s "a + 1"] by fastforce
  qed
qed simp

definition example_session :: "(unit, unit, forward_request list) client_session" where
  "example_session =
     \<lparr>cs_opts = opt_remote_forward ''0.0.0.0:8080:localhost:80'' (connect_options_new (File ''id'')),
      cs_handle = [], cs_auth_config = \<lparr>ca_private_key = (), ca_public_key = ()\<rparr>, cs_username = ''u'',
      cs_shutdown = False\<rparr>"

definition example_remote :: port_forward_spec where
  "example_remote = \<lparr>pf_kind = RemoteSpec, bind_addr = ''0.0.0.0'', bind_port = 8080,
     target_host = ''localhost'', target_port = 80\<rparr>"

definition example_remotes :: "port_forward_spec list" where
  "example_remotes = [example_remote, example_remote\<lparr>bind_port := 9090\<rparr>]"

text \<open>A handle that is the set of the forwards requested on it; the empty one is closed.\<close>

definition set_api :: "forward_request set forward_api" where
  "set_api addr port h = (Ok port, insert \<lparr>fr_addr = addr, fr_port = port\<rparr> h)"

definition set_attempt :: "bool \<Rightarrow> (unit, unit, forward_request set) attempt" where
  "set_attempt up =
     \<lparr>at_connect = at_connect (example_attempt up), at_handshake = (\<lambda>_ _. Ok {}), at_authenticate = (\<lambda>_ _ h. (Ok True, h))\<rparr>"

definition set_manager :: "(unit, unit, forward_request set) channel_manager" where
  "set_manager =
     \<lparr>cm_auth_config = \<lparr>ca_private_key = (), ca_public_key = ()\<rparr>, cm_handle = {}, cm_username = ''u'',
      cm_forwards = rev (map spec_request example_remotes), cm_reconnect_attempts = 0\<rparr>"

definition set_session :: "(unit, unit, forward_request set) client_session" where
  "set_session =
     \<lparr>cs_opts = connect_options_new (File ''id''), cs_handle = {},
      cs_auth_config = \<lparr>ca_private_key = (), ca_public_key = ()\<rparr>, cs_username = ''u'', cs_shutdown = False\<rparr>"

theorem monitors_agree_witness:
  "\<exists>s' m'. session_monitor True True (\<lambda>h. h = {}) set_api example_remotes
      [set_attempt False, set_attempt False, set_attempt True, set_attempt True] 0 set_session =
        Returns ([2, 3, 5, 1], 0, s') \<and>
    reconnect_monitor True (\<lambda>xs. rev (remdups xs)) (\<lambda>h. h = {}) set_api
      [set_attempt False, set_attempt False, set_attempt True, set_attempt True] set_manager =
        Returns ([2, 3, 5, 1], m') \<and>
    cm_handle m' = cs_handle s'"
proof -
  let ?atts = "[set_attempt False, set_attempt False, set_attempt True, set_attempt True]"
  have run: "session_monitor True True (\<lambda>h. h = {}) set_api example_remotes ?atts 0 set_session =
      Returns ([2, 3, 5, 1], 0, set_session\<lparr>cs_handle := set (rev (map spec_request example_remotes))\<rparr>)"
    by (simp add: set_session_def set_attempt_def example_attempt_def establish_session_def client_authenticate_def
        backoff_duration_def remote_forwarder_new_def example_remotes_def example_remote_def rf_register_def set_api_def
        spec_request_def)
  have "cm_auth_config set_manager = cs_auth_config set_session" "cm_handle set_manager = cs_handle set_session"
      "cm_username set_manager = cs_username set_session" "cm_reconnect_attempts set_manager = 0"
      "\<not> cs_shutdown set_session" "list_all (\<lambda>spec. pf_kind spec = RemoteSpec) example_remotes"
      "distinct (map spec_request example_remotes)" "set (cm_forwards set_manager) = set (map spec_request example_remotes)"
      "\<And>xs. set (rev (remdups xs)) = set xs \<and> distinct (rev (remdups xs))"
      "\<And>a p b q h. snd (set_api a p (snd (set_api b q h))) = snd (set_api b q (snd (set_api a p h)))"
      "unat (0 :: u32) + length ?atts < 2 ^ 32"
    by (auto simp: set_manager_def set_session_def example_remotes_def example_remote_def spec_request_def set_api_def)
  from monitors_agree [where iter = "\<lambda>xs. rev (remdups xs)" and api = set_api, OF this,
      where chk = True and warn = True and is_closed = "\<lambda>h. h = {}"]
  show ?thesis
    unfolding run by (auto simp del: reconnect_monitor.simps)
qed

section \<open>Remote forwards\<close>

lemma build_remote_specs_kind:
  "build_remote_specs ss = Ok specs \<Longrightarrow>
   length specs = length ss \<and> list_all (\<lambda>spec. pf_kind spec = RemoteSpec) specs"
  by (induction ss arbitrary: specs)
    (auto simp: spec_remote_def spec_of_parts_def result_bind_def split: sum.splits)

text \<open>C34. Remote forwarding does not work between this client and this server. The server refuses every
  tcpip-forward request, so, a refused request being an error for the client, a session that is
  configured with a remote forward never starts: run fails, and when nothing else is wrong with its
  options it fails with ForwardFailed.\<close>

theorem remote_forward_never_starts:
  assumes "\<And>addr port h. handle_connection_request (TcpipForward addr port) srv = Refuse \<Longrightarrow> isl (fst (api addr port h))"
    and "co_remote_forwards (cs_opts s) \<noteq> []"
  shows "\<exists>e s'. session_start api s = Returns (Err e, s') \<and>
    (parse_socket_addr (co_socks5_addr (cs_opts s)) \<noteq> None \<and>
     \<not> isl (build_local_forwarders (co_forwards (cs_opts s))) \<and>
     \<not> isl (build_remote_specs (co_remote_forwards (cs_opts s))) \<longrightarrow>
     e = ForwardFailed)"
proof (cases "build_remote_specs (co_remote_forwards (cs_opts s))")
  case (Inl e)
  then show ?thesis
    by (auto simp: session_start_def split: option.split sum.split)
next
  case (Inr specs)
  then obtain spec rest where specs: "specs = spec # rest" and kind: "pf_kind spec = RemoteSpec"
    using build_remote_specs_kind [OF Inr] assms(2) by (cases specs) auto
  have refused: "isl (fst (api addr port h))" for addr port h
    by (rule assms(1)) simp
  obtain e h where "api (bind_addr spec) (ucast (bind_port spec)) (cs_handle s) = (Err e, h)"
    using refused [of "bind_addr spec" "ucast (bind_port spec)" "cs_handle s"]
    by (cases "api (bind_addr spec) (ucast (bind_port spec)) (cs_handle s)") (auto simp: isl_def)
  then have "register_remote api specs (cs_handle s) = (Err ForwardFailed, h)"
    using kind by (simp add: specs remote_forwarder_new_def rf_register_def)
  then show ?thesis
    using Inr by (auto simp: session_start_def split: option.split sum.split)
qed

theorem remote_forward_never_starts_witness:
  "\<exists>s'. session_start (\<lambda>addr port h. (Err ''RequestDenied'', h)) example_session = Returns (Err ForwardFailed, s')"
proof -
  have "co_remote_forwards (cs_opts example_session) \<noteq> []"
    by (simp add: example_session_def opt_remote_forward_def)
  moreover have "parse_socket_addr (co_socks5_addr (cs_opts example_session)) \<noteq> None"
      "\<not> isl (build_local_forwarders (co_forwards (cs_opts example_session)))"
      "\<not> isl (build_remote_specs (co_remote_forwards (cs_opts example_session)))"
    by code_simp+
  ultimately show ?thesis
    using remote_forward_never_starts [where api = "\<lambda>addr port h. (Err ''RequestDenied'', h)" and s = example_session]
    by auto
qed

end
