(* ===== verification/Client_Run.thy ===== *)
theory Client_Run
  imports Client_Session
begin

text \<open>
  \<open>ClientSession::run\<close> of \<open>client/connect.rs\<close> as a whole: after \<open>session_start\<close> the SOCKS5 server, the local
  forwarders and the monitor run as tasks beside each other, until a shutdown is signalled or the
  SOCKS5 server ends; then the monitor is told to abort, the session is shut down, and the task of the
  forwarders is aborted and waited for. \<open>run_step\<close> has one rule for every action of a task, so a run of
  the client is any sequence of them, and \<open>run_trace\<close> keeps the sequence.

  A round of the monitor is several actions, and other tasks may act between them. \<open>abort\<close> does not stop
  it at once: a task that is being polled goes on until it waits again. So an aborted monitor is never
  woken from a sleep, but what it does between two sleeps may still happen, or be cancelled at any point.
  The SOCKS5 task is not aborted: \<open>select!\<close> drops its handle, which detaches it.
\<close>

section \<open>The tasks\<close>

text \<open>What the SSH library and the listeners do.\<close>

record ('h) run_env =
  re_is_closed :: "'h \<Rightarrow> bool"
  re_disconnect :: "'h \<Rightarrow> 'h"
  re_tcpip_forward :: "'h forward_api"
  re_open_direct :: "'h \<Rightarrow> string \<Rightarrow> u32 \<Rightarrow> bool"
  re_bind :: "socket_addr \<Rightarrow> io_error + unit"

text \<open>Where \<open>run\<close> is: in its \<open>select!\<close>, after \<open>abort\<close>, after the shutdown was sent, after the disconnect
  (the drain timeout), and returned.\<close>

datatype run_phase = Serving | Stopping | Closing | Draining | Ended

text \<open>Where the monitor is: in the sleep of a second, after it, in the sleep of the backoff, in
  \<open>establish_session\<close>, with a new session in hand, with the specs it has not yet registered, and ended.\<close>

datatype 'h monitor_state =
  MonAsleep | MonChecking | MonBackingOff | MonConnecting | MonConnected 'h | MonRegistering "port_forward_spec list" | MonStopped

datatype run_event =
  SocksBound | SocksBindFailed | SocksAccepted | SocksAcceptFailed | Forwarding | SessionLost | Signalled
| MonWake | MonCheck | MonAttempt | MonInstall | MonRegister | MonCancel
| MonAborted | ShutdownSent | Disconnected | RunReturned

text \<open>\<open>ru_bound\<close> says that the SOCKS5 listener is bound, \<open>ru_socks5\<close> that its task has not ended; \<open>ru_served\<close>
  lists what the connections it accepted came to.\<close>

record ('sk, 'key, 'h, 'c) client_run =
  ru_session :: "('sk, 'key, 'h) client_session"
  ru_listen :: socket_addr
  ru_specs :: "port_forward_spec list"
  ru_monitor :: "'h monitor_state"
  ru_attempts :: u32
  ru_bound :: bool
  ru_socks5 :: bool
  ru_served :: "((socks5_error + unit) \<times> stream \<times> (string \<times> u16) list) list"
  ru_forwarders :: "'c forwarders"
  ru_phase :: run_phase

definition session_spawn ::
  "socket_addr \<Rightarrow> local_forwarder list \<Rightarrow> port_forward_spec list \<Rightarrow> ('sk, 'key, 'h) client_session \<Rightarrow>
   ('sk, 'key, 'h, 'c) client_run" where
  "session_spawn listen fwds specs s =
     \<lparr>ru_session = s, ru_listen = listen, ru_specs = specs, ru_monitor = MonAsleep, ru_attempts = 0, ru_bound = False,
      ru_socks5 = True, ru_served = [], ru_forwarders = run_local_forwarders fwds, ru_phase = Serving\<rparr>"

text \<open>The channels the SOCKS5 server opens go over the session of the moment.\<close>

definition session_opener :: "'h run_env \<Rightarrow> ('sk, 'key, 'h) client_session \<Rightarrow> opener" where
  "session_opener env s = open_channel (re_is_closed env (cs_handle s)) (re_open_direct env (cs_handle s))"

definition set_handle :: "'h \<Rightarrow> ('sk, 'key, 'h, 'c) client_run \<Rightarrow> ('sk, 'key, 'h, 'c) client_run" where
  "set_handle h r = r\<lparr>ru_session := (ru_session r)\<lparr>cs_handle := h\<rparr>\<rparr>"

text \<open>What the monitor does between two sleeps, on the handle it shares with the other tasks.\<close>

definition monitor_check ::
  "'h run_env \<Rightarrow> bool \<Rightarrow> bool \<Rightarrow> ('sk, 'key, 'h, 'c) client_run \<Rightarrow> ('sk, 'key, 'h, 'c) client_run" where
  "monitor_check env chk warn r =
     r\<lparr>ru_monitor :=
         if cs_shutdown (ru_session r) then MonStopped
         else if \<not> re_is_closed env (cs_handle (ru_session r)) then MonAsleep
         else if chk \<and> warn \<and> ru_attempts r = - 1 then MonStopped
         else MonBackingOff\<rparr>"

definition monitor_attempt ::
  "bool \<Rightarrow> ('sk, 'key, 'h) attempt \<Rightarrow> ('sk, 'key, 'h, 'c) client_run \<Rightarrow> ('sk, 'key, 'h, 'c) client_run" where
  "monitor_attempt chk att r =
     (let s = ru_session r in
      case establish_session att (client_handler_from_config (cs_auth_config s)) (cs_auth_config s) (cs_username s) of
        Ok h \<Rightarrow> r\<lparr>ru_monitor := MonConnected h\<rparr>
      | Err _ \<Rightarrow>
          if chk \<and> ru_attempts r = - 1 then r\<lparr>ru_monitor := MonStopped\<rparr>
          else r\<lparr>ru_monitor := MonAsleep, ru_attempts := ru_attempts r + 1\<rparr>)"

inductive monitor_step ::
  "'h run_env \<Rightarrow> bool \<Rightarrow> bool \<Rightarrow> run_event \<Rightarrow> ('sk, 'key, 'h, 'c) client_run \<Rightarrow> ('sk, 'key, 'h, 'c) client_run \<Rightarrow> bool"
  for env chk warn where
  check: "ru_monitor r = MonChecking \<Longrightarrow> monitor_step env chk warn MonCheck r (monitor_check env chk warn r)"
| attempt: "ru_monitor r = MonConnecting \<Longrightarrow> monitor_step env chk warn MonAttempt r (monitor_attempt chk att r)"
| install: "ru_monitor r = MonConnected h \<Longrightarrow>
    monitor_step env chk warn MonInstall r (set_handle h r\<lparr>ru_monitor := MonRegistering (ru_specs r)\<rparr>)"
| register: "ru_monitor r = MonRegistering (spec # specs) \<Longrightarrow>
    monitor_step env chk warn MonRegister r
      (set_handle (re_register_remote (re_tcpip_forward env) [spec] (cs_handle (ru_session r))) r\<lparr>ru_monitor := MonRegistering specs\<rparr>)"
| registered: "ru_monitor r = MonRegistering [] \<Longrightarrow>
    monitor_step env chk warn MonRegister r (r\<lparr>ru_monitor := MonAsleep, ru_attempts := 0\<rparr>)"

text \<open>A session can be lost at any time, and a shutdown signalled at any time.\<close>

inductive run_step ::
  "'h run_env \<Rightarrow> bool \<Rightarrow> bool \<Rightarrow> run_event \<Rightarrow> ('sk, 'key, 'h, 'c) client_run \<Rightarrow> ('sk, 'key, 'h, 'c) client_run \<Rightarrow> bool"
  for env chk warn where
  socks5_bind: "ru_socks5 r \<Longrightarrow> \<not> ru_bound r \<Longrightarrow> re_bind env (ru_listen r) = Ok u \<Longrightarrow>
    run_step env chk warn SocksBound r (r\<lparr>ru_bound := True\<rparr>)"
| socks5_bind_error: "ru_socks5 r \<Longrightarrow> \<not> ru_bound r \<Longrightarrow> re_bind env (ru_listen r) = Err e \<Longrightarrow>
    run_step env chk warn SocksBindFailed r (r\<lparr>ru_socks5 := False\<rparr>)"
| socks5_accept: "ru_socks5 r \<Longrightarrow> ru_bound r \<Longrightarrow>
    run_step env chk warn SocksAccepted r (r\<lparr>ru_served :=
      ru_served r @ [handle_socks5_connection (session_opener env (ru_session r)) copy socket]\<rparr>)"
| socks5_accept_error: "ru_socks5 r \<Longrightarrow> ru_bound r \<Longrightarrow> run_step env chk warn SocksAcceptFailed r (r\<lparr>ru_socks5 := False\<rparr>)"
| forwarders: "forwarders_step (re_bind env) e (ru_forwarders r) = Some fw \<Longrightarrow>
    (e = Shutdown \<longrightarrow> cs_shutdown (ru_session r)) \<Longrightarrow> (ru_phase r = Ended \<longrightarrow> polled_task e \<noteq> None) \<Longrightarrow>
    run_step env chk warn Forwarding r (r\<lparr>ru_forwarders := fw\<rparr>)"
| lost: "re_is_closed env h \<Longrightarrow> run_step env chk warn SessionLost r (set_handle h r)"
| signal: "run_step env chk warn Signalled r (r\<lparr>ru_session := (ru_session r)\<lparr>cs_shutdown := True\<rparr>\<rparr>)"
| wake: "ru_phase r = Serving \<Longrightarrow> ru_monitor r = MonAsleep \<and> m = MonChecking \<or> ru_monitor r = MonBackingOff \<and> m = MonConnecting \<Longrightarrow>
    run_step env chk warn MonWake r (r\<lparr>ru_monitor := m\<rparr>)"
| monitor: "monitor_step env chk warn e r r' \<Longrightarrow> run_step env chk warn e r r'"
| cancel: "ru_phase r \<noteq> Serving \<Longrightarrow> run_step env chk warn MonCancel r (r\<lparr>ru_monitor := MonStopped\<rparr>)"
| abort: "ru_phase r = Serving \<Longrightarrow> cs_shutdown (ru_session r) \<or> \<not> ru_socks5 r \<Longrightarrow>
    run_step env chk warn MonAborted r (r\<lparr>ru_phase := Stopping\<rparr>)"
| send: "ru_phase r = Stopping \<Longrightarrow>
    run_step env chk warn ShutdownSent r (r\<lparr>ru_session := (ru_session r)\<lparr>cs_shutdown := True\<rparr>, ru_phase := Closing\<rparr>)"
| disconnect: "ru_phase r = Closing \<Longrightarrow>
    run_step env chk warn Disconnected r
      (r\<lparr>ru_session := session_shutdown (re_is_closed env) (re_disconnect env) (ru_session r), ru_phase := Draining\<rparr>)"
| finish: "ru_phase r = Draining \<Longrightarrow> run_step env chk warn RunReturned r (r\<lparr>ru_phase := Ended\<rparr>)"

inductive run_steps ::
  "'h run_env \<Rightarrow> bool \<Rightarrow> bool \<Rightarrow> ('sk, 'key, 'h, 'c) client_run \<Rightarrow> run_event list \<Rightarrow> ('sk, 'key, 'h, 'c) client_run \<Rightarrow> bool"
  for env chk warn r where
  none: "run_steps env chk warn r [] r"
| snoc: "run_steps env chk warn r tr r' \<Longrightarrow> run_step env chk warn e r' r'' \<Longrightarrow> run_steps env chk warn r (tr @ [e]) r''"

definition run_trace ::
  "'h run_env \<Rightarrow> bool \<Rightarrow> bool \<Rightarrow> ('sk, 'key, 'h) client_session \<Rightarrow> run_event list \<Rightarrow>
   ('sk, 'key, 'h, 'c) client_run \<Rightarrow> bool" where
  "run_trace env chk warn s0 tr r \<longleftrightarrow>
     (\<exists>listen fwds specs s. session_start (re_tcpip_forward env) s0 = Returns (Ok (listen, fwds, specs), s) \<and>
        run_steps env chk warn (session_spawn listen fwds specs s) tr r)"

text \<open>The flag is sent and the session disconnected by \<open>shutdown\<close>; the two actions together are
  \<open>session_shutdown\<close>.\<close>

lemma send_disconnect:
  assumes "ru_phase r = Stopping"
  shows "run_steps env chk warn r [ShutdownSent, Disconnected]
    (r\<lparr>ru_session := session_shutdown (re_is_closed env) (re_disconnect env) (ru_session r), ru_phase := Draining\<rparr>)"
proof -
  let ?r = "r\<lparr>ru_session := (ru_session r)\<lparr>cs_shutdown := True\<rparr>, ru_phase := Closing\<rparr>"
  have "run_steps env chk warn r ([] @ [ShutdownSent]) ?r"
    by (rule run_steps.snoc [OF run_steps.none run_step.send [OF assms]])
  then have "run_steps env chk warn r (([] @ [ShutdownSent]) @ [Disconnected])
      (?r\<lparr>ru_session := session_shutdown (re_is_closed env) (re_disconnect env) (ru_session ?r), ru_phase := Draining\<rparr>)"
    by (rule run_steps.snoc [OF _ run_step.disconnect]) simp
  then show ?thesis
    by (simp add: session_shutdown_def)
qed

section \<open>A round of the monitor\<close>

lemma run_steps_append:
  "run_steps env chk warn r tr r' \<Longrightarrow> run_steps env chk warn r' tr' r'' \<Longrightarrow> run_steps env chk warn r (tr @ tr') r''"
  by (rotate_tac, induction rule: run_steps.induct) (auto simp flip: append_assoc intro: run_steps.snoc)

lemma run_steps_one: "run_step env chk warn e r r' \<Longrightarrow> run_steps env chk warn r [e] r'"
  using run_steps.snoc [OF run_steps.none, of env chk warn e r r'] by simp

lemmas run_steps_cons = run_steps_append [OF run_steps_one, simplified]

lemma re_register_remote_cons:
  "re_register_remote api (spec # specs) h = re_register_remote api specs (re_register_remote api [spec] h)"
  by (simp split: sum.split)

lemma monitor_registers:
  assumes "ru_monitor r = MonRegistering specs"
  shows "run_steps env chk warn r (replicate (Suc (length specs)) MonRegister)
    (set_handle (re_register_remote (re_tcpip_forward env) specs (cs_handle (ru_session r))) r
      \<lparr>ru_monitor := MonAsleep, ru_attempts := 0\<rparr>)"
  using assms
proof (induction specs arbitrary: r)
  case Nil
  then show ?case
    using run_steps_one [OF run_step.monitor [OF monitor_step.registered [OF Nil]], of env chk warn]
    by (simp add: set_handle_def)
next
  case (Cons spec specs)
  let ?r = "set_handle (re_register_remote (re_tcpip_forward env) [spec] (cs_handle (ru_session r))) r
    \<lparr>ru_monitor := MonRegistering specs\<rparr>"
  have "run_steps env chk warn ?r (replicate (Suc (length specs)) MonRegister)
      (set_handle (re_register_remote (re_tcpip_forward env) specs (cs_handle (ru_session ?r))) ?r
        \<lparr>ru_monitor := MonAsleep, ru_attempts := 0\<rparr>)"
    by (rule Cons.IH) simp
  from run_steps_cons [OF run_step.monitor [OF monitor_step.register [OF Cons.prems]] this]
  show ?case
    by (simp add: set_handle_def del: re_register_remote.simps add: re_register_remote_cons [of _ spec specs])
qed

text \<open>A round that no other task and no abort comes between is a round of \<open>session_monitor\<close>.\<close>

lemma monitor_round:
  assumes "ru_phase r = Serving" "ru_monitor r = MonAsleep"
    and "session_monitor chk warn (re_is_closed env) (re_tcpip_forward env) (ru_specs r) [att] (ru_attempts r) (ru_session r) =
      Returns (ds, a, s)"
  shows "\<exists>tr. run_steps env chk warn r tr (r\<lparr>ru_session := s,
    ru_monitor := if cs_shutdown (ru_session r) then MonStopped else MonAsleep, ru_attempts := a\<rparr>)"
proof -
  let ?r1 = "r\<lparr>ru_monitor := MonChecking\<rparr>"
  have wake: "run_step env chk warn MonWake r ?r1"
    by (rule run_step.wake) (use assms in auto)
  have check: "run_step env chk warn MonCheck ?r1 (monitor_check env chk warn ?r1)"
    by (rule run_step.monitor, rule monitor_step.check) simp
  show ?thesis
  proof (cases "cs_shutdown (ru_session r) \<or> \<not> re_is_closed env (cs_handle (ru_session r))")
    case True
    then show ?thesis
      using assms(3) run_steps_cons [OF wake run_steps_one [OF check]]
      by (intro exI [of _ "[MonWake, MonCheck]"]) (auto simp: monitor_check_def split: if_splits)
  next
    case False
    let ?s = "ru_session r"
    let ?r2 = "?r1\<lparr>ru_monitor := MonBackingOff\<rparr>" and ?r3 = "r\<lparr>ru_monitor := MonConnecting\<rparr>"
    have ok: "\<not> (chk \<and> warn \<and> ru_attempts r = - 1)"
      using assms(3) False by (auto split: if_splits)
    have "run_step env chk warn MonWake ?r2 (?r2\<lparr>ru_monitor := MonConnecting\<rparr>)"
      by (rule run_step.wake) (use assms in auto)
    moreover have "monitor_check env chk warn ?r1 = ?r2"
      using False ok by (auto simp: monitor_check_def)
    ultimately have start: "run_steps env chk warn r [MonWake, MonCheck, MonWake] ?r3"
      using run_steps_cons [OF wake run_steps_cons [OF check run_steps_one]] by simp
    have attempt: "run_step env chk warn MonAttempt ?r3 (monitor_attempt chk att ?r3)"
      by (rule run_step.monitor, rule monitor_step.attempt) simp
    show ?thesis
    proof (cases "establish_session att (client_handler_from_config (cs_auth_config ?s)) (cs_auth_config ?s) (cs_username ?s)")
      case (Inl e)
      then show ?thesis
        using assms(3) False ok run_steps_append [OF start run_steps_one [OF attempt]]
        by (intro exI [of _ "[MonWake, MonCheck, MonWake, MonAttempt]"]) (auto simp: monitor_attempt_def split: if_splits)
    next
      case (Inr h)
      let ?r4 = "?r3\<lparr>ru_monitor := MonConnected h\<rparr>"
      have "run_step env chk warn MonInstall ?r4 (set_handle h ?r4\<lparr>ru_monitor := MonRegistering (ru_specs ?r4)\<rparr>)"
        by (rule run_step.monitor, rule monitor_step.install) simp
      moreover have as: "a = 0" "s = ?s\<lparr>cs_handle := re_register_remote (re_tcpip_forward env) (ru_specs r) h\<rparr>"
        using assms(3) False ok Inr by (auto split: if_splits)
      ultimately have "run_step env chk warn MonInstall ?r4 (r\<lparr>ru_session := ?s\<lparr>cs_handle := h\<rparr>, ru_monitor := MonRegistering (ru_specs r)\<rparr>)"
        by (simp add: set_handle_def)
      from run_steps_cons [OF this monitor_registers [of _ "ru_specs r"]]
      have rest: "run_steps env chk warn ?r4 (MonInstall # replicate (Suc (length (ru_specs r))) MonRegister)
          (r\<lparr>ru_session := s, ru_monitor := MonAsleep, ru_attempts := a\<rparr>)"
        by (simp add: set_handle_def as)
      have "monitor_attempt chk att ?r3 = ?r4"
        using Inr by (simp add: monitor_attempt_def)
      with run_steps_append [OF start run_steps_cons [OF attempt]] rest False show ?thesis
        by fastforce
    qed
  qed
qed

section \<open>What a trace shows\<close>

lemma snoc_split:
  "tr @ [e] = pre @ x # post \<longleftrightarrow> post = [] \<and> e = x \<and> tr = pre \<or> (\<exists>post'. post = post' @ [e] \<and> tr = pre @ x # post')"
  by (cases post rule: rev_cases) auto


















section \<open>Properties\<close>


definition example_env :: "bool run_env" where
  "example_env = \<lparr>re_is_closed = Not, re_disconnect = (\<lambda>_. False), re_tcpip_forward = (\<lambda>_ _ h. (Err [], h)),
     re_open_direct = (\<lambda>_ _ _. True), re_bind = (\<lambda>_. Ok ())\<rparr>"

definition example_client :: "(unit, unit, bool) client_session" where
  "example_client =
     \<lparr>cs_opts = connect_options_new (File ''id''), cs_handle = True,
      cs_auth_config = \<lparr>ca_private_key = (), ca_public_key = ()\<rparr>, cs_username = ''u'', cs_shutdown = False\<rparr>"

definition example_run :: "(unit, unit, bool, unit) client_run" where
  "example_run = session_spawn (SocketAddr (V4 127 0 0 1) 1080) [] [] example_client"

lemma example_trace:
  assumes "run_steps example_env True True example_run tr r"
  shows "run_trace example_env True True example_client tr r"
proof -
  have "parse_socket_addr CONNECT_SOCKS5_ADDR = Some (SocketAddr (V4 127 0 0 1) 1080)"
    by code_simp
  then have "session_start (re_tcpip_forward example_env) example_client =
      Returns (Ok (SocketAddr (V4 127 0 0 1) 1080, [], []), example_client)"
    by (simp add: session_start_def example_client_def connect_options_new_def)
  then show ?thesis
    using assms by (auto simp: run_trace_def example_run_def)
qed

lemma example_stops:
  fixes r :: "(unit, unit, bool, unit) client_run"
  assumes "ru_phase r = Serving"
  shows "run_steps example_env True True r [Signalled, MonAborted, ShutdownSent, Disconnected]
    (r\<lparr>ru_session := session_shutdown Not (\<lambda>_. False) (ru_session r), ru_phase := Draining\<rparr>)"
proof -
  let ?r = "r\<lparr>ru_session := (ru_session r)\<lparr>cs_shutdown := True\<rparr>\<rparr>"
  have "run_step example_env True True MonAborted ?r (?r\<lparr>ru_phase := Stopping\<rparr>)"
    by (rule run_step.abort) (use assms in simp_all)
  from run_steps_cons [OF run_step.signal run_steps_cons [OF this send_disconnect]] show ?thesis
    by (simp add: example_env_def session_shutdown_def)
qed


text \<open>The late session is possible: the monitor has connected when the abort comes, the shutdown finds the
  lost session closed and disconnects nothing, and then the monitor installs the new one. The client
  returns with an open session, over which its SOCKS5 server goes on opening channels.\<close>

lemma ended_with_open_session:
  "\<exists>tr r :: (unit, unit, bool, unit) client_run. run_trace example_env True True example_client tr r \<and> ru_phase r = Ended \<and>
     cs_shutdown (ru_session r) \<and> \<not> re_is_closed example_env (cs_handle (ru_session r))"
proof -
  let ?att = "\<lparr>at_connect = Ok \<lparr>rx = [], tx = [], wr = [], shut = False\<rparr>, at_handshake = (\<lambda>_ _. Ok True),
      at_authenticate = (\<lambda>_ _ h. (Ok True, h))\<rparr> :: (unit, unit, bool) attempt"
  let ?r1 = "set_handle False example_run"
  let ?r2 = "?r1\<lparr>ru_monitor := MonConnecting\<rparr>" and ?r3 = "?r1\<lparr>ru_monitor := MonConnected True\<rparr>"
  let ?r4 = "?r3\<lparr>ru_session := session_shutdown Not (\<lambda>_. False) (ru_session ?r3), ru_phase := Draining\<rparr>"
  let ?r5 = "set_handle True ?r4\<lparr>ru_monitor := MonRegistering (ru_specs ?r4)\<rparr>"
  have lost: "run_step example_env True True SessionLost example_run ?r1"
    by (rule run_step.lost) (simp add: example_env_def)
  have wake: "run_step example_env True True MonWake ?r1 (?r1\<lparr>ru_monitor := MonChecking\<rparr>)"
    by (rule run_step.wake) (simp_all add: example_run_def session_spawn_def set_handle_def)
  have "monitor_check example_env True True (?r1\<lparr>ru_monitor := MonChecking\<rparr>) = ?r1\<lparr>ru_monitor := MonBackingOff\<rparr>"
    by (simp add: monitor_check_def example_env_def example_run_def session_spawn_def set_handle_def example_client_def)
  then have check: "run_step example_env True True MonCheck (?r1\<lparr>ru_monitor := MonChecking\<rparr>) (?r1\<lparr>ru_monitor := MonBackingOff\<rparr>)"
    using run_step.monitor [OF monitor_step.check, of "?r1\<lparr>ru_monitor := MonChecking\<rparr>" example_env True True] by simp
  have again: "run_step example_env True True MonWake (?r1\<lparr>ru_monitor := MonBackingOff\<rparr>) (?r1\<lparr>ru_monitor := MonBackingOff, ru_monitor := MonConnecting\<rparr>)"
    by (rule run_step.wake) (simp_all add: example_run_def session_spawn_def set_handle_def)
  have "monitor_attempt True ?att ?r2 = ?r3"
    by (simp add: monitor_attempt_def establish_session_def client_authenticate_def)
  then have attempt: "run_step example_env True True MonAttempt ?r2 ?r3"
    using run_step.monitor [OF monitor_step.attempt, of ?r2 example_env True True ?att] by simp
  have install: "run_step example_env True True MonInstall ?r4 ?r5"
    by (rule run_step.monitor, rule monitor_step.install) simp
  have finish: "run_step example_env True True RunReturned ?r5 (?r5\<lparr>ru_phase := Ended\<rparr>)"
    by (rule run_step.finish) (simp add: set_handle_def)
  have stops: "run_steps example_env True True ?r3 [Signalled, MonAborted, ShutdownSent, Disconnected] ?r4"
    by (rule example_stops) (simp add: example_run_def session_spawn_def set_handle_def)
  have "run_steps example_env True True ?r2 (MonAttempt # [Signalled, MonAborted, ShutdownSent, Disconnected] @ [MonInstall, RunReturned])
      (?r5\<lparr>ru_phase := Ended\<rparr>)"
    by (rule run_steps_cons [OF attempt run_steps_append [OF stops run_steps_cons [OF install run_steps_one [OF finish]]]])
  then have "\<exists>tr. run_steps example_env True True example_run tr (?r5\<lparr>ru_phase := Ended\<rparr>)"
    using run_steps_cons [OF lost run_steps_cons [OF wake run_steps_cons [OF check run_steps_cons [OF again]]]] by auto
  then show ?thesis
    using example_trace by (fastforce simp: set_handle_def session_shutdown_def Let_def example_env_def)
qed

end
