(* ===== verification/Cli.thy ===== *)
theory Cli
  imports Client_Run Serve Transports
begin

text \<open>
  \<open>alknet/src/main.rs\<close>: what the two subcommands do with their arguments. The arguments arrive parsed, as
  \<open>clap\<close> yields them; the features the binary is built with are an argument of the model. The result is
  what is handed to the core crate: the options together with the transport, or the server together
  with its acceptor.
\<close>

record features =
  feat_tls :: bool
  feat_iroh :: bool
  feat_acme :: bool

section \<open>connect\<close>

datatype transport_mode_arg = ArgTcp | ArgTls | ArgIroh

fun connect_mode :: "transport_mode_arg \<Rightarrow> transport_mode" where
  "connect_mode ArgTcp = ConnectTcp"
| "connect_mode ArgTls = ConnectTls"
| "connect_mode ArgIroh = ConnectIroh"

record connect_args =
  arg_server :: "string option"
  arg_peer :: "string option"
  arg_transport :: transport_mode_arg
  arg_identity :: "string option"
  arg_socks5 :: string
  arg_forward :: "string list"
  arg_remote_forward :: "string list"
  arg_proxy :: "string option"
  arg_iroh_relay :: "string option"
  arg_tls_server_name :: "string option"
  arg_insecure :: bool

definition cli_connect_options :: "connect_args \<Rightarrow> string \<Rightarrow> connect_options" where
  "cli_connect_options args identity =
     (let o1 = opt_socks5_addr (arg_socks5 args)
            (opt_transport_mode (connect_mode (arg_transport args)) (connect_options_new (File identity)));
          o2 = apply_opt opt_server (arg_server args) o1;
          o3 = apply_opt opt_peer (arg_peer args) o2;
          o4 = fold opt_forward (arg_forward args) o3;
          o5 = fold opt_remote_forward (arg_remote_forward args) o4;
          o6 = apply_opt opt_proxy (arg_proxy args) o5;
          o7 = apply_opt opt_iroh_relay (arg_iroh_relay args) o6;
          o8 = apply_opt opt_tls_server_name (arg_tls_server_name args) o7 in
      if arg_insecure args then opt_insecure True o8 else o8)"

text \<open>What the libraries parse: node identifiers, relay and proxy URLs. \<open>iroh_build\<close> makes an endpoint.\<close>

record ('node, 'ep) iroh_api =
  parse_node :: "string \<Rightarrow> string + 'node"
  parse_relay :: "string \<Rightarrow> string + string"
  parse_url :: "string \<Rightarrow> string + string"
  iroh_build :: "string \<Rightarrow> string list \<Rightarrow> string option \<Rightarrow> string + 'ep"

datatype ('cert, 'node, 'ep) client_transport =
  UseTcp tcp_transport
| UseTls "'cert tls_transport"
| UseIroh "('node, 'ep) iroh_transport"

definition parse_or :: "string \<Rightarrow> ('e \<Rightarrow> string) \<Rightarrow> 'e + 'a \<Rightarrow> string + 'a" where
  "parse_or what disp r = map_err (\<lambda>e. what @ '': '' @ disp e) r"

definition parse_opt :: "string \<Rightarrow> (string \<Rightarrow> string + 'a) \<Rightarrow> string option \<Rightarrow> string + 'a option" where
  "parse_opt what parse x =
     (case x of
        None \<Rightarrow> Ok None
      | Some u \<Rightarrow> result_bind (parse_or what (\<lambda>e. e) (parse u)) (\<lambda>a. Ok (Some a)))"

definition socket_addr_of :: "string \<Rightarrow> string \<Rightarrow> string + socket_addr" where
  "socket_addr_of what s =
     (case parse_socket_addr s of Some a \<Rightarrow> Ok a | None \<Rightarrow> Err (what @ '': '' @ addr_parse_error))"

definition needed :: "string \<Rightarrow> 'a option \<Rightarrow> string + 'a" where
  "needed msg x = (case x of Some a \<Rightarrow> Ok a | None \<Rightarrow> Err msg)"

fun connect_transport ::
  "features \<Rightarrow> ('node, 'ep) iroh_api \<Rightarrow> connect_args \<Rightarrow> transport_mode \<Rightarrow> string + ('cert, 'node, 'ep) client_transport" where
  "connect_transport feats api args ConnectTcp =
     result_bind (needed ''--server is required for tcp transport'' (arg_server args)) (\<lambda>server.
     result_bind (socket_addr_of ''invalid server address'' server) (\<lambda>addr.
       Ok (UseTcp (tcp_transport_new addr))))"
| "connect_transport feats api args ConnectTls =
     (if \<not> feat_tls feats then
        Err ''TLS transport is not available (alknet-core built without 'tls' feature)''
      else
        result_bind (needed ''--server is required for tls transport'' (arg_server args)) (\<lambda>server.
        result_bind (socket_addr_of ''invalid server address'' server) (\<lambda>addr.
          Ok (UseTls (with_insecure (arg_insecure args)
            (apply_opt with_server_name (arg_tls_server_name args) (tls_transport_new addr)))))))"
| "connect_transport feats api args ConnectIroh =
     (if \<not> feat_iroh feats then
        Err ''iroh transport is not available (alknet-core built without 'iroh' feature)''
      else
        result_bind (needed ''--peer is required for iroh transport'' (arg_peer args)) (\<lambda>peer.
        result_bind (parse_or ''invalid iroh peer endpoint ID'' (\<lambda>e. e) (parse_node api peer)) (\<lambda>node.
        result_bind (parse_opt ''invalid iroh relay URL'' (parse_relay api) (arg_iroh_relay args)) (\<lambda>relay.
        result_bind (parse_opt ''invalid proxy URL'' (parse_url api) (arg_proxy args)) (\<lambda>proxy.
        result_bind (parse_or ''failed to create iroh transport'' (\<lambda>e. e)
            (iroh_transport_new (iroh_build api) node relay proxy)) (\<lambda>t.
          Ok (UseIroh t)))))))"

definition run_connect ::
  "features \<Rightarrow> ('node, 'ep) iroh_api \<Rightarrow> connect_args \<Rightarrow> string + connect_options \<times> ('cert, 'node, 'ep) client_transport" where
  "run_connect feats api args =
     result_bind (needed ''--identity is required (or set ALKNET_IDENTITY env var)'' (arg_identity args)) (\<lambda>identity.
     let opts = cli_connect_options args identity in
     result_bind (map_err show_config_error (connect_options_validate opts)) (\<lambda>_.
     result_bind (connect_transport feats api args (co_transport_mode opts)) (\<lambda>t.
       Ok (opts, t))))"

text \<open>The session, up to the tasks that \<open>run\<close> spawns; the steps of \<open>Client_Run\<close> go on from there.\<close>

definition connect_and_run ::
  "(string \<Rightarrow> bytes option) \<Rightarrow> (string \<Rightarrow> string + 'sk) \<Rightarrow> ('sk \<Rightarrow> 'key) \<Rightarrow> (string \<Rightarrow> string option) \<Rightarrow> 'h run_env \<Rightarrow>
   ('sk, 'key, 'h) attempt \<Rightarrow> connect_options \<Rightarrow> (string + ('sk, 'key, 'h, 'c) client_run) outcome" where
  "connect_and_run fs decode_sk public_key env_var env att opts =
     (case client_session_new fs decode_sk public_key env_var att opts of
        Err e \<Rightarrow> Returns (Err (show_connect_error e))
      | Ok s \<Rightarrow>
          outcome_bind (session_start (re_tcpip_forward env) s) (\<lambda>(res, s'). Returns (
            case res of
              Err e \<Rightarrow> Err (show_connect_error e)
            | Ok (listen, fwds, specs) \<Rightarrow> Ok (session_spawn listen fwds specs s'))))"

lemma connect_and_run_returns: "connect_and_run fs decode_sk public_key env_var env att opts \<noteq> Panics"
  using session_start_returns [of "re_tcpip_forward env"]
  by (auto simp: connect_and_run_def outcome_bind_def split: sum.splits outcome.splits)

text \<open>A client that starts has authenticated with the key of its options.\<close>

lemma connect_and_run_authenticated:
  assumes "connect_and_run fs decode_sk public_key env_var env att opts = Returns (Ok r)"
  shows "\<exists>s c h h'. client_session_new fs decode_sk public_key env_var att opts = Ok s \<and>
    from_key_source fs decode_sk public_key (co_identity opts) = Ok c \<and>
    client_authenticate att c h (derive_username env_var) = (Ok True, h') \<and> run_trace env chk warn s [] r"
proof -
  obtain s where s: "client_session_new fs decode_sk public_key env_var att opts = Ok s"
    using assms by (auto simp: connect_and_run_def split: sum.splits)
  obtain res s' where res: "session_start (re_tcpip_forward env) s = Returns (res, s')"
    using session_start_returns [of "re_tcpip_forward env" s] by (metis outcome.exhaust surj_pair)
  then obtain listen fwds specs where start: "session_start (re_tcpip_forward env) s = Returns (Ok (listen, fwds, specs), s')"
      and r: "r = session_spawn listen fwds specs s'"
    using assms s by (cases res) (auto simp: connect_and_run_def)
  obtain c h where c: "from_key_source fs decode_sk public_key (co_identity opts) = Ok c"
      "establish_session att (client_handler_from_config c) c (derive_username env_var) = Ok h"
    using s by (auto simp: client_session_new_def Let_def result_bind_Inr_iff map_err_def split: sum.splits)
  then have "\<exists>h h'. client_authenticate att c h (derive_username env_var) = (Ok True, h')"
    by (fastforce simp: establish_session_def split: sum.splits prod.splits if_splits)
  then show ?thesis
    using s c(1) start run_steps.none [of env chk warn] unfolding r run_trace_def by blast
qed

section \<open>serve\<close>

fun serve_mode :: "transport_mode_arg \<Rightarrow> serve_transport_mode" where
  "serve_mode ArgTcp = ModeTcp"
| "serve_mode ArgTls = ModeTls"
| "serve_mode ArgIroh = ModeIroh"

record serve_args =
  sarg_key :: string
  sarg_authorized_keys :: "string option"
  sarg_cert_authority :: "string option"
  sarg_transport :: transport_mode_arg
  sarg_listen :: string
  sarg_tls_cert :: "string option"
  sarg_tls_key :: "string option"
  sarg_acme_domain :: "string option"
  sarg_stealth :: bool
  sarg_proxy :: "string option"
  sarg_iroh_relay :: "string option"
  sarg_max_connections_per_ip :: nat
  sarg_max_auth_attempts :: nat

definition cli_serve_options :: "serve_args \<Rightarrow> serve_options" where
  "cli_serve_options args =
     (let o1 = set_max_auth_attempts (sarg_max_auth_attempts args)
            (set_max_connections_per_ip (sarg_max_connections_per_ip args)
            (set_stealth (sarg_stealth args)
            (set_listen_addr (sarg_listen args)
            (set_transport_mode (serve_mode (sarg_transport args)) (serve_options_new (File (sarg_key args)))))));
          o2 = apply_opt (\<lambda>p. set_authorized_keys (File p)) (sarg_authorized_keys args) o1;
          o3 = apply_opt (\<lambda>p. set_cert_authority (File p)) (sarg_cert_authority args) o2;
          o4 = apply_opt set_tls_cert (sarg_tls_cert args) o3;
          o5 = apply_opt set_tls_key (sarg_tls_key args) o4;
          o6 = apply_opt set_acme_domain (sarg_acme_domain args) o5;
          o7 = apply_opt set_proxy (sarg_proxy args) o6 in
      apply_opt set_iroh_relay (sarg_iroh_relay args) o7)"

text \<open>The acceptor that \<open>serve\<close> asks for.\<close>

datatype ('cert, 'pk, 'ep) acceptor =
  AcceptTcp socket_addr
| AcceptAcme socket_addr acme_cert_provider
| AcceptTls socket_addr "'cert list" 'pk
| AcceptIroh "'ep iroh_acceptor"

record ('cert, 'pk) tls_files =
  tf_read :: "string \<Rightarrow> string + bytes"
  tf_certs :: "bytes \<Rightarrow> string + 'cert list"
  tf_key :: "bytes \<Rightarrow> string + 'pk option"

definition manual_tls_acceptor ::
  "('cert, 'pk) tls_files \<Rightarrow> serve_args \<Rightarrow> string + ('cert, 'pk, 'ep) acceptor" where
  "manual_tls_acceptor tf args =
     result_bind (socket_addr_of ''invalid listen address'' (sarg_listen args)) (\<lambda>addr.
     result_bind (needed ''--tls-cert is required for TLS transport (or use --acme-domain)'' (sarg_tls_cert args)) (\<lambda>cert_path.
     result_bind (needed ''--tls-key is required for TLS transport (or use --acme-domain)'' (sarg_tls_key args)) (\<lambda>key_path.
     result_bind (parse_or (''failed to read TLS cert '' @ [CHR 0x27] @ cert_path @ [CHR 0x27]) (\<lambda>e. e) (tf_read tf cert_path)) (\<lambda>cert_data.
     result_bind (parse_or (''failed to read TLS key '' @ [CHR 0x27] @ key_path @ [CHR 0x27]) (\<lambda>e. e) (tf_read tf key_path)) (\<lambda>key_data.
     result_bind (parse_or ''failed to parse TLS certificates'' (\<lambda>e. e) (tf_certs tf cert_data)) (\<lambda>certs.
     result_bind (parse_or ''failed to parse TLS private key'' (\<lambda>e. e) (tf_key tf key_data)) (\<lambda>k.
     result_bind (needed (''no private key found in '' @ key_path) k) (\<lambda>key.
       Ok (AcceptTls addr certs key)))))))))"

fun serve_acceptor ::
  "features \<Rightarrow> string \<Rightarrow> string \<Rightarrow> ('node, 'ep) iroh_api \<Rightarrow> ('cert, 'pk) tls_files \<Rightarrow> serve_args \<Rightarrow> serve_transport_mode \<Rightarrow>
   string + ('cert, 'pk, 'ep) acceptor" where
  "serve_acceptor feats staging production api tf args ModeTcp =
     result_bind (socket_addr_of ''invalid listen address'' (sarg_listen args)) (\<lambda>addr. Ok (AcceptTcp addr))"
| "serve_acceptor feats staging production api tf args ModeTls =
     (if \<not> feat_tls feats then
        Err ''TLS transport is not available (alknet-core built without 'tls' feature)''
      else case (feat_acme feats, sarg_acme_domain args) of
        (True, Some domain) \<Rightarrow>
          result_bind (socket_addr_of ''invalid listen address'' (sarg_listen args)) (\<lambda>addr.
            Ok (AcceptAcme addr (with_production_directory production (acme_provider_domain staging domain))))
      | _ \<Rightarrow> manual_tls_acceptor tf args)"
| "serve_acceptor feats staging production api tf args ModeIroh =
     (if \<not> feat_iroh feats then
        Err ''iroh transport is not available (alknet-core built without 'iroh' feature)''
      else
        result_bind (parse_opt ''invalid iroh relay URL'' (parse_relay api) (sarg_iroh_relay args)) (\<lambda>relay.
        result_bind (parse_opt ''invalid proxy URL'' (parse_url api) (sarg_proxy args)) (\<lambda>proxy.
        result_bind (parse_or ''iroh bind failed'' (\<lambda>e. e) (iroh_acceptor_bind (iroh_build api) relay proxy)) (\<lambda>a.
          Ok (AcceptIroh a)))))"

definition run_serve ::
  "features \<Rightarrow> string \<Rightarrow> string \<Rightarrow> ('key, 'kd, 'sk) key_env \<Rightarrow> ('node, 'ep) iroh_api \<Rightarrow> ('cert, 'pk) tls_files \<Rightarrow> serve_args \<Rightarrow>
   (string + ('key, 'net, 'sk) server \<times> ('cert, 'pk, 'ep) acceptor) outcome" where
  "run_serve feats staging production env api tf args =
     (if sarg_acme_domain args \<noteq> None \<and> \<not> feat_acme feats then
        Returns (Err ''ACME support is not available (alknet built without 'acme' feature)'')
      else if sarg_stealth args \<and> serve_mode (sarg_transport args) \<noteq> ModeTls then
        Returns (Err ''stealth mode requires TLS transport (--transport tls)'')
      else
        let opts = cli_serve_options args in
        case serve_options_validate opts of
          Err e \<Rightarrow> Returns (Err (show_config_error e))
        | Ok _ \<Rightarrow>
            outcome_bind (server_new env opts) (\<lambda>r. Returns (
              result_bind (map_err show_serve_error r) (\<lambda>server.
              result_bind (serve_acceptor feats staging production api tf args (so_transport_mode opts)) (\<lambda>a.
                Ok (server, a))))))"

section \<open>The arguments arrive\<close>

lemma fold_opt_forward:
  "fold opt_forward xs opts = opts\<lparr>co_forwards := co_forwards opts @ xs\<rparr>"
  by (induction xs arbitrary: opts) (simp_all add: opt_forward_def)

lemma fold_opt_remote_forward:
  "fold opt_remote_forward xs opts = opts\<lparr>co_remote_forwards := co_remote_forwards opts @ xs\<rparr>"
  by (induction xs arbitrary: opts) (simp_all add: opt_remote_forward_def)

lemma cli_connect_options_eq:
  "cli_connect_options args identity =
     \<lparr>co_server = arg_server args, co_peer = arg_peer args, co_transport_mode = connect_mode (arg_transport args),
      co_identity = File identity, co_socks5_addr = arg_socks5 args, co_forwards = arg_forward args,
      co_remote_forwards = arg_remote_forward args, co_proxy = arg_proxy args, co_iroh_relay = arg_iroh_relay args,
      co_tls_server_name = arg_tls_server_name args, co_insecure = arg_insecure args\<rparr>"
  by (simp add: cli_connect_options_def Let_def fold_opt_forward fold_opt_remote_forward apply_opt_def
      connect_options_new_def opt_server_def opt_peer_def opt_transport_mode_def opt_socks5_addr_def opt_proxy_def
      opt_iroh_relay_def opt_tls_server_name_def opt_insecure_def split: option.split)

lemma cli_serve_options_eq:
  "cli_serve_options args =
     \<lparr>so_key = File (sarg_key args), so_authorized_keys = map_option File (sarg_authorized_keys args),
      so_cert_authority = map_option File (sarg_cert_authority args),
      so_transport_mode = serve_mode (sarg_transport args), so_listen_addr = sarg_listen args,
      so_tls_cert = sarg_tls_cert args, so_tls_key = sarg_tls_key args, so_acme_domain = sarg_acme_domain args,
      so_stealth = sarg_stealth args, so_proxy = sarg_proxy args, so_iroh_relay = sarg_iroh_relay args,
      so_max_connections_per_ip = sarg_max_connections_per_ip args,
      so_max_auth_attempts = sarg_max_auth_attempts args, so_listeners = None\<rparr>"
  by (simp add: cli_serve_options_def Let_def apply_opt_def serve_options_new_def serve_option_setters
      split: option.split)

lemma run_connect_tls:
  assumes "run_connect feats api args = Ok (opts, UseTls t)"
  shows "tls_insecure t = arg_insecure args" "tls_root_cert t = None" "tls_server_name_of t = arg_tls_server_name args"
    "\<exists>server. arg_server args = Some server \<and> parse_socket_addr server = Some (tls_addr t)"
proof -
  have ct: "connect_transport feats api args (connect_mode (arg_transport args)) = Ok (UseTls t)"
    using assms by (auto simp: run_connect_def result_bind_Inr_iff Let_def cli_connect_options_eq)
  have "connect_mode (arg_transport args) = ConnectTls"
    using ct by (cases "connect_mode (arg_transport args)")
      (auto simp: result_bind_Inr_iff Let_def split: if_splits)
  then obtain server addr where "t = with_insecure (arg_insecure args)
      (apply_opt with_server_name (arg_tls_server_name args) (tls_transport_new addr))"
      "arg_server args = Some server" "parse_socket_addr server = Some addr"
    using ct by (auto simp: result_bind_Inr_iff needed_def socket_addr_of_def split: if_splits option.splits)
  then show "tls_insecure t = arg_insecure args" "tls_root_cert t = None"
      "tls_server_name_of t = arg_tls_server_name args"
      "\<exists>server. arg_server args = Some server \<and> parse_socket_addr server = Some (tls_addr t)"
    by (simp_all add: with_insecure_def with_server_name_def apply_opt_def tls_transport_new_def split: option.split)
qed

text \<open>C26. Unless --insecure is given, the TLS connection of the client is to a server whose certificate was
  checked against the built-in roots and nothing else, for the name that --tls-server-name gives and
  otherwise for the IP address of --server: from the arguments of the command line to the handshake,
  no other setting turns the check off, adds a root or changes the name. The hypothesis is that a
  handshake only succeeds if the verifier it was given accepts the server's certificate for the name.\<close>

theorem cli_tls_checks_certificate:
  assumes "run_connect feats api args = Ok (opts, UseTls t)" and "\<not> arg_insecure args"
    and "tls_connect connect roots add try_from handshake t = Ok tls"
    and "\<And>config name tcp tls. handshake config name tcp = Ok tls \<Longrightarrow> verify_server_cert check config cert name"
  shows "\<exists>server addr name. arg_server args = Some server \<and> parse_socket_addr server = Some addr \<and>
    try_from (case arg_tls_server_name args of Some n \<Rightarrow> n | None \<Rightarrow> show_ip_addr (sa_ip addr)) = Ok name \<and>
    check roots cert name"
proof -
  obtain name tcp config where c: "build_client_config roots add t = Ok config"
      and n: "resolve_server_name try_from t = Ok name" and h: "handshake config name tcp = Ok tls"
    using assms(3) by (auto simp: tls_connect_def result_bind_Inr_iff)
  note t = run_connect_tls [OF assms(1)]
  have "config = RootStore roots"
    using c t assms(2) by (simp add: build_client_config_def)
  then have "check roots cert name"
    using assms(4) [OF h] by simp
  then show ?thesis
    using n t(3,4) by (auto simp: resolve_server_name_def Let_def split: sum.splits)
qed

definition example_connect_args :: connect_args where
  "example_connect_args =
     \<lparr>arg_server = Some ''10.0.0.1:443'', arg_peer = None, arg_transport = ArgTls, arg_identity = Some ''id'',
      arg_socks5 = ''127.0.0.1:1080'', arg_forward = [], arg_remote_forward = [], arg_proxy = None,
      arg_iroh_relay = None, arg_tls_server_name = Some ''example.com'', arg_insecure = False\<rparr>"

definition example_iroh_api :: "(unit, unit) iroh_api" where
  "example_iroh_api = \<lparr>parse_node = (\<lambda>_. Ok ()), parse_relay = Ok, parse_url = Ok, iroh_build = (\<lambda>_ _ _. Ok ())\<rparr>"

definition example_handshake :: "nat \<Rightarrow> nat verifier \<Rightarrow> string \<Rightarrow> unit \<Rightarrow> string + unit" where
  "example_handshake cert config name tcp =
     (if verify_server_cert (\<lambda>roots c n. c \<in> set roots \<and> n = ''example.com'') config cert name then Ok () else Err ''bad certificate'')"

theorem cli_tls_checks_certificate_witness:
  "\<exists>opts t. run_connect \<lparr>feat_tls = True, feat_iroh = False, feat_acme = False\<rparr> example_iroh_api example_connect_args =
      Ok (opts, UseTls t) \<and>
    tls_connect (\<lambda>_. Ok ()) [7 :: nat] (\<lambda>c rs. Ok (c # rs)) Ok (example_handshake 7) t = Ok () \<and> 7 \<in> set [7 :: nat]"
proof -
  let ?feats = "\<lparr>feat_tls = True, feat_iroh = False, feat_acme = False\<rparr>"
  let ?t = "\<lparr>tls_addr = SocketAddr (V4 10 0 0 1) 443, tls_server_name_of = Some ''example.com'', tls_insecure = False,
      tls_root_cert = None\<rparr> :: nat tls_transport"
  have "parse_socket_addr ''10.0.0.1:443'' = Some (SocketAddr (V4 10 0 0 1) 443)"
    by code_simp
  then have run: "run_connect ?feats example_iroh_api example_connect_args =
      Ok (cli_connect_options example_connect_args ''id'', UseTls ?t)"
    by (simp add: run_connect_def example_connect_args_def needed_def cli_connect_options_eq
        connect_options_validate_def socket_addr_of_def with_insecure_def with_server_name_def tls_transport_new_def)
  have con: "tls_connect (\<lambda>_. Ok ()) [7 :: nat] (\<lambda>c rs. Ok (c # rs)) Ok (example_handshake 7) ?t = Ok ()"
    by (simp add: tls_connect_def build_client_config_def resolve_server_name_def example_handshake_def)
  have hs: "example_handshake 7 config name tcp = Ok tls \<Longrightarrow>
      verify_server_cert (\<lambda>roots c n. c \<in> set roots \<and> n = ''example.com'') config 7 name" for config name tcp tls
    by (simp add: example_handshake_def split: if_splits)
  have sec: "\<not> arg_insecure example_connect_args"
    by (simp add: example_connect_args_def)
  from cli_tls_checks_certificate [where check = "\<lambda>roots c n. c \<in> set roots \<and> n = ''example.com''", OF run sec con, where cert = 7]
  have "7 \<in> set [7 :: nat]"
    using hs by blast
  then show ?thesis
    using run con by blast
qed

text \<open>What is served is what was asked for.\<close>

lemma run_serve_limits:
  fixes server :: "('key, 'net, 'sk) server"
  assumes "run_serve feats staging production env api tf args = Returns (Ok (server, a))"
  shows "srv_max_auth_attempts server = sarg_max_auth_attempts args"
    "srv_limiter server = connection_rate_limiter_new (sarg_max_connections_per_ip args)"
    "rc_max_auth_attempts (srv_config server) = sarg_max_auth_attempts args"
proof -
  have "server_new env (cli_serve_options args) = Returns (Ok server)"
    using assms by (cases "serve_options_validate (cli_serve_options args)")
      (auto simp: run_serve_def Let_def outcome_bind_Returns_iff result_bind_Inr_iff split: if_splits)
  then obtain sc and dyn :: "('key, 'net) dynamic_config" where
      sc: "from_serve_options env (cli_serve_options args) = Returns (Ok (sc, dyn))"
      "srv_max_auth_attempts server = sc_max_auth_attempts sc"
      "srv_limiter server = connection_rate_limiter_new (sc_max_connections_per_ip sc)"
      "rc_max_auth_attempts (srv_config server) = sc_max_auth_attempts sc"
    by (auto simp: server_new_def outcome_bind_Returns_iff result_bind_Inr_iff)
  then show "srv_max_auth_attempts server = sarg_max_auth_attempts args"
      "srv_limiter server = connection_rate_limiter_new (sarg_max_connections_per_ip args)"
      "rc_max_auth_attempts (srv_config server) = sarg_max_auth_attempts args"
    using from_serve_options_limits [OF sc(1)] by (simp_all add: cli_serve_options_eq)
qed

end
